theory Spec2Isabelle
  imports Main "HOL-Library.Word"
begin

unbundle bit_operations_syntax

section \<open>The pipeline runner \<open>runpipeline.c\<close>\<close>

text \<open>
  The program runs a chain of commands connected by anonymous pipes. It is a single C
  file; the operating system it talks to (\<open>pipe\<close>, \<open>fork\<close>, \<open>dup2\<close>, \<open>close\<close>,
  \<open>execvp\<close>, \<open>waitpid\<close>, \<open>malloc\<close>) is modelled by a small kernel: a descriptor table per
  process and a record \<open>env\<close> holding the answers of the calls whose outcome the program
  cannot determine.
\<close>

subsection \<open>Constants of the source\<close>

definition MAX_NUM_PROGRAMS :: nat where
  "MAX_NUM_PROGRAMS = 10"

definition FD_STDIN :: int where
  "FD_STDIN = 0"

definition FD_STDOUT :: int where
  "FD_STDOUT = 1"

text \<open>\<open>EXIT_FAILURE\<close> of \<open>stdlib.h\<close>.\<close>

definition EXIT_FAILURE :: int where
  "EXIT_FAILURE = 1"

subsection \<open>Data\<close>

text \<open>
  \<open>struct program_tag\<close>. The field \<open>argv\<close> is a pointer to a NULL-terminated array:
  \<open>None\<close> is the NULL pointer, \<open>Some as\<close> an array holding the strings \<open>as\<close> and then NULL.
\<close>

record Program =
  argv :: "string list option"
  argc :: int
  pid :: int
  fd_in :: int
  fd_out :: int

text \<open>
  What a descriptor refers to: a file the process inherited from its caller, or one end of
  a pipe the process created, numbered in order of creation.
\<close>

datatype ofile = Inherited nat | PipeRead nat | PipeWrite nat

text \<open>The descriptor table of a process: slot \<open>n\<close> is descriptor \<open>n\<close>.\<close>

type_synonym fdtable = "ofile option list"

text \<open>The lines the orchestrator prints on its diagnostic channel.\<close>

datatype event =
    Starting nat string
  | Waiting nat string
  | ExitedWith nat string int
  | EverythingGood

record proc =
  programs :: "Program list"
  fdt :: fdtable
  npipes :: nat
  stderr_log :: "event list"

text \<open>
  How a run of a piece of code ends: it returns a value, it calls \<open>die\<close> (which prints
  the message and calls \<open>exit(EXIT_FAILURE)\<close>), it replaces the process image with
  \<open>execvp\<close>, or it blocks for ever in \<open>waitpid\<close>. Each carries the state of the process at
  that moment.
\<close>

datatype 'a result =
    Return 'a proc
  | Die string proc
  | Exec string "string list" proc
  | Hang proc

text \<open>
  The answers of the operating system: whether the \<open>k\<close>-th \<open>malloc\<close> of the parser
  succeeds, whether the creation of pipe \<open>k\<close> succeeds, what \<open>fork\<close> returns when stage
  \<open>k\<close> is started, whether \<open>execvp\<close> finds a file, and what \<open>waitpid\<close> on a process id
  gives: \<open>None\<close> when the call never returns, else the return value and the status word.
\<close>

record env =
  malloc_ok :: "nat \<Rightarrow> bool"
  pipe_ok :: "nat \<Rightarrow> bool"
  fork_ret :: "nat \<Rightarrow> int"
  exec_ok :: "string \<Rightarrow> bool"
  waitpid_ret :: "int \<Rightarrow> (int \<times> 32 word) option"

subsection \<open>The kernel\<close>

definition fd_lookup :: "fdtable \<Rightarrow> int \<Rightarrow> ofile option" where
  "fd_lookup t fd = (if 0 \<le> fd \<and> nat fd < length t then t ! nat fd else None)"

text \<open>A new descriptor is the lowest free one.\<close>

fun alloc_fd :: "fdtable \<Rightarrow> ofile \<Rightarrow> int \<times> fdtable" where
  "alloc_fd [] f = (0, [Some f])"
| "alloc_fd (None # t) f = (0, Some f # t)"
| "alloc_fd (Some g # t) f = (case alloc_fd t f of (n, t') \<Rightarrow> (n + 1, Some g # t'))"

text \<open>\<open>close(fd)\<close>: \<open>-1\<close> on a descriptor that is not open.\<close>

definition sys_close :: "int \<Rightarrow> proc \<Rightarrow> int \<times> proc" where
  "sys_close fd st =
     (if fd_lookup (fdt st) fd = None then (-1, st)
      else (0, st\<lparr>fdt := (fdt st)[nat fd := None]\<rparr>))"

text \<open>
  \<open>dup2(oldfd, newfd)\<close>: \<open>-1\<close> when \<open>oldfd\<close> is not open or \<open>newfd\<close> is negative; nothing
  happens when both are equal; else \<open>newfd\<close> is closed if open and made a copy of \<open>oldfd\<close>.
\<close>

definition sys_dup2 :: "int \<Rightarrow> int \<Rightarrow> proc \<Rightarrow> int \<times> proc" where
  "sys_dup2 oldfd newfd st =
     (case fd_lookup (fdt st) oldfd of
        None \<Rightarrow> (-1, st)
      | Some f \<Rightarrow>
          if newfd < 0 then (-1, st)
          else if oldfd = newfd then (newfd, st)
          else (newfd, st\<lparr>fdt := (fdt st @ replicate (Suc (nat newfd) - length (fdt st)) None)
                                     [nat newfd := Some f]\<rparr>))"

text \<open>
  \<open>pipe(fd)\<close>: on failure \<open>-1\<close> and nothing changes; on success \<open>0\<close>, the read end in
  \<open>fd[0]\<close> and the write end in \<open>fd[1]\<close>, both new descriptors.
\<close>

definition sys_pipe :: "env \<Rightarrow> proc \<Rightarrow> (int \<times> int \<times> int) \<times> proc" where
  "sys_pipe e st =
     (if \<not> pipe_ok e (npipes st) then ((-1, 0, 0), st)
      else
        (case alloc_fd (fdt st) (PipeRead (npipes st)) of (r, t1) \<Rightarrow>
         case alloc_fd t1 (PipeWrite (npipes st)) of (w, t2) \<Rightarrow>
           ((0, r, w), st\<lparr>fdt := t2, npipes := Suc (npipes st)\<rparr>)))"

text \<open>
  The status word of \<open>waitpid\<close> on Linux (\<open>bits/waitstatus.h\<close>): a process that called
  \<open>exit(c)\<close> leaves \<open>(c & 0xff) << 8\<close>; a process killed by signal \<open>sig\<close> leaves \<open>sig\<close>,
  with bit 7 set when it dumped core. \<open>WEXITSTATUS(s)\<close> is \<open>(s & 0xff00) >> 8\<close>,
  \<open>WIFEXITED(s)\<close> is \<open>(s & 0x7f) == 0\<close> and \<open>WTERMSIG(s)\<close> is \<open>s & 0x7f\<close>.
\<close>

datatype child_end = Exited nat | Killed nat bool

fun raw_status :: "child_end \<Rightarrow> 32 word" where
  "raw_status (Exited c) = push_bit 8 (of_nat (c mod 256))"
| "raw_status (Killed sig core) = of_nat sig OR (if core then 128 else 0)"

declare raw_status.simps [simp del]

definition WEXITSTATUS :: "32 word \<Rightarrow> int" where
  "WEXITSTATUS s = sint (drop_bit 8 (s AND 0xff00))"

definition WIFEXITED :: "32 word \<Rightarrow> bool" where
  "WIFEXITED s = (s AND 0x7f = 0)"

definition WTERMSIG :: "32 word \<Rightarrow> int" where
  "WTERMSIG s = sint (s AND 0x7f)"

subsection \<open>\<open>die\<close>, \<open>check_pointer\<close>, \<open>check_return_value\<close>\<close>

definition die :: "string \<Rightarrow> proc \<Rightarrow> 'a result" where
  "die s st = Die s st"

definition check_return_value :: "int \<Rightarrow> string \<Rightarrow> proc \<Rightarrow> unit result" where
  "check_return_value rv s st = (if rv < 0 then die s st else Return () st)"

text \<open>The exit status with which the process ends, when it does.\<close>

fun exit_status :: "int result \<Rightarrow> int option" where
  "exit_status (Return v st) = Some v"
| "exit_status (Die s st) = Some EXIT_FAILURE"
| "exit_status (Exec f as st) = None"
| "exit_status (Hang st) = None"

text \<open>
  One statement after the other: the second runs in the state the first returns, and not
  at all when the first ends the process.
\<close>

fun seq :: "'a result \<Rightarrow> ('a \<Rightarrow> proc \<Rightarrow> 'b result) \<Rightarrow> 'b result" where
  "seq (Return v st) f = f v st"
| "seq (Die s st) f = Die s st"
| "seq (Exec g as st) f = Exec g as st"
| "seq (Hang st) f = Hang st"

text \<open>\<open>rv = close(fd); check_return_value(rv, "close()");\<close>\<close>

definition checked_close :: "int \<Rightarrow> proc \<Rightarrow> unit result" where
  "checked_close fd st =
     (case sys_close fd st of (rv, st1) \<Rightarrow> check_return_value rv ''close()'' st1)"

text \<open>\<open>rv = dup2(oldfd, newfd); check_return_value(rv, "dup2()");\<close>\<close>

definition checked_dup2 :: "int \<Rightarrow> int \<Rightarrow> proc \<Rightarrow> unit result" where
  "checked_dup2 oldfd newfd st =
     (case sys_dup2 oldfd newfd st of (rv, st1) \<Rightarrow> check_return_value rv ''dup2()'' st1)"

subsection \<open>\<open>wait_on_program\<close>\<close>

text \<open>
  \<open>None\<close> when \<open>waitpid\<close> never returns; else the value the function returns.
\<close>

definition wait_on_program :: "env \<Rightarrow> Program \<Rightarrow> int option" where
  "wait_on_program e prog =
     (if pid prog < 0 then Some (-1)
      else
        (case waitpid_ret e (pid prog) of
           None \<Rightarrow> None
         | Some (rv, exitStatus) \<Rightarrow>
             if rv \<noteq> pid prog then Some (-1)
             else Some (WEXITSTATUS exitStatus)))"

subsection \<open>\<open>start_program\<close>\<close>

text \<open>The loop of the child that closes the pipe descriptors of the stages from \<open>cur\<close> on.\<close>

function close_pipe_fds :: "nat \<Rightarrow> nat \<Rightarrow> proc \<Rightarrow> unit result" where
  "close_pipe_fds num_programs i st =
     (if i < num_programs then
        seq (if fd_in (programs st ! i) \<ge> 0
             then checked_close (fd_in (programs st ! i)) st else Return () st) (\<lambda>_ st1.
        seq (if fd_out (programs st1 ! i) \<ge> 0
             then checked_close (fd_out (programs st1 ! i)) st1 else Return () st1) (\<lambda>_ st2.
        close_pipe_fds num_programs (Suc i) st2))
      else Return () st)"
  by pat_completeness auto
termination
  by (relation "measure (\<lambda>(num_programs, i, st). num_programs - i)") auto

declare close_pipe_fds.simps [simp del]

text \<open>
  \<open>execvp(prog->argv[0], prog->argv); die("execvp() failed.");\<close> With an empty
  argument vector \<open>argv[0]\<close> is NULL and \<open>execvp\<close> fails.
\<close>

definition execvp_or_die :: "env \<Rightarrow> Program \<Rightarrow> proc \<Rightarrow> unit result" where
  "execvp_or_die e prog st =
     (case argv prog of
        Some (f # as) \<Rightarrow> if exec_ok e f then Exec f (f # as) st else die ''execvp() failed.'' st
      | _ \<Rightarrow> die ''execvp() failed.'' st)"

text \<open>
  \<open>fork\<close> returns twice: a negative value is a failure, \<open>0\<close> is the run of the child,
  which starts from a copy of the parent's state, a positive value the run of the parent.
\<close>

definition start_program :: "env \<Rightarrow> nat \<Rightarrow> nat \<Rightarrow> proc \<Rightarrow> unit result" where
  "start_program e num_programs cur st =
     (let child = fork_ret e cur in
      if child < 0 then die ''fork() failed.'' st
      else if child = 0 then
        seq (if cur > 0
             then checked_dup2 (fd_in (programs st ! cur)) FD_STDIN st else Return () st) (\<lambda>_ st1.
        seq (if int cur \<noteq> int num_programs - 1
             then checked_dup2 (fd_out (programs st1 ! cur)) FD_STDOUT st1 else Return () st1) (\<lambda>_ st2.
        seq (close_pipe_fds num_programs cur st2) (\<lambda>_ st3.
        execvp_or_die e (programs st3 ! cur) st3)))
      else
        (let st1 = st\<lparr>programs := (programs st)[cur := (programs st ! cur)\<lparr>pid := child\<rparr>]\<rparr> in
         seq (if cur > 0 \<and> fd_in (programs st1 ! cur) \<ge> 0
              then checked_close (fd_in (programs st1 ! cur)) st1 else Return () st1) (\<lambda>_ st2.
         seq (if int cur \<noteq> int num_programs - 1 \<and> fd_out (programs st2 ! cur) \<ge> 0
              then checked_close (fd_out (programs st2 ! cur)) st2 else Return () st2) (\<lambda>_ st3.
         Return () (st3\<lparr>programs :=
           (programs st3)[cur := (programs st3 ! cur)\<lparr>fd_in := -1, fd_out := -1\<rparr>]\<rparr>)))))"

subsection \<open>\<open>prepare_pipes\<close>\<close>

function prepare_pipes_loop :: "env \<Rightarrow> nat \<Rightarrow> nat \<Rightarrow> proc \<Rightarrow> unit result" where
  "prepare_pipes_loop e num_programs i st =
     (if i < num_programs then
        (case sys_pipe e st of ((status, r, w), st1) \<Rightarrow>
           if status \<noteq> 0 then die ''pipe() failed.'' st1
           else
             (let ps1 = (programs st1)[i - 1 := (programs st1 ! (i - 1))\<lparr>fd_out := w\<rparr>];
                  ps2 = ps1[i := (ps1 ! i)\<lparr>fd_in := r\<rparr>]
              in prepare_pipes_loop e num_programs (Suc i) (st1\<lparr>programs := ps2\<rparr>)))
      else Return () st)"
  by pat_completeness auto
termination
  by (relation "measure (\<lambda>(e, num_programs, i, st). num_programs - i)") auto

declare prepare_pipes_loop.simps [simp del]

definition prepare_pipes :: "env \<Rightarrow> nat \<Rightarrow> proc \<Rightarrow> unit result" where
  "prepare_pipes e num_programs st = prepare_pipes_loop e num_programs 1 st"

subsection \<open>\<open>init_program\<close>, \<open>free_programs\<close>\<close>

text \<open>
  The array \<open>programs\<close> of \<open>main\<close> is the list of its initialised entries: writing
  entry \<open>k\<close> when \<open>k\<close> entries are initialised appends one.
\<close>

definition store_program :: "nat \<Rightarrow> Program \<Rightarrow> Program list \<Rightarrow> Program list" where
  "store_program k p ps = (if k < length ps then ps[k := p] else ps @ [p])"

definition init_program :: "env \<Rightarrow> nat \<Rightarrow> proc \<Rightarrow> unit result" where
  "init_program e k st =
     (if \<not> malloc_ok e k then die ''Pointer is NULL.'' st
      else Return () (st\<lparr>programs := store_program k
             \<lparr>argv = Some [], argc = 0, pid = -1, fd_in = -1, fd_out = -1\<rparr> (programs st)\<rparr>))"

definition free_programs :: "nat \<Rightarrow> proc \<Rightarrow> proc" where
  "free_programs num_programs st =
     st\<lparr>programs := map (\<lambda>p. p\<lparr>argv := None\<rparr>) (take num_programs (programs st))
                        @ drop num_programs (programs st)\<rparr>"

subsection \<open>\<open>parse_command_line\<close>\<close>

text \<open>
  The inner loop: from \<open>cur_arg\<close>, the arguments up to the next \<open>--\<close> or the end. It
  returns the new \<open>cur_arg\<close> and the arguments it stored.
\<close>

function collect_args :: "string list \<Rightarrow> nat \<Rightarrow> string list \<Rightarrow> nat \<times> string list" where
  "collect_args av cur_arg acc =
     (if cur_arg < length av \<and> av ! cur_arg \<noteq> ''--''
      then collect_args av (Suc cur_arg) (acc @ [av ! cur_arg])
      else (cur_arg, acc))"
  by pat_completeness auto
termination
  by (relation "measure (\<lambda>(av, cur_arg, acc). length av - cur_arg)") auto

declare collect_args.simps [simp del]

lemma collect_args_ge: "cur_arg \<le> fst (collect_args av cur_arg acc)"
proof (induction av cur_arg acc rule: collect_args.induct)
  case (1 av cur_arg acc)
  show ?case
  proof (cases "cur_arg < length av \<and> av ! cur_arg \<noteq> ''--''")
    case True
    with 1 have "Suc cur_arg \<le> fst (collect_args av (Suc cur_arg) (acc @ [av ! cur_arg]))"
      by blast
    with True show ?thesis
      by (subst collect_args.simps) simp
  next
    case False
    then show ?thesis
      by (subst collect_args.simps) auto
  qed
qed

function parse_loop :: "env \<Rightarrow> nat \<Rightarrow> string list \<Rightarrow> nat \<Rightarrow> nat \<Rightarrow> proc \<Rightarrow> nat result" where
  "parse_loop e max_num_progs av cur_arg prog_count st =
     (if cur_arg < length av then
        if prog_count = max_num_progs then die ''Too many programs.'' st
        else
          seq (init_program e prog_count st) (\<lambda>_ st1.
            (case collect_args av cur_arg [] of (cur_arg', as) \<Rightarrow>
               (let st2 = st1\<lparr>programs := (programs st1)
                            [prog_count := (programs st1 ! prog_count)
                               \<lparr>argv := Some as, argc := int (length as)\<rparr>]\<rparr>
                in if as = [] then die ''Empty program.'' st2
                   else if Suc cur_arg' = length av then die ''Last program is empty.'' st2
                   else parse_loop e max_num_progs av (Suc cur_arg') (Suc prog_count) st2)))
      else Return prog_count st)"
  by pat_completeness auto
termination
proof (relation "measure (\<lambda>(e, max_num_progs, av, cur_arg, prog_count, st). length av - cur_arg)",
    goal_cases)
  case 1
  show ?case by simp
next
  case (2 e max_num_progs av cur_arg prog_count st x st1 cur_arg' as st2)
  from 2(3) have "cur_arg' = fst (collect_args av cur_arg [])"
    by (metis fst_conv)
  then have "cur_arg \<le> cur_arg'"
    by (simp only: collect_args_ge)
  with 2(1) show ?case by simp
qed

declare parse_loop.simps [simp del]

definition parse_command_line :: "env \<Rightarrow> nat \<Rightarrow> string list \<Rightarrow> proc \<Rightarrow> nat result" where
  "parse_command_line e max_num_progs av st = parse_loop e max_num_progs av 1 0 st"

subsection \<open>\<open>main\<close>\<close>

text \<open>What \<open>%s\<close> prints for \<open>programs[i].argv[0]\<close>.\<close>

definition argv0 :: "Program \<Rightarrow> string" where
  "argv0 p = (case argv p of Some (f # as) \<Rightarrow> f | _ \<Rightarrow> ''(null)'')"

definition print_line :: "event \<Rightarrow> proc \<Rightarrow> proc" where
  "print_line ev st = st\<lparr>stderr_log := stderr_log st @ [ev]\<rparr>"

function spawn_children :: "env \<Rightarrow> nat \<Rightarrow> nat \<Rightarrow> proc \<Rightarrow> unit result" where
  "spawn_children e num_programs i st =
     (if i < num_programs then
        seq (start_program e num_programs i
               (print_line (Starting i (argv0 (programs st ! i))) st)) (\<lambda>_ st1.
        spawn_children e num_programs (Suc i) st1)
      else Return () st)"
  by pat_completeness auto
termination
  by (relation "measure (\<lambda>(e, num_programs, i, st). num_programs - i)") auto

declare spawn_children.simps [simp del]

function wait_children :: "env \<Rightarrow> nat \<Rightarrow> nat \<Rightarrow> proc \<Rightarrow> unit result" where
  "wait_children e num_programs i st =
     (if i < num_programs then
        (let st1 = print_line (Waiting i (argv0 (programs st ! i))) st in
         case wait_on_program e (programs st1 ! i) of
           None \<Rightarrow> Hang st1
         | Some status \<Rightarrow>
             wait_children e num_programs (Suc i)
               (print_line (ExitedWith i (argv0 (programs st1 ! i)) status) st1))
      else Return () st)"
  by pat_completeness auto
termination
  by (relation "measure (\<lambda>(e, num_programs, i, st). num_programs - i)") auto

declare wait_children.simps [simp del]

text \<open>
  The process starts with the descriptor table it inherited, no pipe of its own, nothing
  printed and no entry of \<open>programs\<close> initialised. \<open>av\<close> is the whole argument vector,
  \<open>av ! 0\<close> the name of the orchestrator itself.
\<close>

definition initial_proc :: "fdtable \<Rightarrow> proc" where
  "initial_proc t = \<lparr>programs = [], fdt = t, npipes = 0, stderr_log = []\<rparr>"

definition main :: "env \<Rightarrow> string list \<Rightarrow> fdtable \<Rightarrow> int result" where
  "main e av t =
     (if length av \<le> 1
      then die ''Specify at least one program to run. Multiple programs are separated by --''
             (initial_proc t)
      else
        seq (parse_command_line e MAX_NUM_PROGRAMS av (initial_proc t)) (\<lambda>num_programs st1.
        seq (prepare_pipes e num_programs st1) (\<lambda>_ st2.
        seq (spawn_children e num_programs 0 st2) (\<lambda>_ st3.
        seq (wait_children e num_programs 0 st3) (\<lambda>_ st4.
        Return 0 (print_line EverythingGood (free_programs num_programs st4)))))))"

section \<open>Notions used to state the properties\<close>

text \<open>
  A command line is well formed when it is a list of groups separated by \<open>--\<close>, each
  group non-empty and free of \<open>--\<close>. \<open>join_groups\<close> writes the groups with a
  delimiter between two of them, \<open>closed_groups\<close> with a delimiter after each.
\<close>

definition good_group :: "string list \<Rightarrow> bool" where
  "good_group g = (g \<noteq> [] \<and> ''--'' \<notin> set g)"

fun join_groups :: "string list list \<Rightarrow> string list" where
  "join_groups [] = []"
| "join_groups [g] = g"
| "join_groups (g # h # gs) = g @ ''--'' # join_groups (h # gs)"

fun closed_groups :: "string list list \<Rightarrow> string list" where
  "closed_groups [] = []"
| "closed_groups (g # gs) = g @ ''--'' # closed_groups gs"

text \<open>The entry of \<open>programs\<close> the parser leaves for a group.\<close>

definition parsed_program :: "string list \<Rightarrow> Program" where
  "parsed_program g = \<lparr>argv = Some g, argc = int (length g), pid = -1, fd_in = -1, fd_out = -1\<rparr>"

text \<open>
  The first \<open>k\<close> rounds of the loop of \<open>main\<close> that starts the stages.
\<close>

fun launch_first :: "env \<Rightarrow> nat \<Rightarrow> nat \<Rightarrow> proc \<Rightarrow> unit result" where
  "launch_first e num_programs 0 st = Return () st"
| "launch_first e num_programs (Suc k) st =
     seq (launch_first e num_programs k st) (\<lambda>_ st1.
       start_program e num_programs k
         (print_line (Starting k (argv0 (programs st1 ! k))) st1))"

text \<open>
  The wiring of a pipeline of \<open>n\<close> stages, for a process that started with the
  descriptors \<open>m0\<close> and \<open>k\<close> pipes, once the pipes \<open>0 .. hi - 1\<close> exist and the stages
  below \<open>lo\<close> have been started: stage \<open>j\<close> holds the read end of pipe \<open>j - 1\<close> in
  \<open>fd_in\<close> and the write end of pipe \<open>j\<close> in \<open>fd_out\<close>, where these pipes exist and the
  stage has not been started, and \<open>-1\<close> otherwise; these descriptors were free in \<open>m0\<close>,
  and every other descriptor is as in \<open>m0\<close>.
\<close>

definition has_in :: "nat \<Rightarrow> nat \<Rightarrow> nat \<Rightarrow> bool" where
  "has_in lo hi j = (lo \<le> j \<and> 0 < j \<and> j \<le> hi)"

definition has_out :: "nat \<Rightarrow> nat \<Rightarrow> nat \<Rightarrow> bool" where
  "has_out lo hi j = (lo \<le> j \<and> j < hi)"

definition wired :: "(int \<Rightarrow> ofile option) \<Rightarrow> nat \<Rightarrow> nat \<Rightarrow> nat \<Rightarrow> nat \<Rightarrow> proc \<Rightarrow> bool" where
  "wired m0 k n lo hi st =
     (length (programs st) = n \<and> npipes st = k + hi \<and>
      (\<forall>j<n. has_in lo hi j \<longrightarrow>
         fd_lookup (fdt st) (fd_in (programs st ! j)) = Some (PipeRead (k + j - 1)) \<and>
         m0 (fd_in (programs st ! j)) = None) \<and>
      (\<forall>j<n. \<not> has_in lo hi j \<longrightarrow> fd_in (programs st ! j) = -1) \<and>
      (\<forall>j<n. has_out lo hi j \<longrightarrow>
         fd_lookup (fdt st) (fd_out (programs st ! j)) = Some (PipeWrite (k + j)) \<and>
         m0 (fd_out (programs st ! j)) = None) \<and>
      (\<forall>j<n. \<not> has_out lo hi j \<longrightarrow> fd_out (programs st ! j) = -1) \<and>
      (\<forall>fd. fd_lookup (fdt st) fd \<noteq> m0 fd \<longrightarrow>
         (\<exists>j<n. has_in lo hi j \<and> fd = fd_in (programs st ! j) \<or>
                has_out lo hi j \<and> fd = fd_out (programs st ! j))))"

text \<open>
  What the child of stage \<open>cur\<close> is to have done to its descriptors when it calls
  \<open>execvp\<close>, from the table \<open>t0\<close> it had after \<open>fork\<close>: descriptor 0 made a copy of the
  stage's \<open>fd_in\<close> (but for the first stage), then descriptor 1 a copy of the stage's
  \<open>fd_out\<close> (but for the last stage), then every descriptor recorded in a stage from
  \<open>cur\<close> on closed.
\<close>

definition stage_fds :: "nat \<Rightarrow> nat \<Rightarrow> Program list \<Rightarrow> int list" where
  "stage_fds n cur ps = concat (map (\<lambda>p. [fd_in p, fd_out p]) (drop cur (take n ps)))"

definition child_table ::
  "nat \<Rightarrow> nat \<Rightarrow> Program list \<Rightarrow> (int \<Rightarrow> ofile option) \<Rightarrow> int \<Rightarrow> ofile option" where
  "child_table n cur ps t0 =
     (let t1 = (if 0 < cur then t0(0 := t0 (fd_in (ps ! cur))) else t0);
          t2 = (if Suc cur < n then t1(1 := t1 (fd_out (ps ! cur))) else t1)
      in (\<lambda>fd. if fd \<in> set (stage_fds n cur ps) then None else t2 fd))"

text \<open>The exit-code reports among the printed lines: stage and reported value.\<close>

fun exit_reports :: "event list \<Rightarrow> (nat \<times> int) list" where
  "exit_reports [] = []"
| "exit_reports (ExitedWith i name status # evs) = (i, status) # exit_reports evs"
| "exit_reports (ev # evs) = exit_reports evs"

section \<open>Properties\<close>

subsection \<open>The status word\<close>

lemma exit_mask_eq: "(0xff00 :: 32 word) = push_bit 8 (mask 8)"
  by (simp add: mask_eq_exp_minus_1 push_bit_eq_mult)

lemma exit_bits_eq: "drop_bit 8 ((s :: 32 word) AND 0xff00) = take_bit 8 (drop_bit 8 s)"
  unfolding exit_mask_eq
  by (rule bit_word_eqI) (auto simp add: bit_simps)

lemma sint_low_byte: "sint (take_bit 8 (w :: 32 word)) = uint (take_bit 8 w)"
  by (simp add: sint_uint unsigned_take_bit_eq signed_take_bit_eq_if_positive bit_simps)

lemma WEXITSTATUS_eq: "WEXITSTATUS s = uint s div 256 mod 256"
proof -
  have "WEXITSTATUS s = take_bit 8 (drop_bit 8 (uint s))"
    unfolding WEXITSTATUS_def exit_bits_eq sint_low_byte
    by (simp add: unsigned_take_bit_eq unsigned_drop_bit_eq bintr_uint)
  then show ?thesis
    by (simp add: drop_bit_eq_div take_bit_eq_mod)
qed

lemma WEXITSTATUS_range: "0 \<le> WEXITSTATUS s \<and> WEXITSTATUS s \<le> 255"
  by (simp add: WEXITSTATUS_eq)

lemma uint_raw_status_Exited: "uint (raw_status (Exited c)) = int (c mod 256) * 256"
proof -
  have "c mod 256 * 256 < 2 ^ 32"
    by (rule less_trans [of _ "256 * 256"]) simp_all
  then have t: "take_bit 32 (c mod 256 * 256) = c mod 256 * 256"
    by (simp only: take_bit_nat_eq_self)
  have "raw_status (Exited c) = of_nat (c mod 256 * 256)"
    by (simp add: raw_status.simps push_bit_eq_mult)
  then have "uint (raw_status (Exited c)) = int (take_bit LENGTH(32) (c mod 256 * 256))"
    by (simp only: unsigned_of_nat)
  with t show ?thesis by simp
qed

lemma uint_raw_status_Killed:
  assumes "sig < 128"
  shows "uint (raw_status (Killed sig core)) < 256"
proof -
  from assms have "take_bit 32 sig = sig"
    by (simp add: take_bit_nat_eq_self)
  then have u: "uint (of_nat sig :: 32 word) = int sig"
    by (simp add: unsigned_of_nat)
  have "int sig OR 128 < 2 ^ 8"
    using assms by (intro OR_upper) simp_all
  then show ?thesis
    using u assms by (simp add: raw_status.simps unsigned_or_eq)
qed

lemma WEXITSTATUS_Exited: "WEXITSTATUS (raw_status (Exited c)) = int (c mod 256)"
  by (simp add: WEXITSTATUS_eq uint_raw_status_Exited)

lemma WEXITSTATUS_Killed: "sig < 128 \<Longrightarrow> WEXITSTATUS (raw_status (Killed sig core)) = 0"
  using uint_raw_status_Killed [of sig core] by (simp add: WEXITSTATUS_eq)

subsection \<open>Waiting on a stage\<close>

text \<open>
  C1, as the claim states it, fails. A stage killed by signal 9 leaves the status word 9:
  it is not a normal exit and its terminating signal is 9, yet \<open>wait_on_program\<close>
  reports 0, the very value it reports for a stage that called \<open>exit(0)\<close>.
\<close>

theorem wait_on_killed_stage_counterexample:
  "wait_on_program
     \<lparr>malloc_ok = (\<lambda>k. True), pipe_ok = (\<lambda>k. True), fork_ret = (\<lambda>k. 7),
      exec_ok = (\<lambda>f. True), waitpid_ret = (\<lambda>p. Some (p, raw_status (Killed 9 False)))\<rparr>
     \<lparr>argv = Some [''sleep'', ''100''], argc = 2, pid = 7, fd_in = -1, fd_out = -1\<rparr> = Some 0
   \<and> wait_on_program
     \<lparr>malloc_ok = (\<lambda>k. True), pipe_ok = (\<lambda>k. True), fork_ret = (\<lambda>k. 7),
      exec_ok = (\<lambda>f. True), waitpid_ret = (\<lambda>p. Some (p, raw_status (Exited 0)))\<rparr>
     \<lparr>argv = Some [''sleep'', ''100''], argc = 2, pid = 7, fd_in = -1, fd_out = -1\<rparr> = Some 0
   \<and> \<not> WIFEXITED (raw_status (Killed 9 False))
   \<and> WTERMSIG (raw_status (Killed 9 False)) = 9"
  by (simp add: wait_on_program_def raw_status.simps WEXITSTATUS_def WIFEXITED_def WTERMSIG_def)

text \<open>
  C1, amended: for a launched stage (process id not negative) on which \<open>waitpid\<close>
  succeeds, \<open>wait_on_program\<close> returns the exit code \<open>K\<close> (the low eight bits of the
  value given to \<open>exit\<close>) when the stage exited normally, and 0 when the stage was killed
  by a signal: the result is bits 8 to 15 of the status word whatever the kind of
  termination, and the signal number is not reported.
\<close>

theorem wait_on_program_exit_code:
  assumes "0 \<le> pid prog"
    and "waitpid_ret e (pid prog) = Some (pid prog, raw_status t)"
    and "\<forall>sig core. t = Killed sig core \<longrightarrow> sig < 128"
  shows "wait_on_program e prog =
           Some (case t of Exited c \<Rightarrow> int (c mod 256) | Killed sig core \<Rightarrow> 0)"
proof (cases t)
  case (Exited c)
  with assms(1,2) show ?thesis
    by (simp add: wait_on_program_def WEXITSTATUS_Exited)
next
  case (Killed sig core)
  with assms(3) have "sig < 128"
    by simp
  with Killed assms(1,2) show ?thesis
    by (simp add: wait_on_program_def WEXITSTATUS_Killed)
qed

theorem wait_on_program_exit_code_witness:
  "wait_on_program
     \<lparr>malloc_ok = (\<lambda>k. True), pipe_ok = (\<lambda>k. True), fork_ret = (\<lambda>k. 7),
      exec_ok = (\<lambda>f. True), waitpid_ret = (\<lambda>p. Some (p, raw_status (Exited 3)))\<rparr>
     \<lparr>argv = Some [''false''], argc = 1, pid = 7, fd_in = -1, fd_out = -1\<rparr> = Some 3
   \<and> wait_on_program
     \<lparr>malloc_ok = (\<lambda>k. True), pipe_ok = (\<lambda>k. True), fork_ret = (\<lambda>k. 7),
      exec_ok = (\<lambda>f. True), waitpid_ret = (\<lambda>p. Some (p, raw_status (Killed 15 True)))\<rparr>
     \<lparr>argv = Some [''false''], argc = 1, pid = 7, fd_in = -1, fd_out = -1\<rparr> = Some 0"
  using wait_on_program_exit_code
      [of "\<lparr>argv = Some [''false''], argc = 1, pid = 7, fd_in = -1, fd_out = -1\<rparr>"
          "\<lparr>malloc_ok = (\<lambda>k. True), pipe_ok = (\<lambda>k. True), fork_ret = (\<lambda>k. 7),
            exec_ok = (\<lambda>f. True), waitpid_ret = (\<lambda>p. Some (p, raw_status (Exited 3)))\<rparr>"
          "Exited 3"]
    wait_on_program_exit_code
      [of "\<lparr>argv = Some [''false''], argc = 1, pid = 7, fd_in = -1, fd_out = -1\<rparr>"
          "\<lparr>malloc_ok = (\<lambda>k. True), pipe_ok = (\<lambda>k. True), fork_ret = (\<lambda>k. 7),
            exec_ok = (\<lambda>f. True), waitpid_ret = (\<lambda>p. Some (p, raw_status (Killed 15 True)))\<rparr>"
          "Killed 15 True"]
  by simp

text \<open>
  C9, as the claim states it, fails: a stage that was never launched (process id \<open>-1\<close>)
  and a launched stage on which \<open>waitpid\<close> fails give the same result \<open>-1\<close>.
\<close>

theorem wait_failures_same_counterexample:
  "wait_on_program
     \<lparr>malloc_ok = (\<lambda>k. True), pipe_ok = (\<lambda>k. True), fork_ret = (\<lambda>k. 7),
      exec_ok = (\<lambda>f. True), waitpid_ret = (\<lambda>p. Some (-1, 0))\<rparr>
     \<lparr>argv = Some [''ls''], argc = 1, pid = -1, fd_in = -1, fd_out = -1\<rparr>
   = wait_on_program
     \<lparr>malloc_ok = (\<lambda>k. True), pipe_ok = (\<lambda>k. True), fork_ret = (\<lambda>k. 7),
      exec_ok = (\<lambda>f. True), waitpid_ret = (\<lambda>p. Some (-1, 0))\<rparr>
     \<lparr>argv = Some [''ls''], argc = 1, pid = 7, fd_in = -1, fd_out = -1\<rparr>"
  by (simp add: wait_on_program_def)

text \<open>
  C9, amended: \<open>wait_on_program\<close> returns \<open>-1\<close> when the stage was never launched
  (negative process id) and also when \<open>waitpid\<close> does not return the process id of the
  stage; the two failures give the same value. That value differs from every result of a
  successful wait, which lies between 0 and 255.
\<close>

theorem wait_on_program_failure:
  "(pid prog < 0 \<longrightarrow> wait_on_program e prog = Some (-1)) \<and>
   (0 \<le> pid prog \<and> waitpid_ret e (pid prog) = Some (rv, s) \<and> rv \<noteq> pid prog
      \<longrightarrow> wait_on_program e prog = Some (-1)) \<and>
   (0 \<le> pid prog \<and> waitpid_ret e (pid prog) = Some (pid prog, s)
      \<longrightarrow> wait_on_program e prog = Some (WEXITSTATUS s)
          \<and> 0 \<le> WEXITSTATUS s \<and> WEXITSTATUS s \<le> 255)"
  using WEXITSTATUS_range [of s] by (simp add: wait_on_program_def)

theorem wait_on_program_failure_witness:
  "wait_on_program
     \<lparr>malloc_ok = (\<lambda>k. True), pipe_ok = (\<lambda>k. True), fork_ret = (\<lambda>k. 7),
      exec_ok = (\<lambda>f. True), waitpid_ret = (\<lambda>p. Some (-1, 0))\<rparr>
     \<lparr>argv = Some [''ls''], argc = 1, pid = -1, fd_in = -1, fd_out = -1\<rparr> = Some (-1)
   \<and> wait_on_program
     \<lparr>malloc_ok = (\<lambda>k. True), pipe_ok = (\<lambda>k. True), fork_ret = (\<lambda>k. 7),
      exec_ok = (\<lambda>f. True), waitpid_ret = (\<lambda>p. Some (-1, 0))\<rparr>
     \<lparr>argv = Some [''ls''], argc = 1, pid = 7, fd_in = -1, fd_out = -1\<rparr> = Some (-1)
   \<and> wait_on_program
     \<lparr>malloc_ok = (\<lambda>k. True), pipe_ok = (\<lambda>k. True), fork_ret = (\<lambda>k. 7),
      exec_ok = (\<lambda>f. True), waitpid_ret = (\<lambda>p. Some (p, 512))\<rparr>
     \<lparr>argv = Some [''ls''], argc = 1, pid = 7, fd_in = -1, fd_out = -1\<rparr> = Some 2"
  using wait_on_program_failure
      [of "\<lparr>argv = Some [''ls''], argc = 1, pid = -1, fd_in = -1, fd_out = -1\<rparr>"
          "\<lparr>malloc_ok = (\<lambda>k. True), pipe_ok = (\<lambda>k. True), fork_ret = (\<lambda>k. 7),
            exec_ok = (\<lambda>f. True), waitpid_ret = (\<lambda>p. Some (-1, 0))\<rparr>" "-1" 0]
    wait_on_program_failure
      [of "\<lparr>argv = Some [''ls''], argc = 1, pid = 7, fd_in = -1, fd_out = -1\<rparr>"
          "\<lparr>malloc_ok = (\<lambda>k. True), pipe_ok = (\<lambda>k. True), fork_ret = (\<lambda>k. 7),
            exec_ok = (\<lambda>f. True), waitpid_ret = (\<lambda>p. Some (-1, 0))\<rparr>" "-1" 0]
    wait_on_program_failure
      [of "\<lparr>argv = Some [''ls''], argc = 1, pid = 7, fd_in = -1, fd_out = -1\<rparr>"
          "\<lparr>malloc_ok = (\<lambda>k. True), pipe_ok = (\<lambda>k. True), fork_ret = (\<lambda>k. 7),
            exec_ok = (\<lambda>f. True), waitpid_ret = (\<lambda>p. Some (p, 512))\<rparr>" 7 512]
  by (simp add: WEXITSTATUS_def)


subsection \<open>Parsing\<close>

lemma collect_args_takeWhile:
  "collect_args av cur_arg acc =
     (cur_arg + length (takeWhile (\<lambda>a. a \<noteq> ''--'') (drop cur_arg av)),
      acc @ takeWhile (\<lambda>a. a \<noteq> ''--'') (drop cur_arg av))"
proof (induction av cur_arg acc rule: collect_args.induct)
  case (1 av cur_arg acc)
  show ?case
  proof (cases "cur_arg < length av")
    case False
    then show ?thesis
      by (subst collect_args.simps) simp
  next
    case True
    then have d: "drop cur_arg av = av ! cur_arg # drop (Suc cur_arg) av"
      by (simp add: Cons_nth_drop_Suc)
    show ?thesis
    proof (cases "av ! cur_arg = ''--''")
      case True
      with d show ?thesis
        by (subst collect_args.simps) simp
    next
      case False
      with True 1 have "collect_args av (Suc cur_arg) (acc @ [av ! cur_arg]) =
          (Suc cur_arg + length (takeWhile (\<lambda>a. a \<noteq> ''--'') (drop (Suc cur_arg) av)),
           (acc @ [av ! cur_arg]) @ takeWhile (\<lambda>a. a \<noteq> ''--'') (drop (Suc cur_arg) av))"
        by blast
      with True False d show ?thesis
        by (subst collect_args.simps) simp
    qed
  qed
qed

lemma takeWhile_good_end: "good_group g \<Longrightarrow> takeWhile (\<lambda>a. a \<noteq> ''--'') g = g"
  by (auto simp add: good_group_def takeWhile_eq_all_conv)

lemma takeWhile_no_delim:
  "''--'' \<notin> set g \<Longrightarrow> takeWhile (\<lambda>a. a \<noteq> ''--'') (g @ ''--'' # r) = g"
  by (induction g) auto

lemma takeWhile_good_delim:
  "good_group g \<Longrightarrow> takeWhile (\<lambda>a. a \<noteq> ''--'') (g @ ''--'' # r) = g"
  by (simp add: good_group_def takeWhile_no_delim)

lemma takeWhile_delim: "takeWhile (\<lambda>a. a \<noteq> ''--'') (''--'' # r) = []"
  by simp

lemma parse_loop_step:
  assumes "cur_arg < length av" and "k = length (programs st)" and "k \<noteq> max_num_progs"
    and "malloc_ok e k"
  shows "parse_loop e max_num_progs av cur_arg k st =
     (let as = takeWhile (\<lambda>a. a \<noteq> ''--'') (drop cur_arg av);
          st2 = st\<lparr>programs := programs st @ [parsed_program as]\<rparr>
      in if as = [] then Die ''Empty program.'' st2
         else if Suc (cur_arg + length as) = length av then Die ''Last program is empty.'' st2
         else parse_loop e max_num_progs av (Suc (cur_arg + length as)) (Suc k) st2)"
  using assms
  by (subst parse_loop.simps)
    (simp add: collect_args_takeWhile init_program_def store_program_def parsed_program_def
      die_def Let_def)

lemma parse_loop_done:
  "length av \<le> cur_arg \<Longrightarrow> parse_loop e max_num_progs av cur_arg k st = Return k st"
  by (subst parse_loop.simps) simp

lemma parse_loop_too_many:
  "cur_arg < length av \<Longrightarrow>
   parse_loop e max_num_progs av cur_arg max_num_progs st = Die ''Too many programs.'' st"
  by (subst parse_loop.simps) (simp add: die_def)

lemma parse_loop_closed_groups:
  assumes "\<forall>g\<in>set gs. good_group g"
    and "drop cur_arg av = closed_groups gs @ rest" and "rest \<noteq> []"
    and "k = length (programs st)" and "k + length gs \<le> max_num_progs"
    and "\<forall>i. malloc_ok e i"
  shows "parse_loop e max_num_progs av cur_arg k st =
         parse_loop e max_num_progs av (cur_arg + length (closed_groups gs)) (k + length gs)
           (st\<lparr>programs := programs st @ map parsed_program gs\<rparr>)"
  using assms
proof (induction gs arbitrary: cur_arg k st)
  case Nil
  then show ?case by simp
next
  case (Cons g gs)
  from Cons.prems have g: "good_group g" and d: "drop cur_arg av = g @ ''--'' # closed_groups gs @ rest"
    by simp_all
  from d have "drop cur_arg av \<noteq> []"
    by simp
  then have lt: "cur_arg < length av"
    by simp
  have "length (drop cur_arg av) = length (g @ ''--'' # closed_groups gs @ rest)"
    by (simp only: d)
  with lt have len: "length av = cur_arg + length g + Suc (length (closed_groups gs @ rest))"
    by simp
  have tw: "takeWhile (\<lambda>a. a \<noteq> ''--'') (drop cur_arg av) = g"
    using g d by (simp add: takeWhile_good_delim)
  have d2: "drop (Suc (cur_arg + length g)) av = closed_groups gs @ rest"
  proof -
    have "drop (Suc (length g)) (drop cur_arg av) = closed_groups gs @ rest"
      by (simp add: d)
    then show ?thesis by (simp add: add.commute)
  qed
  have step: "parse_loop e max_num_progs av cur_arg k st =
      parse_loop e max_num_progs av (Suc (cur_arg + length g)) (Suc k)
        (st\<lparr>programs := programs st @ [parsed_program g]\<rparr>)"
  proof -
    from Cons.prems have k: "k = length (programs st)" and ne: "k \<noteq> max_num_progs"
      and m: "malloc_ok e k"
      by simp_all
    from Cons.prems(3) len have "Suc (cur_arg + length g) \<noteq> length av"
      by simp
    moreover from g have "g \<noteq> []"
      by (simp add: good_group_def)
    ultimately show ?thesis
      by (simp add: parse_loop_step [OF lt k ne m] tw)
  qed
  have "parse_loop e max_num_progs av (Suc (cur_arg + length g)) (Suc k)
        (st\<lparr>programs := programs st @ [parsed_program g]\<rparr>) =
      parse_loop e max_num_progs av (Suc (cur_arg + length g) + length (closed_groups gs))
        (Suc k + length gs)
        (st\<lparr>programs := programs st @ [parsed_program g], 
            programs := programs (st\<lparr>programs := programs st @ [parsed_program g]\<rparr>) @ map parsed_program gs\<rparr>)"
    using Cons.prems d2 by (intro Cons.IH) simp_all
  with step show ?case by (simp add: add.assoc)
qed

lemma parse_iter_last:
  assumes "good_group g" and "drop cur_arg av = g" and "k = length (programs st)"
    and "k \<noteq> max_num_progs" and "malloc_ok e k"
  shows "parse_loop e max_num_progs av cur_arg k st =
         Return (Suc k) (st\<lparr>programs := programs st @ [parsed_program g]\<rparr>)"
proof -
  from assms(1) have ne: "g \<noteq> []" and tw: "takeWhile (\<lambda>a. a \<noteq> ''--'') g = g"
    by (simp_all add: good_group_def takeWhile_good_end)
  from ne assms(2) have "drop cur_arg av \<noteq> []"
    by simp
  then have lt: "cur_arg < length av"
    by simp
  have "length (drop cur_arg av) = length g"
    by (simp only: assms(2))
  with lt have len: "length av = cur_arg + length g"
    by simp
  show ?thesis
    by (simp add: parse_loop_step [OF lt assms(3,4,5)] assms(2) tw ne len parse_loop_done)
qed

lemma parse_iter_trailing:
  assumes "good_group g" and "drop cur_arg av = g @ [''--'']" and "k = length (programs st)"
    and "k \<noteq> max_num_progs" and "malloc_ok e k"
  shows "parse_loop e max_num_progs av cur_arg k st =
         Die ''Last program is empty.'' (st\<lparr>programs := programs st @ [parsed_program g]\<rparr>)"
proof -
  from assms(1) have ne: "g \<noteq> []"
    and tw: "takeWhile (\<lambda>a. a \<noteq> ''--'') (g @ [''--'']) = g"
    by (simp_all add: good_group_def takeWhile_good_delim)
  from assms(2) have "drop cur_arg av \<noteq> []"
    by simp
  then have lt: "cur_arg < length av"
    by simp
  have "length (drop cur_arg av) = length (g @ [''--''])"
    by (simp only: assms(2))
  with lt have len: "length av = Suc (cur_arg + length g)"
    by simp
  show ?thesis
    by (simp add: parse_loop_step [OF lt assms(3,4,5)] assms(2) tw ne len)
qed

lemma parse_iter_empty:
  assumes "drop cur_arg av = ''--'' # r" and "k = length (programs st)"
    and "k \<noteq> max_num_progs" and "malloc_ok e k"
  shows "parse_loop e max_num_progs av cur_arg k st =
         Die ''Empty program.'' (st\<lparr>programs := programs st @ [parsed_program []]\<rparr>)"
proof -
  from assms(1) have "drop cur_arg av \<noteq> []"
    by simp
  then have lt: "cur_arg < length av"
    by simp
  show ?thesis
    by (simp add: parse_loop_step [OF lt assms(2,3,4)] assms(1))
qed

lemma join_groups_Cons: "gs \<noteq> [] \<Longrightarrow> join_groups (g # gs) = g @ ''--'' # join_groups gs"
  by (cases gs) simp_all

lemma join_groups_append:
  "hs \<noteq> [] \<Longrightarrow> join_groups (gs @ hs) = closed_groups gs @ join_groups hs"
  by (induction gs) (simp_all add: join_groups_Cons)

lemma closed_groups_append: "closed_groups (gs @ hs) = closed_groups gs @ closed_groups hs"
  by (induction gs) simp_all

lemma join_groups_nonempty:
  "gs \<noteq> [] \<Longrightarrow> \<forall>g\<in>set gs. good_group g \<Longrightarrow> join_groups gs \<noteq> []"
  by (induction gs rule: join_groups.induct) (simp_all add: good_group_def)

lemma drop_add_prefix: "drop cur_arg av = xs @ ys \<Longrightarrow> drop (cur_arg + length xs) av = ys"
proof -
  assume a: "drop cur_arg av = xs @ ys"
  have "drop (cur_arg + length xs) av = drop (length xs) (drop cur_arg av)"
    by (simp add: add.commute)
  with a show ?thesis by simp
qed

text \<open>The four ways a scan of groups can end.\<close>

lemma parse_loop_well_formed:
  assumes "\<forall>g\<in>set gs. good_group g" and "drop cur_arg av = join_groups gs"
    and "k = length (programs st)" and "k + length gs \<le> max_num_progs"
    and "\<forall>i. malloc_ok e i"
  shows "parse_loop e max_num_progs av cur_arg k st =
         Return (k + length gs) (st\<lparr>programs := programs st @ map parsed_program gs\<rparr>)"
proof (cases gs rule: rev_cases)
  case Nil
  with assms(2) have "length av \<le> cur_arg"
    by simp
  with Nil show ?thesis
    by (simp add: parse_loop_done)
next
  case (snoc bs l)
  with assms(1) have good: "\<forall>g\<in>set bs. good_group g" and gl: "good_group l"
    by simp_all
  from gl have lne: "l \<noteq> []"
    by (simp add: good_group_def)
  from snoc assms(2) have d: "drop cur_arg av = closed_groups bs @ l"
    by (simp add: join_groups_append)
  from snoc assms(4) have le: "k + length bs \<le> max_num_progs"
    and ne: "k + length bs \<noteq> max_num_progs"
    by simp_all
  have "parse_loop e max_num_progs av cur_arg k st =
        parse_loop e max_num_progs av (cur_arg + length (closed_groups bs))
          (k + length bs) (st\<lparr>programs := programs st @ map parsed_program bs\<rparr>)"
    using good d lne assms(3) le assms(5) by (rule parse_loop_closed_groups)
  also have "\<dots> = Return (Suc (k + length bs))
      (st\<lparr>programs := programs st @ map parsed_program bs,
          programs := programs (st\<lparr>programs := programs st @ map parsed_program bs\<rparr>)
             @ [parsed_program l]\<rparr>)"
    using gl drop_add_prefix [OF d] _ ne
  proof (rule parse_iter_last)
    show "k + length bs = length (programs (st\<lparr>programs := programs st @ map parsed_program bs\<rparr>))"
      using assms(3) by simp
    show "malloc_ok e (k + length bs)"
      using assms(5) by simp
  qed
  also have "\<dots> = Return (k + length gs) (st\<lparr>programs := programs st @ map parsed_program gs\<rparr>)"
    using snoc by simp
  finally show ?thesis .
qed

lemma parse_loop_trailing:
  assumes "\<forall>g\<in>set gs. good_group g" and "gs \<noteq> []"
    and "drop cur_arg av = closed_groups gs"
    and "k = length (programs st)" and "k + length gs \<le> max_num_progs"
    and "\<forall>i. malloc_ok e i"
  shows "parse_loop e max_num_progs av cur_arg k st =
         Die ''Last program is empty.'' (st\<lparr>programs := programs st @ map parsed_program gs\<rparr>)"
proof (cases gs rule: rev_cases)
  case Nil
  with assms(2) show ?thesis by simp
next
  case (snoc bs l)
  with assms(1) have good: "\<forall>g\<in>set bs. good_group g" and gl: "good_group l"
    by simp_all
  from snoc assms(3) have d: "drop cur_arg av = closed_groups bs @ (l @ [''--''])"
    by (simp add: closed_groups_append)
  have rest: "l @ [''--''] \<noteq> []"
    by simp
  from snoc assms(5) have le: "k + length bs \<le> max_num_progs"
    and ne: "k + length bs \<noteq> max_num_progs"
    by simp_all
  have "parse_loop e max_num_progs av cur_arg k st =
        parse_loop e max_num_progs av (cur_arg + length (closed_groups bs))
          (k + length bs) (st\<lparr>programs := programs st @ map parsed_program bs\<rparr>)"
    using good d rest assms(4) le assms(6) by (rule parse_loop_closed_groups)
  also have "\<dots> = Die ''Last program is empty.''
      (st\<lparr>programs := programs st @ map parsed_program bs,
          programs := programs (st\<lparr>programs := programs st @ map parsed_program bs\<rparr>)
             @ [parsed_program l]\<rparr>)"
    using gl drop_add_prefix [OF d] _ ne
  proof (rule parse_iter_trailing)
    show "k + length bs = length (programs (st\<lparr>programs := programs st @ map parsed_program bs\<rparr>))"
      using assms(4) by simp
    show "malloc_ok e (k + length bs)"
      using assms(6) by simp
  qed
  also have "\<dots> = Die ''Last program is empty.''
      (st\<lparr>programs := programs st @ map parsed_program gs\<rparr>)"
    using snoc by simp
  finally show ?thesis .
qed

lemma parse_loop_empty_group:
  assumes "\<forall>g\<in>set gs. good_group g"
    and "drop cur_arg av = closed_groups gs @ ''--'' # r"
    and "k = length (programs st)" and "k + length gs < max_num_progs"
    and "\<forall>i. malloc_ok e i"
  shows "parse_loop e max_num_progs av cur_arg k st =
         Die ''Empty program.''
           (st\<lparr>programs := programs st @ map parsed_program gs @ [parsed_program []]\<rparr>)"
proof -
  have rest: "''--'' # r \<noteq> []"
    by simp
  from assms(4) have le: "k + length gs \<le> max_num_progs"
    and ne: "k + length gs \<noteq> max_num_progs"
    by simp_all
  have "parse_loop e max_num_progs av cur_arg k st =
        parse_loop e max_num_progs av (cur_arg + length (closed_groups gs))
          (k + length gs) (st\<lparr>programs := programs st @ map parsed_program gs\<rparr>)"
    using assms(1,2) rest assms(3) le assms(5) by (rule parse_loop_closed_groups)
  also have "\<dots> = Die ''Empty program.''
      (st\<lparr>programs := programs st @ map parsed_program gs,
          programs := programs (st\<lparr>programs := programs st @ map parsed_program gs\<rparr>)
             @ [parsed_program []]\<rparr>)"
    using drop_add_prefix [OF assms(2)] _ ne
  proof (rule parse_iter_empty)
    show "k + length gs = length (programs (st\<lparr>programs := programs st @ map parsed_program gs\<rparr>))"
      using assms(3) by simp
    show "malloc_ok e (k + length gs)"
      using assms(5) by simp
  qed
  finally show ?thesis by simp
qed

lemma parse_loop_full:
  assumes "\<forall>g\<in>set gs. good_group g"
    and "drop cur_arg av = closed_groups gs @ r" and "r \<noteq> []"
    and "k = length (programs st)" and "k + length gs = max_num_progs"
    and "\<forall>i. malloc_ok e i"
  shows "parse_loop e max_num_progs av cur_arg k st =
         Die ''Too many programs.'' (st\<lparr>programs := programs st @ map parsed_program gs\<rparr>)"
proof -
  from assms(5) have le: "k + length gs \<le> max_num_progs"
    by simp
  from drop_add_prefix [OF assms(2)] assms(3)
  have "drop (cur_arg + length (closed_groups gs)) av \<noteq> []"
    by simp
  then have lt: "cur_arg + length (closed_groups gs) < length av"
    by simp
  have "parse_loop e max_num_progs av cur_arg k st =
        parse_loop e max_num_progs av (cur_arg + length (closed_groups gs))
          (k + length gs) (st\<lparr>programs := programs st @ map parsed_program gs\<rparr>)"
    using assms(1,2,3,4) le assms(6) by (rule parse_loop_closed_groups)
  also have "\<dots> = Die ''Too many programs.''
      (st\<lparr>programs := programs st @ map parsed_program gs\<rparr>)"
    using lt by (simp add: assms(5) parse_loop_too_many)
  finally show ?thesis .
qed

lemma parse_loop_overflow:
  assumes "\<forall>g\<in>set gs. good_group g" and "drop cur_arg av = join_groups gs"
    and "k = length (programs st)" and "max_num_progs < k + length gs"
    and "k \<le> max_num_progs" and "\<forall>i. malloc_ok e i"
  shows "parse_loop e max_num_progs av cur_arg k st =
         Die ''Too many programs.''
           (st\<lparr>programs := programs st @ map parsed_program (take (max_num_progs - k) gs)\<rparr>)"
proof -
  let ?n = "max_num_progs - k"
  from assms(4,5) have dne: "drop ?n gs \<noteq> []"
    by simp
  have good_take: "\<forall>g\<in>set (take ?n gs). good_group g"
    and good_drop: "\<forall>g\<in>set (drop ?n gs). good_group g"
    using assms(1) by (auto dest: in_set_takeD in_set_dropD)
  have "join_groups (take ?n gs @ drop ?n gs) =
        closed_groups (take ?n gs) @ join_groups (drop ?n gs)"
    using dne by (rule join_groups_append)
  with assms(2) have d: "drop cur_arg av = closed_groups (take ?n gs) @ join_groups (drop ?n gs)"
    by simp
  have r: "join_groups (drop ?n gs) \<noteq> []"
    using dne good_drop by (rule join_groups_nonempty)
  from assms(4,5) have len: "k + length (take ?n gs) = max_num_progs"
    by simp
  show ?thesis
    using good_take d r assms(3) len assms(6) by (rule parse_loop_full)
qed

lemma main_parse_die:
  "1 < length av \<Longrightarrow> parse_command_line e MAX_NUM_PROGRAMS av (initial_proc t) = Die s st \<Longrightarrow>
   main e av t = Die s st"
  by (simp add: main_def)

lemma programs_initial_proc: "programs (initial_proc t) = []"
  by (simp add: initial_proc_def)

text \<open>
  C10: the configured maximum is 10. On a well-formed command line (groups that are not
  empty and hold no \<open>--\<close>, a delimiter between two of them) the parser succeeds with
  the groups as programs when there are at most 10 groups, and otherwise fails with
  \<open>Too many programs.\<close> when the 11th group begins: exactly the first 10 groups are
  stored at that moment.
\<close>

theorem parse_at_most_ten_programs:
  assumes "\<forall>g\<in>set gs. good_group g" and "\<forall>i. malloc_ok e i"
  shows "parse_command_line e MAX_NUM_PROGRAMS (a0 # join_groups gs) (initial_proc t) =
     (if length gs \<le> 10
      then Return (length gs) ((initial_proc t)\<lparr>programs := map parsed_program gs\<rparr>)
      else Die ''Too many programs.''
             ((initial_proc t)\<lparr>programs := map parsed_program (take 10 gs)\<rparr>))"
proof (cases "length gs \<le> 10")
  case True
  have "parse_loop e MAX_NUM_PROGRAMS (a0 # join_groups gs) 1 0 (initial_proc t) =
        Return (0 + length gs)
          ((initial_proc t)\<lparr>programs := programs (initial_proc t) @ map parsed_program gs\<rparr>)"
    using assms(1) _ _ _ assms(2)
  proof (rule parse_loop_well_formed)
    show "drop 1 (a0 # join_groups gs) = join_groups gs"
      by simp
    show "0 = length (programs (initial_proc t))"
      by (simp add: programs_initial_proc)
    show "0 + length gs \<le> MAX_NUM_PROGRAMS"
      using True by (simp add: MAX_NUM_PROGRAMS_def)
  qed
  with True show ?thesis
    by (simp add: parse_command_line_def programs_initial_proc)
next
  case False
  have "parse_loop e MAX_NUM_PROGRAMS (a0 # join_groups gs) 1 0 (initial_proc t) =
        Die ''Too many programs.''
          ((initial_proc t)\<lparr>programs := programs (initial_proc t)
              @ map parsed_program (take (MAX_NUM_PROGRAMS - 0) gs)\<rparr>)"
    using assms(1) _ _ _ _ assms(2)
  proof (rule parse_loop_overflow)
    show "drop 1 (a0 # join_groups gs) = join_groups gs"
      by simp
    show "0 = length (programs (initial_proc t))"
      by (simp add: programs_initial_proc)
    show "MAX_NUM_PROGRAMS < 0 + length gs"
      using False by (simp add: MAX_NUM_PROGRAMS_def)
    show "0 \<le> MAX_NUM_PROGRAMS"
      by simp
  qed
  with False show ?thesis
    by (simp add: parse_command_line_def programs_initial_proc MAX_NUM_PROGRAMS_def)
qed

theorem parse_at_most_ten_programs_witness:
  "parse_command_line (\<lparr>malloc_ok = (\<lambda>k. True), pipe_ok = (\<lambda>k. True), fork_ret = (\<lambda>k. 7),
      exec_ok = (\<lambda>f. True), waitpid_ret = (\<lambda>p. Some (p, 0))\<rparr>) MAX_NUM_PROGRAMS
     [''runpipeline'', ''echo'', ''hi'', ''--'', ''wc''] (initial_proc []) =
   Return 2 \<lparr>programs =
       [\<lparr>argv = Some [''echo'', ''hi''], argc = 2, pid = -1, fd_in = -1, fd_out = -1\<rparr>,
        \<lparr>argv = Some [''wc''], argc = 1, pid = -1, fd_in = -1, fd_out = -1\<rparr>],
      fdt = [], npipes = 0, stderr_log = []\<rparr>
   \<and> parse_command_line (\<lparr>malloc_ok = (\<lambda>k. True), pipe_ok = (\<lambda>k. True), fork_ret = (\<lambda>k. 7),
      exec_ok = (\<lambda>f. True), waitpid_ret = (\<lambda>p. Some (p, 0))\<rparr>) MAX_NUM_PROGRAMS
     [''runpipeline'', ''a'', ''--'', ''b'', ''--'', ''c'', ''--'', ''d'', ''--'', ''e'', ''--'',
      ''f'', ''--'', ''g'', ''--'', ''h'', ''--'', ''i'', ''--'', ''j'', ''--'', ''k'']
     (initial_proc []) =
   Die ''Too many programs.'' \<lparr>programs =
       map (\<lambda>a. \<lparr>argv = Some [a], argc = 1, pid = -1, fd_in = -1, fd_out = -1\<rparr>)
         [''a'', ''b'', ''c'', ''d'', ''e'', ''f'', ''g'', ''h'', ''i'', ''j''],
      fdt = [], npipes = 0, stderr_log = []\<rparr>"
  using parse_at_most_ten_programs
      [where gs = "[[''echo'', ''hi''], [''wc'']]" and e = "(\<lparr>malloc_ok = (\<lambda>k. True), pipe_ok = (\<lambda>k. True), fork_ret = (\<lambda>k. 7),
      exec_ok = (\<lambda>f. True), waitpid_ret = (\<lambda>p. Some (p, 0))\<rparr>)" and ?a0.0 = "''runpipeline''" and t = "[]"]
    parse_at_most_ten_programs
      [where gs = "[[''a''], [''b''], [''c''], [''d''], [''e''], [''f''], [''g''], [''h''], [''i''],
                    [''j''], [''k'']]" and e = "(\<lparr>malloc_ok = (\<lambda>k. True), pipe_ok = (\<lambda>k. True), fork_ret = (\<lambda>k. 7),
      exec_ok = (\<lambda>f. True), waitpid_ret = (\<lambda>p. Some (p, 0))\<rparr>)" and ?a0.0 = "''runpipeline''" and t = "[]"]
  by (simp add: good_group_def parsed_program_def initial_proc_def)

text \<open>
  C5, amended: the parser scans the groups from left to right and stops at the first
  problem it meets. After \<open>n\<close> well-formed groups, each closed by a delimiter:
  the end of the command line gives \<open>Last program is empty.\<close> (the trailing
  delimiter follows a non-empty group); a further delimiter gives \<open>Empty program.\<close>
  when \<open>n\<close> is below the maximum, also when that delimiter is the final token; any
  further token gives \<open>Too many programs.\<close> when \<open>n\<close> is the maximum. In each
  case the whole run of \<open>main\<close> ends there, with the descriptor table it started with,
  no pipe created, nothing printed and no process id recorded. A well-formed command
  line of at most the maximum number of groups gives the groups, in order.
\<close>

theorem parse_reports_first_error:
  assumes "\<forall>g\<in>set gs. good_group g" and "\<forall>i. malloc_ok e i"
  shows "(length gs \<le> MAX_NUM_PROGRAMS \<longrightarrow>
            parse_command_line e MAX_NUM_PROGRAMS (a0 # join_groups gs) (initial_proc t) =
            Return (length gs) ((initial_proc t)\<lparr>programs := map parsed_program gs\<rparr>))
       \<and> (gs \<noteq> [] \<and> length gs \<le> MAX_NUM_PROGRAMS \<longrightarrow>
            main e (a0 # closed_groups gs) t =
            Die ''Last program is empty.''
              ((initial_proc t)\<lparr>programs := map parsed_program gs\<rparr>))
       \<and> (length gs < MAX_NUM_PROGRAMS \<longrightarrow>
            main e (a0 # closed_groups gs @ ''--'' # r) t =
            Die ''Empty program.''
              ((initial_proc t)\<lparr>programs := map parsed_program gs @ [parsed_program []]\<rparr>))
       \<and> (length gs = MAX_NUM_PROGRAMS \<and> r \<noteq> [] \<longrightarrow>
            main e (a0 # closed_groups gs @ r) t =
            Die ''Too many programs.''
              ((initial_proc t)\<lparr>programs := map parsed_program gs\<rparr>))"
proof (intro conjI impI)
  assume "length gs \<le> MAX_NUM_PROGRAMS"
  then have "parse_loop e MAX_NUM_PROGRAMS (a0 # join_groups gs) 1 0 (initial_proc t) =
        Return (0 + length gs)
          ((initial_proc t)\<lparr>programs := programs (initial_proc t) @ map parsed_program gs\<rparr>)"
    using assms by (intro parse_loop_well_formed) (simp_all add: programs_initial_proc)
  then show "parse_command_line e MAX_NUM_PROGRAMS (a0 # join_groups gs) (initial_proc t) =
            Return (length gs) ((initial_proc t)\<lparr>programs := map parsed_program gs\<rparr>)"
    by (simp add: parse_command_line_def programs_initial_proc)
next
  assume a: "gs \<noteq> [] \<and> length gs \<le> MAX_NUM_PROGRAMS"
  then have "closed_groups gs \<noteq> []"
    by (cases gs) simp_all
  then have len: "1 < length (a0 # closed_groups gs)"
    by (cases "closed_groups gs") simp_all
  have "parse_loop e MAX_NUM_PROGRAMS (a0 # closed_groups gs) 1 0 (initial_proc t) =
        Die ''Last program is empty.''
          ((initial_proc t)\<lparr>programs := programs (initial_proc t) @ map parsed_program gs\<rparr>)"
    using assms a by (intro parse_loop_trailing) (simp_all add: programs_initial_proc)
  then have "parse_command_line e MAX_NUM_PROGRAMS (a0 # closed_groups gs) (initial_proc t) =
      Die ''Last program is empty.'' ((initial_proc t)\<lparr>programs := map parsed_program gs\<rparr>)"
    by (simp add: parse_command_line_def programs_initial_proc)
  with len show "main e (a0 # closed_groups gs) t =
      Die ''Last program is empty.'' ((initial_proc t)\<lparr>programs := map parsed_program gs\<rparr>)"
    by (rule main_parse_die)
next
  assume a: "length gs < MAX_NUM_PROGRAMS"
  have len: "1 < length (a0 # closed_groups gs @ ''--'' # r)"
    by simp
  have "parse_loop e MAX_NUM_PROGRAMS (a0 # closed_groups gs @ ''--'' # r) 1 0 (initial_proc t) =
        Die ''Empty program.''
          ((initial_proc t)\<lparr>programs := programs (initial_proc t)
             @ map parsed_program gs @ [parsed_program []]\<rparr>)"
    using assms a by (intro parse_loop_empty_group) (simp_all add: programs_initial_proc)
  then have "parse_command_line e MAX_NUM_PROGRAMS (a0 # closed_groups gs @ ''--'' # r)
       (initial_proc t) =
      Die ''Empty program.''
        ((initial_proc t)\<lparr>programs := map parsed_program gs @ [parsed_program []]\<rparr>)"
    by (simp add: parse_command_line_def programs_initial_proc)
  with len show "main e (a0 # closed_groups gs @ ''--'' # r) t =
      Die ''Empty program.''
        ((initial_proc t)\<lparr>programs := map parsed_program gs @ [parsed_program []]\<rparr>)"
    by (rule main_parse_die)
next
  assume "length gs = MAX_NUM_PROGRAMS \<and> r \<noteq> []"
  then have a: "length gs = MAX_NUM_PROGRAMS" and rne: "r \<noteq> []"
    by blast+
  from rne have len: "1 < length (a0 # closed_groups gs @ r)"
    by (cases r) simp_all
  have "parse_loop e MAX_NUM_PROGRAMS (a0 # closed_groups gs @ r) 1 0 (initial_proc t) =
        Die ''Too many programs.''
          ((initial_proc t)\<lparr>programs := programs (initial_proc t) @ map parsed_program gs\<rparr>)"
    using assms(1) _ rne _ _ assms(2)
  proof (rule parse_loop_full)
    show "drop 1 (a0 # closed_groups gs @ r) = closed_groups gs @ r"
      by simp
    show "0 = length (programs (initial_proc t))"
      by (simp add: programs_initial_proc)
    show "0 + length gs = MAX_NUM_PROGRAMS"
      using a by simp
  qed
  then have "parse_command_line e MAX_NUM_PROGRAMS (a0 # closed_groups gs @ r) (initial_proc t) =
      Die ''Too many programs.'' ((initial_proc t)\<lparr>programs := map parsed_program gs\<rparr>)"
    by (simp add: parse_command_line_def programs_initial_proc)
  with len show "main e (a0 # closed_groups gs @ r) t =
      Die ''Too many programs.'' ((initial_proc t)\<lparr>programs := map parsed_program gs\<rparr>)"
    by (rule main_parse_die)
qed

theorem parse_reports_first_error_witness:
  "parse_command_line (\<lparr>malloc_ok = (\<lambda>k. True), pipe_ok = (\<lambda>k. True), fork_ret = (\<lambda>k. 7),
      exec_ok = (\<lambda>f. True), waitpid_ret = (\<lambda>p. Some (p, 0))\<rparr>) MAX_NUM_PROGRAMS
     [''runpipeline'', ''echo'', ''hi'', ''--'', ''wc''] (initial_proc [Some (Inherited 0)]) =
   Return 2 \<lparr>programs =
       [\<lparr>argv = Some [''echo'', ''hi''], argc = 2, pid = -1, fd_in = -1, fd_out = -1\<rparr>,
        \<lparr>argv = Some [''wc''], argc = 1, pid = -1, fd_in = -1, fd_out = -1\<rparr>],
      fdt = [Some (Inherited 0)], npipes = 0, stderr_log = []\<rparr>
   \<and> main (\<lparr>malloc_ok = (\<lambda>k. True), pipe_ok = (\<lambda>k. True), fork_ret = (\<lambda>k. 7),
      exec_ok = (\<lambda>f. True), waitpid_ret = (\<lambda>p. Some (p, 0))\<rparr>) [''runpipeline'', ''echo'', ''hi'', ''--'', ''wc'', ''--''] [Some (Inherited 0)] =
   Die ''Last program is empty.'' \<lparr>programs =
       [\<lparr>argv = Some [''echo'', ''hi''], argc = 2, pid = -1, fd_in = -1, fd_out = -1\<rparr>,
        \<lparr>argv = Some [''wc''], argc = 1, pid = -1, fd_in = -1, fd_out = -1\<rparr>],
      fdt = [Some (Inherited 0)], npipes = 0, stderr_log = []\<rparr>
   \<and> main (\<lparr>malloc_ok = (\<lambda>k. True), pipe_ok = (\<lambda>k. True), fork_ret = (\<lambda>k. 7),
      exec_ok = (\<lambda>f. True), waitpid_ret = (\<lambda>p. Some (p, 0))\<rparr>) [''runpipeline'', ''echo'', ''hi'', ''--'', ''--'', ''wc''] [Some (Inherited 0)] =
   Die ''Empty program.'' \<lparr>programs =
       [\<lparr>argv = Some [''echo'', ''hi''], argc = 2, pid = -1, fd_in = -1, fd_out = -1\<rparr>,
        \<lparr>argv = Some [], argc = 0, pid = -1, fd_in = -1, fd_out = -1\<rparr>],
      fdt = [Some (Inherited 0)], npipes = 0, stderr_log = []\<rparr>
   \<and> main (\<lparr>malloc_ok = (\<lambda>k. True), pipe_ok = (\<lambda>k. True), fork_ret = (\<lambda>k. 7),
      exec_ok = (\<lambda>f. True), waitpid_ret = (\<lambda>p. Some (p, 0))\<rparr>)
     [''runpipeline'', ''a'', ''--'', ''b'', ''--'', ''c'', ''--'', ''d'', ''--'', ''e'', ''--'',
      ''f'', ''--'', ''g'', ''--'', ''h'', ''--'', ''i'', ''--'', ''j'', ''--'', ''--'']
     [Some (Inherited 0)] =
   Die ''Too many programs.'' \<lparr>programs =
       map (\<lambda>a. \<lparr>argv = Some [a], argc = 1, pid = -1, fd_in = -1, fd_out = -1\<rparr>)
         [''a'', ''b'', ''c'', ''d'', ''e'', ''f'', ''g'', ''h'', ''i'', ''j''],
      fdt = [Some (Inherited 0)], npipes = 0, stderr_log = []\<rparr>"
  using parse_reports_first_error
      [where gs = "[[''echo'', ''hi''], [''wc'']]" and e = "(\<lparr>malloc_ok = (\<lambda>k. True), pipe_ok = (\<lambda>k. True), fork_ret = (\<lambda>k. 7),
      exec_ok = (\<lambda>f. True), waitpid_ret = (\<lambda>p. Some (p, 0))\<rparr>)" and ?a0.0 = "''runpipeline''"
         and t = "[Some (Inherited 0)]" and r = "[''wc'']"]
    parse_reports_first_error
      [where gs = "[[''echo'', ''hi'']]" and e = "(\<lparr>malloc_ok = (\<lambda>k. True), pipe_ok = (\<lambda>k. True), fork_ret = (\<lambda>k. 7),
      exec_ok = (\<lambda>f. True), waitpid_ret = (\<lambda>p. Some (p, 0))\<rparr>)" and ?a0.0 = "''runpipeline''"
         and t = "[Some (Inherited 0)]" and r = "[''wc'']"]
    parse_reports_first_error
      [where gs = "[[''a''], [''b''], [''c''], [''d''], [''e''], [''f''], [''g''], [''h''], [''i''],
                    [''j'']]" and e = "(\<lparr>malloc_ok = (\<lambda>k. True), pipe_ok = (\<lambda>k. True), fork_ret = (\<lambda>k. 7),
      exec_ok = (\<lambda>f. True), waitpid_ret = (\<lambda>p. Some (p, 0))\<rparr>)" and ?a0.0 = "''runpipeline''"
         and t = "[Some (Inherited 0)]" and r = "[''--'']"]
  by (simp add: good_group_def parsed_program_def initial_proc_def MAX_NUM_PROGRAMS_def)

text \<open>
  C5, as the claim states it, fails: in \<open>runpipeline --\<close> and in
  \<open>runpipeline ls -- --\<close> the delimiter is the final token with nothing after it, yet
  the error is \<open>Empty program.\<close>, not \<open>Last program is empty.\<close>
\<close>

theorem trailing_delimiter_counterexample:
  "last [''runpipeline'', ''--''] = ''--''
   \<and> main (\<lparr>malloc_ok = (\<lambda>k. True), pipe_ok = (\<lambda>k. True), fork_ret = (\<lambda>k. 7),
      exec_ok = (\<lambda>f. True), waitpid_ret = (\<lambda>p. Some (p, 0))\<rparr>) [''runpipeline'', ''--''] [] =
     Die ''Empty program.''
       \<lparr>programs = [\<lparr>argv = Some [], argc = 0, pid = -1, fd_in = -1, fd_out = -1\<rparr>],
        fdt = [], npipes = 0, stderr_log = []\<rparr>
   \<and> main (\<lparr>malloc_ok = (\<lambda>k. True), pipe_ok = (\<lambda>k. True), fork_ret = (\<lambda>k. 7),
      exec_ok = (\<lambda>f. True), waitpid_ret = (\<lambda>p. Some (p, 0))\<rparr>) [''runpipeline'', ''ls'', ''--'', ''--''] [] =
     Die ''Empty program.''
       \<lparr>programs = [\<lparr>argv = Some [''ls''], argc = 1, pid = -1, fd_in = -1, fd_out = -1\<rparr>,
                    \<lparr>argv = Some [], argc = 0, pid = -1, fd_in = -1, fd_out = -1\<rparr>],
        fdt = [], npipes = 0, stderr_log = []\<rparr>"
  by (simp add: main_def parse_command_line_def parse_loop.simps collect_args.simps
       init_program_def store_program_def die_def initial_proc_def MAX_NUM_PROGRAMS_def)

subsection \<open>The kernel\<close>

lemma fd_lookup_neg: "fd < 0 \<Longrightarrow> fd_lookup t fd = None"
  by (simp add: fd_lookup_def)

lemma fd_lookup_Cons: "fd_lookup (x # t) fd = (if fd = 0 then x else fd_lookup t (fd - 1))"
  by (auto simp add: fd_lookup_def nth_Cons' nat_diff_distrib nat_less_iff)

lemma alloc_fd_spec:
  "alloc_fd t f = (n, t') \<Longrightarrow>
   0 \<le> n \<and> fd_lookup t n = None \<and> fd_lookup t' = (fd_lookup t)(n := Some f)"
proof (induction t f arbitrary: n t' rule: alloc_fd.induct)
  case (1 f)
  then show ?case
    by (auto simp add: fd_lookup_def fun_eq_iff)
next
  case (2 t f)
  then show ?case
    by (auto simp add: fd_lookup_Cons fun_eq_iff)
next
  case (3 g t f)
  obtain m u where a: "alloc_fd t f = (m, u)"
    by (cases "alloc_fd t f")
  with 3 have ih: "0 \<le> m \<and> fd_lookup t m = None \<and> fd_lookup u = (fd_lookup t)(m := Some f)"
    by blast
  from 3(2) a have n: "n = m + 1" and t': "t' = Some g # u"
    by simp_all
  show ?case
    using ih by (auto simp add: n t' fd_lookup_Cons fun_eq_iff)
qed

lemma sys_close_open:
  assumes "fd_lookup (fdt st) fd \<noteq> None"
  shows "\<exists>st'. sys_close fd st = (0, st') \<and> fd_lookup (fdt st') = (fd_lookup (fdt st))(fd := None)
           \<and> programs st' = programs st \<and> npipes st' = npipes st \<and> stderr_log st' = stderr_log st"
proof -
  from assms have r: "0 \<le> fd" "nat fd < length (fdt st)"
    by (auto simp add: fd_lookup_def split: if_splits)
  have "fd_lookup ((fdt st)[nat fd := None]) = (fd_lookup (fdt st))(fd := None)"
    using r by (auto simp add: fd_lookup_def fun_eq_iff nth_list_update)
  with assms show ?thesis
    by (simp add: sys_close_def)
qed

lemma checked_close_open:
  assumes "fd_lookup (fdt st) fd \<noteq> None"
  shows "\<exists>st'. checked_close fd st = Return () st' \<and>
           fd_lookup (fdt st') = (fd_lookup (fdt st))(fd := None)
           \<and> programs st' = programs st \<and> npipes st' = npipes st \<and> stderr_log st' = stderr_log st"
  using sys_close_open [OF assms] by (auto simp add: checked_close_def check_return_value_def)

lemma fd_lookup_extend:
  "fd_lookup ((t @ replicate k None)[n := Some f]) = (if n < length t + k then (fd_lookup t)(int n := Some f) else fd_lookup t)"
  by (auto simp add: fd_lookup_def fun_eq_iff nth_list_update nth_append)

lemma sys_dup2_open:
  assumes "fd_lookup (fdt st) oldfd = Some f" and "0 \<le> newfd"
  shows "\<exists>st'. sys_dup2 oldfd newfd st = (newfd, st') \<and>
           fd_lookup (fdt st') = (fd_lookup (fdt st))(newfd := Some f)
           \<and> programs st' = programs st \<and> npipes st' = npipes st \<and> stderr_log st' = stderr_log st"
proof (cases "oldfd = newfd")
  case True
  with assms show ?thesis
    by (auto simp add: sys_dup2_def fun_eq_iff)
next
  case False
  have "nat newfd < length (fdt st) + (Suc (nat newfd) - length (fdt st))"
    by simp
  then have "fd_lookup ((fdt st @ replicate (Suc (nat newfd) - length (fdt st)) None)[nat newfd := Some f])
      = (fd_lookup (fdt st))(int (nat newfd) := Some f)"
    by (simp only: fd_lookup_extend if_True)
  with assms False show ?thesis
    by (simp add: sys_dup2_def)
qed

lemma checked_dup2_open:
  assumes "fd_lookup (fdt st) oldfd = Some f" and "0 \<le> newfd"
  shows "\<exists>st'. checked_dup2 oldfd newfd st = Return () st' \<and>
           fd_lookup (fdt st') = (fd_lookup (fdt st))(newfd := Some f)
           \<and> programs st' = programs st \<and> npipes st' = npipes st \<and> stderr_log st' = stderr_log st"
  using sys_dup2_open [OF assms] assms(2)
  by (auto simp add: checked_dup2_def check_return_value_def)

lemma sys_pipe_ok:
  assumes "pipe_ok e (npipes st)"
  shows "\<exists>r w st'. sys_pipe e st = ((0, r, w), st') \<and> r \<noteq> w \<and> 0 \<le> r \<and> 0 \<le> w \<and>
           fd_lookup (fdt st) r = None \<and> fd_lookup (fdt st) w = None \<and>
           fd_lookup (fdt st') = (fd_lookup (fdt st))
               (r := Some (PipeRead (npipes st)), w := Some (PipeWrite (npipes st))) \<and>
           npipes st' = Suc (npipes st) \<and> programs st' = programs st \<and>
           stderr_log st' = stderr_log st"
proof -
  obtain r t1 where a1: "alloc_fd (fdt st) (PipeRead (npipes st)) = (r, t1)"
    by (cases "alloc_fd (fdt st) (PipeRead (npipes st))")
  obtain w t2 where a2: "alloc_fd t1 (PipeWrite (npipes st)) = (w, t2)"
    by (cases "alloc_fd t1 (PipeWrite (npipes st))")
  from alloc_fd_spec [OF a1] have s1: "0 \<le> r" "fd_lookup (fdt st) r = None"
    "fd_lookup t1 = (fd_lookup (fdt st))(r := Some (PipeRead (npipes st)))"
    by simp_all
  from alloc_fd_spec [OF a2] have s2: "0 \<le> w" "fd_lookup t1 w = None"
    "fd_lookup t2 = (fd_lookup t1)(w := Some (PipeWrite (npipes st)))"
    by simp_all
  from s1(3) s2(2) have rw: "r \<noteq> w" and wfree: "fd_lookup (fdt st) w = None"
    by (auto split: if_splits)
  show ?thesis
    using assms a1 a2 s1 s2 rw wfree by (simp add: sys_pipe_def)
qed

lemma sys_pipe_fails:
  "\<not> pipe_ok e (npipes st) \<Longrightarrow> sys_pipe e st = ((-1, 0, 0), st)"
  by (simp add: sys_pipe_def)

subsection \<open>Building the pipes\<close>

lemma wired_free:
  assumes "wired m0 k n lo hi st" and "fd_lookup (fdt st) fd = None"
  shows "m0 fd = None"
proof (rule ccontr)
  assume "m0 fd \<noteq> None"
  with assms(2) have "fd_lookup (fdt st) fd \<noteq> m0 fd"
    by auto
  with assms(1) obtain j where "j < n"
    and "has_in lo hi j \<and> fd = fd_in (programs st ! j) \<or>
         has_out lo hi j \<and> fd = fd_out (programs st ! j)"
    unfolding wired_def by blast
  with assms(1) have "fd_lookup (fdt st) fd \<noteq> None"
    unfolding wired_def by auto
  with assms(2) show False
    by simp
qed

lemma map_update_frame: "f y = f (xs ! i) \<Longrightarrow> map f (xs[i := y]) = map f xs"
  by (cases "i < length xs") (simp_all add: map_update list_update_same_conv list_update_beyond)

lemma prepare_step:
  assumes w: "wired m0 k n 0 hi st" and lt: "Suc hi < n" and ok: "pipe_ok e (k + hi)"
  shows "\<exists>r wfd st1 st2. sys_pipe e st = ((0, r, wfd), st1) \<and>
           st2 = st1\<lparr>programs := ((programs st1)[hi := (programs st1 ! hi)\<lparr>fd_out := wfd\<rparr>])
                [Suc hi := (((programs st1)[hi := (programs st1 ! hi)\<lparr>fd_out := wfd\<rparr>]) ! Suc hi)
                   \<lparr>fd_in := r\<rparr>]\<rparr> \<and>
           wired m0 k n 0 (Suc hi) st2 \<and>
           map argv (programs st2) = map argv (programs st) \<and>
           map pid (programs st2) = map pid (programs st) \<and>
           stderr_log st2 = stderr_log st"
proof -
  from w have np: "npipes st = k + hi" and len: "length (programs st) = n"
    by (simp_all add: wired_def)
  from sys_pipe_ok [of e st] ok np
  obtain r wfd st1 where p: "sys_pipe e st = ((0, r, wfd), st1)" and rw: "r \<noteq> wfd"
    and rfree: "fd_lookup (fdt st) r = None" and wfree: "fd_lookup (fdt st) wfd = None"
    and tbl: "fd_lookup (fdt st1) = (fd_lookup (fdt st))
               (r := Some (PipeRead (k + hi)), wfd := Some (PipeWrite (k + hi)))"
    and np1: "npipes st1 = Suc (k + hi)" and ps1: "programs st1 = programs st"
    and log1: "stderr_log st1 = stderr_log st"
    by auto
  have m0r: "m0 r = None" and m0w: "m0 wfd = None"
    using wired_free [OF w rfree] wired_free [OF w wfree] by simp_all
  let ?ps = "programs st"
  define ps2 where "ps2 = (?ps[hi := (?ps ! hi)\<lparr>fd_out := wfd\<rparr>])
                [Suc hi := ((?ps[hi := (?ps ! hi)\<lparr>fd_out := wfd\<rparr>]) ! Suc hi)\<lparr>fd_in := r\<rparr>]"
  have len2: "length ps2 = n"
    using len by (simp add: ps2_def)
  have in2: "\<And>j. j < n \<Longrightarrow> fd_in (ps2 ! j) = (if j = Suc hi then r else fd_in (?ps ! j))"
    using len lt by (auto simp add: ps2_def nth_list_update)
  have out2: "\<And>j. j < n \<Longrightarrow> fd_out (ps2 ! j) = (if j = hi then wfd else fd_out (?ps ! j))"
    using len lt by (auto simp add: ps2_def nth_list_update)
  have c1: "\<forall>j<n. has_in 0 (Suc hi) j \<longrightarrow>
         fd_lookup (fdt st1) (fd_in (ps2 ! j)) = Some (PipeRead (k + j - 1)) \<and>
         m0 (fd_in (ps2 ! j)) = None"
  proof (intro allI impI)
    fix j assume j: "j < n" and h: "has_in 0 (Suc hi) j"
    show "fd_lookup (fdt st1) (fd_in (ps2 ! j)) = Some (PipeRead (k + j - 1)) \<and>
         m0 (fd_in (ps2 ! j)) = None"
    proof (cases "j = Suc hi")
      case True
      with j rw m0r show ?thesis
        by (simp add: in2 tbl)
    next
      case False
      with h have "has_in 0 hi j"
        by (auto simp add: has_in_def)
      with w j have o: "fd_lookup (fdt st) (fd_in (?ps ! j)) = Some (PipeRead (k + j - 1))"
        "m0 (fd_in (?ps ! j)) = None"
        by (simp_all add: wired_def)
      with rfree wfree have "fd_in (?ps ! j) \<noteq> r" "fd_in (?ps ! j) \<noteq> wfd"
        by auto
      with o False j show ?thesis
        by (simp add: in2 tbl)
    qed
  qed
  have c2: "\<forall>j<n. \<not> has_in 0 (Suc hi) j \<longrightarrow> fd_in (ps2 ! j) = -1"
  proof (intro allI impI)
    fix j assume j: "j < n" and h: "\<not> has_in 0 (Suc hi) j"
    then have "j \<noteq> Suc hi" "\<not> has_in 0 hi j"
      by (auto simp add: has_in_def)
    with w j show "fd_in (ps2 ! j) = -1"
      by (simp add: in2 wired_def)
  qed
  have c3: "\<forall>j<n. has_out 0 (Suc hi) j \<longrightarrow>
         fd_lookup (fdt st1) (fd_out (ps2 ! j)) = Some (PipeWrite (k + j)) \<and>
         m0 (fd_out (ps2 ! j)) = None"
  proof (intro allI impI)
    fix j assume j: "j < n" and h: "has_out 0 (Suc hi) j"
    show "fd_lookup (fdt st1) (fd_out (ps2 ! j)) = Some (PipeWrite (k + j)) \<and>
         m0 (fd_out (ps2 ! j)) = None"
    proof (cases "j = hi")
      case True
      with j rw m0w show ?thesis
        by (simp add: out2 tbl)
    next
      case False
      with h have "has_out 0 hi j"
        by (auto simp add: has_out_def)
      with w j have o: "fd_lookup (fdt st) (fd_out (?ps ! j)) = Some (PipeWrite (k + j))"
        "m0 (fd_out (?ps ! j)) = None"
        by (simp_all add: wired_def)
      with rfree wfree have "fd_out (?ps ! j) \<noteq> r" "fd_out (?ps ! j) \<noteq> wfd"
        by auto
      with o False j show ?thesis
        by (simp add: out2 tbl)
    qed
  qed
  have c4: "\<forall>j<n. \<not> has_out 0 (Suc hi) j \<longrightarrow> fd_out (ps2 ! j) = -1"
  proof (intro allI impI)
    fix j assume j: "j < n" and h: "\<not> has_out 0 (Suc hi) j"
    then have "j \<noteq> hi" "\<not> has_out 0 hi j"
      by (auto simp add: has_out_def)
    with w j show "fd_out (ps2 ! j) = -1"
      by (simp add: out2 wired_def)
  qed
  have c5: "\<forall>fd. fd_lookup (fdt st1) fd \<noteq> m0 fd \<longrightarrow>
         (\<exists>j<n. has_in 0 (Suc hi) j \<and> fd = fd_in (ps2 ! j) \<or>
                has_out 0 (Suc hi) j \<and> fd = fd_out (ps2 ! j))"
  proof (intro allI impI)
    fix fd assume d: "fd_lookup (fdt st1) fd \<noteq> m0 fd"
    show "\<exists>j<n. has_in 0 (Suc hi) j \<and> fd = fd_in (ps2 ! j) \<or>
                has_out 0 (Suc hi) j \<and> fd = fd_out (ps2 ! j)"
    proof (cases "fd = r \<or> fd = wfd")
      case True
      then show ?thesis
      proof
        assume "fd = r"
        with lt have "Suc hi < n \<and> has_in 0 (Suc hi) (Suc hi) \<and> fd = fd_in (ps2 ! Suc hi)"
          by (simp add: in2 has_in_def)
        then show ?thesis by blast
      next
        assume "fd = wfd"
        with lt have "hi < n \<and> has_out 0 (Suc hi) hi \<and> fd = fd_out (ps2 ! hi)"
          by (simp add: out2 has_out_def)
        then show ?thesis by blast
      qed
    next
      case False
      with d have "fd_lookup (fdt st) fd \<noteq> m0 fd"
        by (simp add: tbl)
      with w obtain j where j: "j < n"
        and o: "has_in 0 hi j \<and> fd = fd_in (?ps ! j) \<or> has_out 0 hi j \<and> fd = fd_out (?ps ! j)"
        unfolding wired_def by blast
      from o have "has_in 0 (Suc hi) j \<and> fd = fd_in (ps2 ! j) \<or>
                has_out 0 (Suc hi) j \<and> fd = fd_out (ps2 ! j)"
        using j by (auto simp add: in2 out2 has_in_def has_out_def)
      with j show ?thesis by blast
    qed
  qed
  have wd: "wired m0 k n 0 (Suc hi) (st1\<lparr>programs := ps2\<rparr>)"
    unfolding wired_def using len2 np1 c1 c2 c3 c4 c5 by simp
  have fr: "map argv ps2 = map argv ?ps" "map pid ps2 = map pid ?ps"
    by (simp_all add: ps2_def map_update_frame)
  from p ps1 wd fr log1 show ?thesis
    by (simp add: ps2_def)
qed

lemma wired_initial:
  assumes "\<forall>p\<in>set (programs st). fd_in p = -1 \<and> fd_out p = -1"
  shows "wired (fd_lookup (fdt st)) (npipes st) (length (programs st)) 0 0 st"
  using assms by (simp add: wired_def has_in_def has_out_def)

lemma prepare_pipes_loop_ok:
  assumes "wired m0 k n 0 hi st" and "hi < n"
    and "\<forall>j. hi \<le> j \<and> Suc j < n \<longrightarrow> pipe_ok e (k + j)"
  shows "\<exists>st'. prepare_pipes_loop e n (Suc hi) st = Return () st' \<and>
           wired m0 k n 0 (n - 1) st' \<and>
           map argv (programs st') = map argv (programs st) \<and>
           map pid (programs st') = map pid (programs st) \<and>
           stderr_log st' = stderr_log st"
  using assms
proof (induction "n - Suc hi" arbitrary: hi st)
  case 0
  then have "n - 1 = hi" and "\<not> Suc hi < n"
    by simp_all
  with 0 show ?case
    by (subst prepare_pipes_loop.simps) auto
next
  case (Suc d)
  then have lt: "Suc hi < n"
    by simp
  with Suc.prems have "pipe_ok e (k + hi)"
    by simp
  from prepare_step [OF Suc.prems(1) lt this]
  obtain r wfd st1 st2 where p: "sys_pipe e st = ((0, r, wfd), st1)"
    and st2: "st2 = st1\<lparr>programs := ((programs st1)[hi := (programs st1 ! hi)\<lparr>fd_out := wfd\<rparr>])
                [Suc hi := (((programs st1)[hi := (programs st1 ! hi)\<lparr>fd_out := wfd\<rparr>]) ! Suc hi)
                   \<lparr>fd_in := r\<rparr>]\<rparr>"
    and w2: "wired m0 k n 0 (Suc hi) st2"
    and fr: "map argv (programs st2) = map argv (programs st)"
      "map pid (programs st2) = map pid (programs st)" "stderr_log st2 = stderr_log st"
    by blast
  have step: "prepare_pipes_loop e n (Suc hi) st = prepare_pipes_loop e n (Suc (Suc hi)) st2"
    using lt p st2 by (subst prepare_pipes_loop.simps) (simp add: Let_def)
  from Suc.hyps(2) have d: "d = n - Suc (Suc hi)"
    by simp
  from Suc.prems(3) have ok: "\<forall>j. Suc hi \<le> j \<and> Suc j < n \<longrightarrow> pipe_ok e (k + j)"
    by simp
  from Suc.hyps(1) [OF d w2 lt ok] fr step show ?case
    by auto
qed

lemma prepare_pipes_loop_fails:
  assumes "wired m0 k n 0 hi st" and "hi \<le> f" and "Suc f < n"
    and "\<forall>j. hi \<le> j \<and> j < f \<longrightarrow> pipe_ok e (k + j)" and "\<not> pipe_ok e (k + f)"
  shows "\<exists>st'. prepare_pipes_loop e n (Suc hi) st = Die ''pipe() failed.'' st' \<and>
           wired m0 k n 0 f st' \<and>
           map argv (programs st') = map argv (programs st) \<and>
           map pid (programs st') = map pid (programs st) \<and>
           stderr_log st' = stderr_log st"
  using assms
proof (induction "f - hi" arbitrary: hi st)
  case 0
  then have hi: "hi = f"
    by simp
  from 0(2) have "npipes st = k + hi"
    by (simp add: wired_def)
  with 0 hi have "sys_pipe e st = ((-1, 0, 0), st)"
    by (simp add: sys_pipe_fails)
  with 0(2,4) hi show ?case
    by (subst prepare_pipes_loop.simps) (simp add: die_def)
next
  case (Suc d)
  then have lt: "Suc hi < n" and hf: "hi < f"
    by simp_all
  with Suc.prems have "pipe_ok e (k + hi)"
    by simp
  from prepare_step [OF Suc.prems(1) lt this]
  obtain r wfd st1 st2 where p: "sys_pipe e st = ((0, r, wfd), st1)"
    and st2: "st2 = st1\<lparr>programs := ((programs st1)[hi := (programs st1 ! hi)\<lparr>fd_out := wfd\<rparr>])
                [Suc hi := (((programs st1)[hi := (programs st1 ! hi)\<lparr>fd_out := wfd\<rparr>]) ! Suc hi)
                   \<lparr>fd_in := r\<rparr>]\<rparr>"
    and w2: "wired m0 k n 0 (Suc hi) st2"
    and fr: "map argv (programs st2) = map argv (programs st)"
      "map pid (programs st2) = map pid (programs st)" "stderr_log st2 = stderr_log st"
    by blast
  have step: "prepare_pipes_loop e n (Suc hi) st = prepare_pipes_loop e n (Suc (Suc hi)) st2"
    using lt p st2 by (subst prepare_pipes_loop.simps) (simp add: Let_def)
  from Suc.hyps(2) have d: "d = f - Suc hi"
    by simp
  from hf have le: "Suc hi \<le> f"
    by simp
  from Suc.prems(4) have ok: "\<forall>j. Suc hi \<le> j \<and> j < f \<longrightarrow> pipe_ok e (k + j)"
    by simp
  from Suc.hyps(1) [OF d w2 le Suc.prems(3) ok Suc.prems(5)] fr step show ?case
    by auto
qed

text \<open>
  C6: for \<open>n \<ge> 1\<close> parsed stages (both descriptor fields \<open>-1\<close>, as \<open>init_program\<close>
  leaves them) and a kernel that grants every pipe, \<open>prepare_pipes\<close> returns after creating
  exactly \<open>n - 1\<close> pipes. The write end of pipe \<open>i\<close> is \<open>fd_out\<close> of stage \<open>i\<close> and its read
  end is \<open>fd_in\<close> of stage \<open>i + 1\<close>, both descriptors that were free before; stage 0 has no
  \<open>fd_in\<close> and the last stage no \<open>fd_out\<close>; no other descriptor changes; and for one stage
  nothing changes at all.
\<close>

theorem prepare_pipes_wiring:
  assumes "\<forall>p\<in>set (programs st). fd_in p = -1 \<and> fd_out p = -1"
    and "n = length (programs st)" and "1 \<le> n" and "\<forall>i. pipe_ok e i"
  shows "\<exists>st'. prepare_pipes e n st = Return () st' \<and>
           npipes st' = npipes st + (n - 1) \<and>
           (\<forall>i. Suc i < n \<longrightarrow>
              fd_lookup (fdt st') (fd_out (programs st' ! i)) = Some (PipeWrite (npipes st + i)) \<and>
              fd_lookup (fdt st') (fd_in (programs st' ! Suc i)) = Some (PipeRead (npipes st + i)) \<and>
              fd_lookup (fdt st) (fd_out (programs st' ! i)) = None \<and>
              fd_lookup (fdt st) (fd_in (programs st' ! Suc i)) = None) \<and>
           fd_in (programs st' ! 0) = -1 \<and> fd_out (programs st' ! (n - 1)) = -1 \<and>
           (\<forall>fd. fd_lookup (fdt st') fd \<noteq> fd_lookup (fdt st) fd \<longrightarrow>
              (\<exists>i. Suc i < n \<and>
                 (fd = fd_out (programs st' ! i) \<or> fd = fd_in (programs st' ! Suc i)))) \<and>
           (n = 1 \<longrightarrow> st' = st)"
proof -
  let ?m0 = "fd_lookup (fdt st)" and ?k = "npipes st"
  from assms(1,2) have w0: "wired ?m0 ?k n 0 0 st"
    by (simp add: wired_initial)
  from assms(3) have n0: "0 < n"
    by simp
  from assms(4) have ok: "\<forall>j. 0 \<le> j \<and> Suc j < n \<longrightarrow> pipe_ok e (?k + j)"
    by simp
  from prepare_pipes_loop_ok [OF w0 n0 ok]
  obtain st' where r: "prepare_pipes_loop e n (Suc 0) st = Return () st'"
    and w: "wired ?m0 ?k n 0 (n - 1) st'"
    by blast
  from w have np: "npipes st' = ?k + (n - 1)"
    by (simp add: wired_def)
  have ends: "\<forall>i. Suc i < n \<longrightarrow>
              fd_lookup (fdt st') (fd_out (programs st' ! i)) = Some (PipeWrite (?k + i)) \<and>
              fd_lookup (fdt st') (fd_in (programs st' ! Suc i)) = Some (PipeRead (?k + i)) \<and>
              ?m0 (fd_out (programs st' ! i)) = None \<and>
              ?m0 (fd_in (programs st' ! Suc i)) = None"
  proof (intro allI impI)
    fix i assume i: "Suc i < n"
    then have "i < n" "has_out 0 (n - 1) i" "has_in 0 (n - 1) (Suc i)"
      by (simp_all add: has_in_def has_out_def)
    with w i show "fd_lookup (fdt st') (fd_out (programs st' ! i)) = Some (PipeWrite (?k + i)) \<and>
              fd_lookup (fdt st') (fd_in (programs st' ! Suc i)) = Some (PipeRead (?k + i)) \<and>
              ?m0 (fd_out (programs st' ! i)) = None \<and>
              ?m0 (fd_in (programs st' ! Suc i)) = None"
      unfolding wired_def by fastforce
  qed
  have "\<not> has_in 0 (n - 1) 0" "\<not> has_out 0 (n - 1) (n - 1)"
    by (simp_all add: has_in_def has_out_def)
  with w n0 have first: "fd_in (programs st' ! 0) = -1"
    and last: "fd_out (programs st' ! (n - 1)) = -1"
    unfolding wired_def by simp_all
  have others: "\<forall>fd. fd_lookup (fdt st') fd \<noteq> ?m0 fd \<longrightarrow>
              (\<exists>i. Suc i < n \<and>
                 (fd = fd_out (programs st' ! i) \<or> fd = fd_in (programs st' ! Suc i)))"
  proof (intro allI impI)
    fix fd assume "fd_lookup (fdt st') fd \<noteq> ?m0 fd"
    with w obtain j where j: "j < n"
      and o: "has_in 0 (n - 1) j \<and> fd = fd_in (programs st' ! j) \<or>
              has_out 0 (n - 1) j \<and> fd = fd_out (programs st' ! j)"
      unfolding wired_def by blast
    from o show "\<exists>i. Suc i < n \<and>
                 (fd = fd_out (programs st' ! i) \<or> fd = fd_in (programs st' ! Suc i))"
    proof
      assume a: "has_in 0 (n - 1) j \<and> fd = fd_in (programs st' ! j)"
      then obtain i where "j = Suc i"
        by (cases j) (simp_all add: has_in_def)
      with a j show ?thesis
        by auto
    next
      assume "has_out 0 (n - 1) j \<and> fd = fd_out (programs st' ! j)"
      then have "Suc j < n \<and> fd = fd_out (programs st' ! j)"
        by (auto simp add: has_out_def)
      then show ?thesis
        by blast
    qed
  qed
  have one: "n = 1 \<longrightarrow> st' = st"
  proof
    assume "n = 1"
    then have "prepare_pipes_loop e n (Suc 0) st = Return () st"
      by (subst prepare_pipes_loop.simps) simp
    with r show "st' = st"
      by simp
  qed
  from r np ends first last others one show ?thesis
    unfolding prepare_pipes_def by auto
qed

text \<open>
  C4, amended: when the creation of pipe \<open>i\<close> fails, \<open>prepare_pipes\<close> ends the process
  with \<open>die("pipe() failed.")\<close>. It closes nothing: the pipes \<open>0 .. i - 1\<close> are still
  open in the descriptor table, and recorded in the stages, when the process exits.
\<close>

theorem prepare_pipes_failure:
  assumes "\<forall>p\<in>set (programs st). fd_in p = -1 \<and> fd_out p = -1"
    and "n = length (programs st)" and "Suc i < n"
    and "\<forall>j<i. pipe_ok e (npipes st + j)" and "\<not> pipe_ok e (npipes st + i)"
  shows "\<exists>st'. prepare_pipes e n st = Die ''pipe() failed.'' st' \<and>
           npipes st' = npipes st + i \<and>
           (\<forall>j<i.
              fd_lookup (fdt st') (fd_out (programs st' ! j)) = Some (PipeWrite (npipes st + j)) \<and>
              fd_lookup (fdt st') (fd_in (programs st' ! Suc j)) = Some (PipeRead (npipes st + j)))"
proof -
  let ?m0 = "fd_lookup (fdt st)" and ?k = "npipes st"
  from assms(1,2) have w0: "wired ?m0 ?k n 0 0 st"
    by (simp add: wired_initial)
  have i0: "0 \<le> i"
    by simp
  from assms(4) have ok: "\<forall>j. 0 \<le> j \<and> j < i \<longrightarrow> pipe_ok e (?k + j)"
    by simp
  from prepare_pipes_loop_fails [OF w0 i0 assms(3) ok assms(5)]
  obtain st' where r: "prepare_pipes_loop e n (Suc 0) st = Die ''pipe() failed.'' st'"
    and w: "wired ?m0 ?k n 0 i st'"
    by blast
  from w have np: "npipes st' = ?k + i"
    by (simp add: wired_def)
  have ends: "\<forall>j<i.
              fd_lookup (fdt st') (fd_out (programs st' ! j)) = Some (PipeWrite (?k + j)) \<and>
              fd_lookup (fdt st') (fd_in (programs st' ! Suc j)) = Some (PipeRead (?k + j))"
  proof (intro allI impI)
    fix j assume j: "j < i"
    with assms(3) have "j < n" "Suc j < n" "has_out 0 i j" "has_in 0 i (Suc j)"
      by (simp_all add: has_in_def has_out_def)
    with w show "fd_lookup (fdt st') (fd_out (programs st' ! j)) = Some (PipeWrite (?k + j)) \<and>
              fd_lookup (fdt st') (fd_in (programs st' ! Suc j)) = Some (PipeRead (?k + j))"
      unfolding wired_def by fastforce
  qed
  from r np ends show ?thesis
    unfolding prepare_pipes_def by auto
qed

theorem prepare_pipes_wiring_witness:
  "prepare_pipes
     \<lparr>malloc_ok = (\<lambda>k. True), pipe_ok = (\<lambda>k. True), fork_ret = (\<lambda>k. 100 + int k),
      exec_ok = (\<lambda>f. True), waitpid_ret = (\<lambda>p. Some (p, 0))\<rparr> 3
     \<lparr>programs =
        [\<lparr>argv = Some [''ls''], argc = 1, pid = -1, fd_in = -1, fd_out = -1\<rparr>,
         \<lparr>argv = Some [''sort''], argc = 1, pid = -1, fd_in = -1, fd_out = -1\<rparr>,
         \<lparr>argv = Some [''wc''], argc = 1, pid = -1, fd_in = -1, fd_out = -1\<rparr>],
      fdt = [Some (Inherited 0), Some (Inherited 1), Some (Inherited 2)],
      npipes = 0, stderr_log = []\<rparr> =
   Return ()
     \<lparr>programs =
        [\<lparr>argv = Some [''ls''], argc = 1, pid = -1, fd_in = -1, fd_out = 4\<rparr>,
         \<lparr>argv = Some [''sort''], argc = 1, pid = -1, fd_in = 3, fd_out = 6\<rparr>,
         \<lparr>argv = Some [''wc''], argc = 1, pid = -1, fd_in = 5, fd_out = -1\<rparr>],
      fdt = [Some (Inherited 0), Some (Inherited 1), Some (Inherited 2),
             Some (PipeRead 0), Some (PipeWrite 0), Some (PipeRead 1), Some (PipeWrite 1)],
      npipes = 2, stderr_log = []\<rparr>"
  using prepare_pipes_wiring
    [of "\<lparr>programs =
        [\<lparr>argv = Some [''ls''], argc = 1, pid = -1, fd_in = -1, fd_out = -1\<rparr>,
         \<lparr>argv = Some [''sort''], argc = 1, pid = -1, fd_in = -1, fd_out = -1\<rparr>,
         \<lparr>argv = Some [''wc''], argc = 1, pid = -1, fd_in = -1, fd_out = -1\<rparr>],
      fdt = [Some (Inherited 0), Some (Inherited 1), Some (Inherited 2)],
      npipes = 0, stderr_log = []\<rparr>" 3
        "\<lparr>malloc_ok = (\<lambda>k. True), pipe_ok = (\<lambda>k. True), fork_ret = (\<lambda>k. 100 + int k),
      exec_ok = (\<lambda>f. True), waitpid_ret = (\<lambda>p. Some (p, 0))\<rparr>"]
  by (simp add: prepare_pipes_def prepare_pipes_loop.simps sys_pipe_def)

theorem prepare_pipes_failure_witness:
  "prepare_pipes
     \<lparr>malloc_ok = (\<lambda>k. True), pipe_ok = (\<lambda>k. k < 1), fork_ret = (\<lambda>k. 100 + int k),
      exec_ok = (\<lambda>f. True), waitpid_ret = (\<lambda>p. Some (p, 0))\<rparr> 3
     \<lparr>programs =
        [\<lparr>argv = Some [''ls''], argc = 1, pid = -1, fd_in = -1, fd_out = -1\<rparr>,
         \<lparr>argv = Some [''sort''], argc = 1, pid = -1, fd_in = -1, fd_out = -1\<rparr>,
         \<lparr>argv = Some [''wc''], argc = 1, pid = -1, fd_in = -1, fd_out = -1\<rparr>],
      fdt = [Some (Inherited 0), Some (Inherited 1), Some (Inherited 2)],
      npipes = 0, stderr_log = []\<rparr> =
   Die ''pipe() failed.''
     \<lparr>programs =
        [\<lparr>argv = Some [''ls''], argc = 1, pid = -1, fd_in = -1, fd_out = 4\<rparr>,
         \<lparr>argv = Some [''sort''], argc = 1, pid = -1, fd_in = 3, fd_out = -1\<rparr>,
         \<lparr>argv = Some [''wc''], argc = 1, pid = -1, fd_in = -1, fd_out = -1\<rparr>],
      fdt = [Some (Inherited 0), Some (Inherited 1), Some (Inherited 2),
             Some (PipeRead 0), Some (PipeWrite 0)],
      npipes = 1, stderr_log = []\<rparr>"
  using prepare_pipes_failure
    [of "\<lparr>programs =
        [\<lparr>argv = Some [''ls''], argc = 1, pid = -1, fd_in = -1, fd_out = -1\<rparr>,
         \<lparr>argv = Some [''sort''], argc = 1, pid = -1, fd_in = -1, fd_out = -1\<rparr>,
         \<lparr>argv = Some [''wc''], argc = 1, pid = -1, fd_in = -1, fd_out = -1\<rparr>],
      fdt = [Some (Inherited 0), Some (Inherited 1), Some (Inherited 2)],
      npipes = 0, stderr_log = []\<rparr>" 3 1
        "\<lparr>malloc_ok = (\<lambda>k. True), pipe_ok = (\<lambda>k. k < 1), fork_ret = (\<lambda>k. 100 + int k),
      exec_ok = (\<lambda>f. True), waitpid_ret = (\<lambda>p. Some (p, 0))\<rparr>"]
  by (simp add: prepare_pipes_def prepare_pipes_loop.simps sys_pipe_def die_def)

text \<open>
  C4, as the claim states it, fails: with three stages and a kernel that grants the first
  pipe and refuses the second, the orchestrator dies while descriptors 3 and 4, the two
  ends of the first pipe, are still open.
\<close>

theorem pipes_left_open_counterexample:
  "main
     \<lparr>malloc_ok = (\<lambda>k. True), pipe_ok = (\<lambda>k. k < 1), fork_ret = (\<lambda>k. 100 + int k),
      exec_ok = (\<lambda>f. True), waitpid_ret = (\<lambda>p. Some (p, 0))\<rparr>
     [''runpipeline'', ''ls'', ''--'', ''sort'', ''--'', ''wc'']
     [Some (Inherited 0), Some (Inherited 1), Some (Inherited 2)] =
   Die ''pipe() failed.''
     \<lparr>programs =
        [\<lparr>argv = Some [''ls''], argc = 1, pid = -1, fd_in = -1, fd_out = 4\<rparr>,
         \<lparr>argv = Some [''sort''], argc = 1, pid = -1, fd_in = 3, fd_out = -1\<rparr>,
         \<lparr>argv = Some [''wc''], argc = 1, pid = -1, fd_in = -1, fd_out = -1\<rparr>],
      fdt = [Some (Inherited 0), Some (Inherited 1), Some (Inherited 2),
             Some (PipeRead 0), Some (PipeWrite 0)],
      npipes = 1, stderr_log = []\<rparr>
   \<and> fd_lookup [Some (Inherited 0), Some (Inherited 1), Some (Inherited 2),
             Some (PipeRead 0), Some (PipeWrite 0)] 3 = Some (PipeRead 0)
   \<and> fd_lookup [Some (Inherited 0), Some (Inherited 1), Some (Inherited 2),
             Some (PipeRead 0), Some (PipeWrite 0)] 4 = Some (PipeWrite 0)"
  by (simp add: main_def parse_command_line_def parse_loop.simps collect_args.simps
       init_program_def store_program_def die_def initial_proc_def MAX_NUM_PROGRAMS_def
       prepare_pipes_def prepare_pipes_loop.simps sys_pipe_def fd_lookup_def)

subsection \<open>Starting a stage: the parent\<close>

lemma wired_fd_in:
  assumes "wired m0 k n lo hi st" and "j < n"
  shows "fd_lookup (fdt st) (fd_in (programs st ! j)) =
           (if has_in lo hi j then Some (PipeRead (k + j - 1)) else None)"
    and "m0 (fd_in (programs st ! j)) = None"
    and "\<not> has_in lo hi j \<Longrightarrow> fd_in (programs st ! j) = -1"
proof -
  show l: "fd_lookup (fdt st) (fd_in (programs st ! j)) =
           (if has_in lo hi j then Some (PipeRead (k + j - 1)) else None)"
    using assms unfolding wired_def by (auto simp add: fd_lookup_neg)
  show "m0 (fd_in (programs st ! j)) = None"
  proof (cases "has_in lo hi j")
    case True
    with assms show ?thesis
      unfolding wired_def by simp
  next
    case False
    with l have "fd_lookup (fdt st) (fd_in (programs st ! j)) = None"
      by simp
    with assms(1) show ?thesis
      by (rule wired_free)
  qed
  show "\<not> has_in lo hi j \<Longrightarrow> fd_in (programs st ! j) = -1"
    using assms unfolding wired_def by simp
qed

lemma wired_fd_out:
  assumes "wired m0 k n lo hi st" and "j < n"
  shows "fd_lookup (fdt st) (fd_out (programs st ! j)) =
           (if has_out lo hi j then Some (PipeWrite (k + j)) else None)"
    and "m0 (fd_out (programs st ! j)) = None"
    and "\<not> has_out lo hi j \<Longrightarrow> fd_out (programs st ! j) = -1"
proof -
  show l: "fd_lookup (fdt st) (fd_out (programs st ! j)) =
           (if has_out lo hi j then Some (PipeWrite (k + j)) else None)"
    using assms unfolding wired_def by (auto simp add: fd_lookup_neg)
  show "m0 (fd_out (programs st ! j)) = None"
  proof (cases "has_out lo hi j")
    case True
    with assms show ?thesis
      unfolding wired_def by simp
  next
    case False
    with l have "fd_lookup (fdt st) (fd_out (programs st ! j)) = None"
      by simp
    with assms(1) show ?thesis
      by (rule wired_free)
  qed
  show "\<not> has_out lo hi j \<Longrightarrow> fd_out (programs st ! j) = -1"
    using assms unfolding wired_def by simp
qed

lemma open_nonneg: "fd_lookup t fd = Some f \<Longrightarrow> 0 \<le> fd"
  by (simp add: fd_lookup_def split: if_splits)

lemma close_if_open:
  assumes "c \<longrightarrow> fd_lookup (fdt st) fd \<noteq> None" and "\<not> c \<longrightarrow> fd_lookup (fdt st) fd = None"
  shows "\<exists>st'. (if c \<and> 0 \<le> fd then checked_close fd st else Return () st) = Return () st' \<and>
           fd_lookup (fdt st') = (fd_lookup (fdt st))(fd := None) \<and>
           programs st' = programs st \<and> npipes st' = npipes st \<and> stderr_log st' = stderr_log st"
proof (cases c)
  case True
  with assms(1) obtain f where f: "fd_lookup (fdt st) fd = Some f"
    by auto
  then have "0 \<le> fd"
    by (rule open_nonneg)
  with True checked_close_open [of st fd] f show ?thesis
    by simp
next
  case False
  with assms(2) have "(fd_lookup (fdt st))(fd := None) = fd_lookup (fdt st)"
    by (simp add: fun_upd_idem)
  with False show ?thesis
    by simp
qed

lemma start_program_parent:
  assumes w: "wired m0 k n lo (n - 1) st" and lt: "lo < n" and fk: "0 < fork_ret e lo"
  shows "\<exists>st'. start_program e n lo st = Return () st' \<and>
           wired m0 k n (Suc lo) (n - 1) st' \<and>
           stderr_log st' = stderr_log st \<and>
           map argv (programs st') = map argv (programs st) \<and>
           map pid (programs st') = (map pid (programs st))[lo := fork_ret e lo] \<and>
           fd_lookup (fdt st') =
             (fd_lookup (fdt st))(fd_in (programs st ! lo) := None, fd_out (programs st ! lo) := None) \<and>
           programs st' = (programs st)
             [lo := (programs st ! lo)\<lparr>pid := fork_ret e lo, fd_in := -1, fd_out := -1\<rparr>]"
proof -
  let ?ps = "programs st"
  define a where "a = fd_in (?ps ! lo)"
  define b where "b = fd_out (?ps ! lo)"
  define c where "c = fork_ret e lo"
  from w have len: "length ?ps = n" and np: "npipes st = k + (n - 1)"
    by (simp_all add: wired_def)
  have hin: "has_in lo (n - 1) lo = (0 < lo)" and hout: "has_out lo (n - 1) lo = (Suc lo < n)"
    using lt by (auto simp add: has_in_def has_out_def)
  have la: "fd_lookup (fdt st) a = (if 0 < lo then Some (PipeRead (k + lo - 1)) else None)"
    and lb: "fd_lookup (fdt st) b = (if Suc lo < n then Some (PipeWrite (k + lo)) else None)"
    and ma: "m0 a = None" and mb: "m0 b = None"
    using wired_fd_in(1,2) [OF w lt] wired_fd_out(1,2) [OF w lt] hin hout
    by (simp_all add: a_def b_def)
  define st1 where "st1 = st\<lparr>programs := ?ps[lo := (?ps ! lo)\<lparr>pid := c\<rparr>]\<rparr>"
  have p1: "programs st1 ! lo = (?ps ! lo)\<lparr>pid := c\<rparr>" and t1: "fdt st1 = fdt st"
    using len lt by (simp_all add: st1_def)
  have "\<exists>st2. (if 0 < lo \<and> 0 \<le> a then checked_close a st1 else Return () st1) = Return () st2 \<and>
           fd_lookup (fdt st2) = (fd_lookup (fdt st1))(a := None) \<and>
           programs st2 = programs st1 \<and> npipes st2 = npipes st1 \<and>
           stderr_log st2 = stderr_log st1"
    by (rule close_if_open) (simp_all add: t1 la)
  then obtain st2 where r2: "(if 0 < lo \<and> 0 \<le> a then checked_close a st1 else Return () st1) = Return () st2"
    and t2: "fd_lookup (fdt st2) = (fd_lookup (fdt st))(a := None)"
    and f2: "programs st2 = programs st1" "npipes st2 = npipes st1" "stderr_log st2 = stderr_log st1"
    by (auto simp add: t1)
  have ab: "Suc lo < n \<Longrightarrow> a \<noteq> b"
    using la lb by (auto split: if_splits)
  have "\<exists>st3. (if Suc lo < n \<and> 0 \<le> b then checked_close b st2 else Return () st2) = Return () st3 \<and>
           fd_lookup (fdt st3) = (fd_lookup (fdt st2))(b := None) \<and>
           programs st3 = programs st2 \<and> npipes st3 = npipes st2 \<and>
           stderr_log st3 = stderr_log st2"
  proof (rule close_if_open)
    show "Suc lo < n \<longrightarrow> fd_lookup (fdt st2) b \<noteq> None"
      using ab lb by (auto simp add: t2)
    show "\<not> Suc lo < n \<longrightarrow> fd_lookup (fdt st2) b = None"
      using lb by (simp add: t2)
  qed
  then obtain st3 where r3: "(if Suc lo < n \<and> 0 \<le> b then checked_close b st2 else Return () st2) = Return () st3"
    and t3: "fd_lookup (fdt st3) = (fd_lookup (fdt st))(a := None, b := None)"
    and f3: "programs st3 = programs st1" "npipes st3 = npipes st" "stderr_log st3 = stderr_log st"
    using t2 f2 by (auto simp add: st1_def)
  define ps' where "ps' = ?ps[lo := (?ps ! lo)\<lparr>pid := c, fd_in := -1, fd_out := -1\<rparr>]"
  define st' where "st' = st3\<lparr>programs := ps'\<rparr>"
  have neq: "(int lo \<noteq> int n - 1) = (Suc lo < n)"
    using lt by auto
  have b2: "fd_out (programs st2 ! lo) = b" and b3: "programs st3 ! lo = (?ps ! lo)\<lparr>pid := c\<rparr>"
    by (simp_all add: f2 f3 p1 b_def)
  have "start_program e n lo st =
      seq (if 0 < lo \<and> 0 \<le> a then checked_close a st1 else Return () st1) (\<lambda>_ st2.
      seq (if int lo \<noteq> int n - 1 \<and> 0 \<le> fd_out (programs st2 ! lo)
           then checked_close (fd_out (programs st2 ! lo)) st2 else Return () st2) (\<lambda>_ st3.
      Return () (st3\<lparr>programs :=
        (programs st3)[lo := (programs st3 ! lo)\<lparr>fd_in := -1, fd_out := -1\<rparr>]\<rparr>)))"
    using fk len lt by (simp add: start_program_def Let_def st1_def c_def a_def)
  also have "\<dots> =
      seq (if Suc lo < n \<and> 0 \<le> b then checked_close b st2 else Return () st2) (\<lambda>_ st3.
      Return () (st3\<lparr>programs :=
        (programs st3)[lo := (programs st3 ! lo)\<lparr>fd_in := -1, fd_out := -1\<rparr>]\<rparr>))"
    by (simp only: r2 seq.simps b2 neq)
  also have "\<dots> = Return () (st3\<lparr>programs :=
        (programs st3)[lo := (programs st3 ! lo)\<lparr>fd_in := -1, fd_out := -1\<rparr>]\<rparr>)"
    by (simp only: r3 seq.simps)
  also have "\<dots> = Return () st'"
    using len lt by (simp add: st'_def ps'_def f3 st1_def)
  finally have run: "start_program e n lo st = Return () st'" .
  have len': "length ps' = n"
    using len by (simp add: ps'_def)
  have in': "\<And>j. j < n \<Longrightarrow> fd_in (ps' ! j) = (if j = lo then -1 else fd_in (?ps ! j))"
    and out': "\<And>j. j < n \<Longrightarrow> fd_out (ps' ! j) = (if j = lo then -1 else fd_out (?ps ! j))"
    using len by (auto simp add: ps'_def nth_list_update)
  have tbl: "fd_lookup (fdt st') = (fd_lookup (fdt st))(a := None, b := None)"
    by (simp add: st'_def t3)
  have c1: "\<forall>j<n. has_in (Suc lo) (n - 1) j \<longrightarrow>
         fd_lookup (fdt st') (fd_in (ps' ! j)) = Some (PipeRead (k + j - 1)) \<and>
         m0 (fd_in (ps' ! j)) = None"
  proof (intro allI impI)
    fix j assume j: "j < n" and h: "has_in (Suc lo) (n - 1) j"
    then have jlo: "lo < j" and h': "has_in lo (n - 1) j"
      by (auto simp add: has_in_def)
    from wired_fd_in(1,2) [OF w j] h'
    have o: "fd_lookup (fdt st) (fd_in (?ps ! j)) = Some (PipeRead (k + j - 1))"
      "m0 (fd_in (?ps ! j)) = None"
      by simp_all
    have "fd_in (?ps ! j) \<noteq> a"
    proof
      assume "fd_in (?ps ! j) = a"
      with o(1) la have "0 < lo" and "k + lo - 1 = k + j - 1"
        by (auto split: if_splits)
      with jlo show False
        by simp
    qed
    moreover have "fd_in (?ps ! j) \<noteq> b"
      using o(1) lb by (auto split: if_splits)
    ultimately show "fd_lookup (fdt st') (fd_in (ps' ! j)) = Some (PipeRead (k + j - 1)) \<and>
         m0 (fd_in (ps' ! j)) = None"
      using o j jlo by (simp add: in' tbl)
  qed
  have c2: "\<forall>j<n. \<not> has_in (Suc lo) (n - 1) j \<longrightarrow> fd_in (ps' ! j) = -1"
  proof (intro allI impI)
    fix j assume j: "j < n" and h: "\<not> has_in (Suc lo) (n - 1) j"
    show "fd_in (ps' ! j) = -1"
    proof (cases "j = lo")
      case True
      with j show ?thesis
        by (simp add: in')
    next
      case False
      with h have "\<not> has_in lo (n - 1) j"
        by (auto simp add: has_in_def)
      with wired_fd_in(3) [OF w j] False j show ?thesis
        by (simp add: in')
    qed
  qed
  have c3: "\<forall>j<n. has_out (Suc lo) (n - 1) j \<longrightarrow>
         fd_lookup (fdt st') (fd_out (ps' ! j)) = Some (PipeWrite (k + j)) \<and>
         m0 (fd_out (ps' ! j)) = None"
  proof (intro allI impI)
    fix j assume j: "j < n" and h: "has_out (Suc lo) (n - 1) j"
    then have jlo: "lo < j" and h': "has_out lo (n - 1) j"
      by (auto simp add: has_out_def)
    from wired_fd_out(1,2) [OF w j] h'
    have o: "fd_lookup (fdt st) (fd_out (?ps ! j)) = Some (PipeWrite (k + j))"
      "m0 (fd_out (?ps ! j)) = None"
      by simp_all
    have "fd_out (?ps ! j) \<noteq> b"
    proof
      assume "fd_out (?ps ! j) = b"
      with o(1) lb have "k + lo = k + j"
        by (auto split: if_splits)
      with jlo show False
        by simp
    qed
    moreover have "fd_out (?ps ! j) \<noteq> a"
      using o(1) la by (auto split: if_splits)
    ultimately show "fd_lookup (fdt st') (fd_out (ps' ! j)) = Some (PipeWrite (k + j)) \<and>
         m0 (fd_out (ps' ! j)) = None"
      using o j jlo by (simp add: out' tbl)
  qed
  have c4: "\<forall>j<n. \<not> has_out (Suc lo) (n - 1) j \<longrightarrow> fd_out (ps' ! j) = -1"
  proof (intro allI impI)
    fix j assume j: "j < n" and h: "\<not> has_out (Suc lo) (n - 1) j"
    show "fd_out (ps' ! j) = -1"
    proof (cases "j = lo")
      case True
      with j show ?thesis
        by (simp add: out')
    next
      case False
      with h have "\<not> has_out lo (n - 1) j"
        by (auto simp add: has_out_def)
      with wired_fd_out(3) [OF w j] False j show ?thesis
        by (simp add: out')
    qed
  qed
  have c5: "\<forall>fd. fd_lookup (fdt st') fd \<noteq> m0 fd \<longrightarrow>
         (\<exists>j<n. has_in (Suc lo) (n - 1) j \<and> fd = fd_in (ps' ! j) \<or>
                has_out (Suc lo) (n - 1) j \<and> fd = fd_out (ps' ! j))"
  proof (intro allI impI)
    fix fd assume d: "fd_lookup (fdt st') fd \<noteq> m0 fd"
    with ma mb have nab: "fd \<noteq> a" "fd \<noteq> b"
      by (auto simp add: tbl split: if_splits)
    with d have "fd_lookup (fdt st) fd \<noteq> m0 fd"
      by (simp add: tbl)
    with w obtain j where j: "j < n"
      and o: "has_in lo (n - 1) j \<and> fd = fd_in (?ps ! j) \<or>
              has_out lo (n - 1) j \<and> fd = fd_out (?ps ! j)"
      unfolding wired_def by blast
    from o nab have jlo: "j \<noteq> lo"
      by (auto simp add: a_def b_def)
    with o j have "has_in (Suc lo) (n - 1) j \<and> fd = fd_in (ps' ! j) \<or>
                has_out (Suc lo) (n - 1) j \<and> fd = fd_out (ps' ! j)"
      by (auto simp add: in' out' has_in_def has_out_def)
    with j show "\<exists>j<n. has_in (Suc lo) (n - 1) j \<and> fd = fd_in (ps' ! j) \<or>
                has_out (Suc lo) (n - 1) j \<and> fd = fd_out (ps' ! j)"
      by blast
  qed
  have wd: "wired m0 k n (Suc lo) (n - 1) st'"
    unfolding wired_def using len' np f3 c1 c2 c3 c4 c5 by (simp add: st'_def)
  have fr1: "map argv ps' = map argv ?ps"
    unfolding ps'_def by (rule map_update_frame) simp
  have fr2: "map pid ps' = (map pid ?ps)[lo := c]"
    by (simp add: ps'_def map_update)
  from run wd fr1 fr2 f3 tbl show ?thesis
    by (simp add: st'_def a_def b_def c_def ps'_def)
qed

subsection \<open>Starting a stage: the child\<close>

lemma ex_from_split:
  "i < n \<Longrightarrow> (\<exists>j. i \<le> j \<and> j < n \<and> P j) = (P i \<or> (\<exists>j. Suc i \<le> j \<and> j < n \<and> P j))"
proof
  assume "i < n" and "\<exists>j. i \<le> j \<and> j < n \<and> P j"
  then obtain j where j: "i \<le> j" "j < n" "P j"
    by blast
  show "P i \<or> (\<exists>j. Suc i \<le> j \<and> j < n \<and> P j)"
  proof (cases "j = i")
    case True
    with j show ?thesis by simp
  next
    case False
    with j have "Suc i \<le> j" by simp
    with j show ?thesis by blast
  qed
next
  assume "i < n" and "P i \<or> (\<exists>j. Suc i \<le> j \<and> j < n \<and> P j)"
  then show "\<exists>j. i \<le> j \<and> j < n \<and> P j"
    by (metis Suc_leD order_refl)
qed

text \<open>
  The closing loop of the child, on a table in which the descriptors the stages from \<open>i\<close>
  on hold are open; \<open>tref\<close> is a table in which they name their pipes, so that no two of
  them are equal.
\<close>

lemma close_pipe_fds_all:
  assumes "\<forall>j. i \<le> j \<and> j < n \<longrightarrow>
      (0 \<le> fd_in (programs st ! j) \<longrightarrow>
         tref (fd_in (programs st ! j)) = Some (PipeRead (k + j - 1)) \<and> 0 < j \<and>
         fd_lookup (fdt st) (fd_in (programs st ! j)) \<noteq> None) \<and>
      (0 \<le> fd_out (programs st ! j) \<longrightarrow>
         tref (fd_out (programs st ! j)) = Some (PipeWrite (k + j)) \<and>
         fd_lookup (fdt st) (fd_out (programs st ! j)) \<noteq> None)"
  shows "\<exists>st'. close_pipe_fds n i st = Return () st' \<and>
           programs st' = programs st \<and> npipes st' = npipes st \<and>
           stderr_log st' = stderr_log st \<and>
           (\<forall>fd. fd_lookup (fdt st') fd =
              (if 0 \<le> fd \<and> (\<exists>j. i \<le> j \<and> j < n \<and>
                     (fd = fd_in (programs st ! j) \<or> fd = fd_out (programs st ! j)))
               then None else fd_lookup (fdt st) fd))"
  using assms
proof (induction "n - i" arbitrary: i st)
  case 0
  then have "\<not> i < n"
    by simp
  then show ?case
    by (subst close_pipe_fds.simps) auto
next
  case (Suc d)
  then have lt: "i < n"
    by simp
  let ?ps = "programs st"
  define a where "a = fd_in (?ps ! i)"
  define b where "b = fd_out (?ps ! i)"
  from Suc.prems lt
  have la: "0 \<le> a \<longrightarrow> tref a = Some (PipeRead (k + i - 1)) \<and> 0 < i \<and> fd_lookup (fdt st) a \<noteq> None"
    and lb: "0 \<le> b \<longrightarrow> tref b = Some (PipeWrite (k + i)) \<and> fd_lookup (fdt st) b \<noteq> None"
    by (simp_all add: a_def b_def)
  have "\<exists>st1. (if 0 \<le> a then checked_close a st else Return () st) = Return () st1 \<and>
           fd_lookup (fdt st1) = (if 0 \<le> a then (fd_lookup (fdt st))(a := None) else fd_lookup (fdt st)) \<and>
           programs st1 = programs st \<and> npipes st1 = npipes st \<and> stderr_log st1 = stderr_log st"
  proof (cases "0 \<le> a")
    case True
    with la have "fd_lookup (fdt st) a \<noteq> None"
      by simp
    from checked_close_open [OF this] True show ?thesis
      by simp
  next
    case False
    then show ?thesis by simp
  qed
  then obtain st1 where r1: "(if 0 \<le> a then checked_close a st else Return () st) = Return () st1"
    and t1: "fd_lookup (fdt st1) = (if 0 \<le> a then (fd_lookup (fdt st))(a := None) else fd_lookup (fdt st))"
    and f1: "programs st1 = programs st" "npipes st1 = npipes st" "stderr_log st1 = stderr_log st"
    by blast
  have "\<exists>st2. (if 0 \<le> b then checked_close b st1 else Return () st1) = Return () st2 \<and>
           fd_lookup (fdt st2) = (if 0 \<le> b then (fd_lookup (fdt st1))(b := None) else fd_lookup (fdt st1)) \<and>
           programs st2 = programs st1 \<and> npipes st2 = npipes st1 \<and> stderr_log st2 = stderr_log st1"
  proof (cases "0 \<le> b")
    case True
    with la lb have "b \<noteq> a \<or> a < 0"
      by auto
    with True lb have "fd_lookup (fdt st1) b \<noteq> None"
      by (auto simp add: t1)
    from checked_close_open [OF this] True show ?thesis
      by simp
  next
    case False
    then show ?thesis by simp
  qed
  then obtain st2 where r2: "(if 0 \<le> b then checked_close b st1 else Return () st1) = Return () st2"
    and t2: "fd_lookup (fdt st2) = (if 0 \<le> b then (fd_lookup (fdt st1))(b := None) else fd_lookup (fdt st1))"
    and f2: "programs st2 = programs st" "npipes st2 = npipes st" "stderr_log st2 = stderr_log st"
    using f1 by auto
  have tbl2: "\<And>fd. fd_lookup (fdt st2) fd =
      (if 0 \<le> fd \<and> (fd = a \<or> fd = b) then None else fd_lookup (fdt st) fd)"
    by (auto simp add: t1 t2)
  have step: "close_pipe_fds n i st = close_pipe_fds n (Suc i) st2"
  proof -
    have "close_pipe_fds n i st =
        seq (if 0 \<le> a then checked_close a st else Return () st) (\<lambda>_ st1.
        seq (if 0 \<le> fd_out (programs st1 ! i)
             then checked_close (fd_out (programs st1 ! i)) st1 else Return () st1) (\<lambda>_ st2.
        close_pipe_fds n (Suc i) st2))"
      using lt by (subst close_pipe_fds.simps) (simp add: a_def)
    also have "\<dots> = seq (if 0 \<le> b then checked_close b st1 else Return () st1) (\<lambda>_ st2.
        close_pipe_fds n (Suc i) st2)"
      by (simp only: r1 seq.simps f1 b_def)
    also have "\<dots> = close_pipe_fds n (Suc i) st2"
      by (simp only: r2 seq.simps)
    finally show ?thesis .
  qed
  have pre: "\<forall>j. Suc i \<le> j \<and> j < n \<longrightarrow>
      (0 \<le> fd_in (programs st2 ! j) \<longrightarrow>
         tref (fd_in (programs st2 ! j)) = Some (PipeRead (k + j - 1)) \<and> 0 < j \<and>
         fd_lookup (fdt st2) (fd_in (programs st2 ! j)) \<noteq> None) \<and>
      (0 \<le> fd_out (programs st2 ! j) \<longrightarrow>
         tref (fd_out (programs st2 ! j)) = Some (PipeWrite (k + j)) \<and>
         fd_lookup (fdt st2) (fd_out (programs st2 ! j)) \<noteq> None)"
  proof (intro allI impI conjI)
    fix j assume j: "Suc i \<le> j \<and> j < n" and nn: "0 \<le> fd_in (programs st2 ! j)"
    with Suc.prems have o: "tref (fd_in (?ps ! j)) = Some (PipeRead (k + j - 1))" "0 < j"
      "fd_lookup (fdt st) (fd_in (?ps ! j)) \<noteq> None"
      by (simp_all add: f2)
    have "fd_in (?ps ! j) \<noteq> a \<or> a < 0"
      using o la j by auto
    moreover have "fd_in (?ps ! j) \<noteq> b \<or> b < 0"
      using o lb by auto
    ultimately show "fd_lookup (fdt st2) (fd_in (programs st2 ! j)) \<noteq> None"
      using o nn by (auto simp add: f2 tbl2)
    show "0 < j" by (rule o(2))
    show "tref (fd_in (programs st2 ! j)) = Some (PipeRead (k + j - 1))"
      using o(1) by (simp add: f2)
  next
    fix j assume j: "Suc i \<le> j \<and> j < n" and nn: "0 \<le> fd_out (programs st2 ! j)"
    with Suc.prems have o: "tref (fd_out (?ps ! j)) = Some (PipeWrite (k + j))"
      "fd_lookup (fdt st) (fd_out (?ps ! j)) \<noteq> None"
      by (simp_all add: f2)
    have "fd_out (?ps ! j) \<noteq> a \<or> a < 0"
      using o la by auto
    moreover have "fd_out (?ps ! j) \<noteq> b \<or> b < 0"
      using o lb j by auto
    ultimately show "fd_lookup (fdt st2) (fd_out (programs st2 ! j)) \<noteq> None"
      using o nn by (auto simp add: f2 tbl2)
    show "tref (fd_out (programs st2 ! j)) = Some (PipeWrite (k + j))"
      using o(1) by (simp add: f2)
  qed
  from Suc.hyps(2) have d: "d = n - Suc i"
    by simp
  from Suc.hyps(1) [OF d pre]
  obtain st' where r: "close_pipe_fds n (Suc i) st2 = Return () st'"
    and f': "programs st' = programs st" "npipes st' = npipes st" "stderr_log st' = stderr_log st"
    and t': "\<forall>fd. fd_lookup (fdt st') fd =
              (if 0 \<le> fd \<and> (\<exists>j. Suc i \<le> j \<and> j < n \<and>
                     (fd = fd_in (?ps ! j) \<or> fd = fd_out (?ps ! j)))
               then None else fd_lookup (fdt st2) fd)"
    by (auto simp add: f2)
  have "\<forall>fd. fd_lookup (fdt st') fd =
              (if 0 \<le> fd \<and> (\<exists>j. i \<le> j \<and> j < n \<and>
                     (fd = fd_in (?ps ! j) \<or> fd = fd_out (?ps ! j)))
               then None else fd_lookup (fdt st) fd)"
  proof
    fix fd
    have split: "(\<exists>j. i \<le> j \<and> j < n \<and> (fd = fd_in (?ps ! j) \<or> fd = fd_out (?ps ! j))) =
        ((fd = a \<or> fd = b) \<or>
         (\<exists>j. Suc i \<le> j \<and> j < n \<and> (fd = fd_in (?ps ! j) \<or> fd = fd_out (?ps ! j))))"
      unfolding a_def b_def
      by (rule ex_from_split [OF lt, of "\<lambda>j. fd = fd_in (?ps ! j) \<or> fd = fd_out (?ps ! j)"])
    show "fd_lookup (fdt st') fd =
              (if 0 \<le> fd \<and> (\<exists>j. i \<le> j \<and> j < n \<and>
                     (fd = fd_in (?ps ! j) \<or> fd = fd_out (?ps ! j)))
               then None else fd_lookup (fdt st) fd)"
      unfolding split using t' tbl2 by auto
  qed
  with step r f' show ?case
    by simp
qed

lemma fd_of_stage_not_std:
  assumes "wired m0 k n lo hi st" and "j < n" and "m0 x \<noteq> None"
  shows "fd_in (programs st ! j) \<noteq> x" and "fd_out (programs st ! j) \<noteq> x"
  using wired_fd_in(2) [OF assms(1,2)] wired_fd_out(2) [OF assms(1,2)] assms(3) by auto

lemma wired_other_fd:
  assumes "wired m0 k n lo hi st"
    and "\<not> (\<exists>j. lo \<le> j \<and> j < n \<and> (fd = fd_in (programs st ! j) \<or> fd = fd_out (programs st ! j)))"
  shows "fd_lookup (fdt st) fd = m0 fd"
proof (rule ccontr)
  assume "fd_lookup (fdt st) fd \<noteq> m0 fd"
  with assms(1) obtain j where "j < n"
    and "has_in lo hi j \<and> fd = fd_in (programs st ! j) \<or>
         has_out lo hi j \<and> fd = fd_out (programs st ! j)"
    unfolding wired_def by blast
  then have "lo \<le> j \<and> j < n \<and> (fd = fd_in (programs st ! j) \<or> fd = fd_out (programs st ! j))"
    by (auto simp add: has_in_def has_out_def)
  with assms(2) show False
    by blast
qed

lemma stage_fds_iff:
  assumes "n \<le> length ps"
  shows "fd \<in> set (stage_fds n cur ps) \<longleftrightarrow>
         (\<exists>j. cur \<le> j \<and> j < n \<and> (fd = fd_in (ps ! j) \<or> fd = fd_out (ps ! j)))"
proof -
  have mem: "\<And>p. p \<in> set (drop cur (take n ps)) \<longleftrightarrow> (\<exists>j. cur \<le> j \<and> j < n \<and> p = ps ! j)"
  proof
    fix p assume "p \<in> set (drop cur (take n ps))"
    then obtain i where i: "i < length (drop cur (take n ps))" and p: "drop cur (take n ps) ! i = p"
      by (auto simp add: in_set_conv_nth)
    from i assms have "cur + i < n"
      by simp
    moreover from this p assms have "p = ps ! (cur + i)"
      by simp
    ultimately show "\<exists>j. cur \<le> j \<and> j < n \<and> p = ps ! j"
      by (intro exI [of _ "cur + i"]) simp
  next
    fix p assume "\<exists>j. cur \<le> j \<and> j < n \<and> p = ps ! j"
    then obtain j where j: "cur \<le> j" "j < n" and p: "p = ps ! j"
      by blast
    from j assms have "j - cur < length (drop cur (take n ps))"
      by simp
    moreover from j assms p have "drop cur (take n ps) ! (j - cur) = p"
      by simp
    ultimately show "p \<in> set (drop cur (take n ps))"
      by (auto simp add: in_set_conv_nth)
  qed
  have cc: "fd \<in> set (stage_fds n cur ps) \<longleftrightarrow>
      (\<exists>p. p \<in> set (drop cur (take n ps)) \<and> (fd = fd_in p \<or> fd = fd_out p))"
    unfolding stage_fds_def set_concat set_map by fastforce
  show ?thesis
  proof
    assume "fd \<in> set (stage_fds n cur ps)"
    with cc obtain p where "p \<in> set (drop cur (take n ps))" and f: "fd = fd_in p \<or> fd = fd_out p"
      by blast
    with mem obtain j where "cur \<le> j" "j < n" "p = ps ! j"
      by blast
    with f show "\<exists>j. cur \<le> j \<and> j < n \<and> (fd = fd_in (ps ! j) \<or> fd = fd_out (ps ! j))"
      by blast
  next
    assume "\<exists>j. cur \<le> j \<and> j < n \<and> (fd = fd_in (ps ! j) \<or> fd = fd_out (ps ! j))"
    then obtain j where j: "cur \<le> j" "j < n" and f: "fd = fd_in (ps ! j) \<or> fd = fd_out (ps ! j)"
      by blast
    from j have "\<exists>i. cur \<le> i \<and> i < n \<and> ps ! j = ps ! i"
      by blast
    then have "ps ! j \<in> set (drop cur (take n ps))"
      by (simp only: mem)
    with f cc show "fd \<in> set (stage_fds n cur ps)"
      by blast
  qed
qed

lemma start_program_child_run:
  assumes w: "wired m0 k n cur (n - 1) st" and lt: "cur < n" and fk: "fork_ret e cur = 0"
  shows "\<exists>st'. start_program e n cur st = execvp_or_die e (programs st ! cur) st' \<and>
           programs st' = programs st \<and> npipes st' = npipes st \<and>
           stderr_log st' = stderr_log st \<and>
           fd_lookup (fdt st') = child_table n cur (programs st) (fd_lookup (fdt st))"
proof -
  let ?ps = "programs st"
  let ?t0 = "fd_lookup (fdt st)"
  define a where "a = fd_in (?ps ! cur)"
  define b where "b = fd_out (?ps ! cur)"
  define t1 where "t1 = (if 0 < cur then ?t0(0 := ?t0 a) else ?t0)"
  define t2 where "t2 = (if Suc cur < n then t1(1 := t1 b) else t1)"
  from w have len: "length ?ps = n"
    by (simp add: wired_def)
  have hin: "has_in cur (n - 1) cur = (0 < cur)" and hout: "has_out cur (n - 1) cur = (Suc cur < n)"
    using lt by (auto simp add: has_in_def has_out_def)
  have la: "?t0 a = (if 0 < cur then Some (PipeRead (k + cur - 1)) else None)"
    and lb: "?t0 b = (if Suc cur < n then Some (PipeWrite (k + cur)) else None)"
    using wired_fd_in(1) [OF w lt] wired_fd_out(1) [OF w lt] hin hout
    by (simp_all add: a_def b_def)
  have open1: "\<And>x. ?t0 x \<noteq> None \<Longrightarrow> t1 x \<noteq> None"
    using la by (auto simp add: t1_def)
  have open2: "\<And>x. ?t0 x \<noteq> None \<Longrightarrow> t2 x \<noteq> None"
  proof -
    fix x assume x: "?t0 x \<noteq> None"
    show "t2 x \<noteq> None"
    proof (cases "Suc cur < n")
      case True
      with lb have "?t0 b \<noteq> None"
        by simp
      then have "t1 b \<noteq> None"
        by (rule open1)
      with open1 [OF x] True show ?thesis
        by (simp add: t2_def)
    next
      case False
      with open1 [OF x] show ?thesis
        by (simp add: t2_def)
    qed
  qed
  have neq: "(int cur \<noteq> int n - 1) = (Suc cur < n)"
    using lt by auto
  have "\<exists>st1. (if 0 < cur then checked_dup2 a FD_STDIN st else Return () st) = Return () st1 \<and>
      fd_lookup (fdt st1) = t1 \<and>
      programs st1 = programs st \<and> npipes st1 = npipes st \<and> stderr_log st1 = stderr_log st"
  proof (cases "0 < cur")
    case True
    with la have "?t0 a = Some (PipeRead (k + cur - 1))"
      by simp
    from checked_dup2_open [OF this, of 0] True this show ?thesis
      by (simp add: FD_STDIN_def t1_def)
  next
    case False
    then show ?thesis by (simp add: t1_def)
  qed
  then obtain st1 where r1: "(if 0 < cur then checked_dup2 a FD_STDIN st else Return () st) = Return () st1"
    and t1: "fd_lookup (fdt st1) = t1"
    and f1: "programs st1 = programs st" "npipes st1 = npipes st" "stderr_log st1 = stderr_log st"
    by blast
  have "\<exists>st2. (if Suc cur < n then checked_dup2 b FD_STDOUT st1 else Return () st1) = Return () st2 \<and>
      fd_lookup (fdt st2) = t2 \<and>
      programs st2 = programs st1 \<and> npipes st2 = npipes st1 \<and> stderr_log st2 = stderr_log st1"
  proof (cases "Suc cur < n")
    case True
    with lb have "?t0 b \<noteq> None"
      by simp
    then have "t1 b \<noteq> None"
      by (rule open1)
    then obtain f where f: "fd_lookup (fdt st1) b = Some f"
      by (auto simp add: t1)
    from checked_dup2_open [OF this, of 1] True f show ?thesis
      by (simp add: FD_STDOUT_def t2_def t1)
  next
    case False
    then show ?thesis by (simp add: t2_def t1)
  qed
  then obtain st2 where r2: "(if Suc cur < n then checked_dup2 b FD_STDOUT st1 else Return () st1) = Return () st2"
    and t2: "fd_lookup (fdt st2) = t2"
    and f2: "programs st2 = programs st" "npipes st2 = npipes st" "stderr_log st2 = stderr_log st"
    using f1 by auto
  have pre: "\<forall>j. cur \<le> j \<and> j < n \<longrightarrow>
      (0 \<le> fd_in (programs st2 ! j) \<longrightarrow>
         ?t0 (fd_in (programs st2 ! j)) = Some (PipeRead (k + j - 1)) \<and> 0 < j \<and>
         fd_lookup (fdt st2) (fd_in (programs st2 ! j)) \<noteq> None) \<and>
      (0 \<le> fd_out (programs st2 ! j) \<longrightarrow>
         ?t0 (fd_out (programs st2 ! j)) = Some (PipeWrite (k + j)) \<and>
         fd_lookup (fdt st2) (fd_out (programs st2 ! j)) \<noteq> None)"
  proof (intro allI impI conjI)
    fix j assume j: "cur \<le> j \<and> j < n" and nn: "0 \<le> fd_in (programs st2 ! j)"
    then have jn: "j < n"
      by simp
    from nn wired_fd_in(3) [OF w jn] have h: "has_in cur (n - 1) j"
      by (auto simp add: f2)
    with wired_fd_in(1) [OF w jn]
    show o: "?t0 (fd_in (programs st2 ! j)) = Some (PipeRead (k + j - 1))"
      by (simp add: f2)
    from h show "0 < j"
      by (simp add: has_in_def)
    from o have "?t0 (fd_in (programs st2 ! j)) \<noteq> None"
      by simp
    then show "fd_lookup (fdt st2) (fd_in (programs st2 ! j)) \<noteq> None"
      unfolding t2 by (rule open2)
  next
    fix j assume j: "cur \<le> j \<and> j < n" and nn: "0 \<le> fd_out (programs st2 ! j)"
    then have jn: "j < n"
      by simp
    from nn wired_fd_out(3) [OF w jn] have h: "has_out cur (n - 1) j"
      by (auto simp add: f2)
    with wired_fd_out(1) [OF w jn]
    show o: "?t0 (fd_out (programs st2 ! j)) = Some (PipeWrite (k + j))"
      by (simp add: f2)
    from o have "?t0 (fd_out (programs st2 ! j)) \<noteq> None"
      by simp
    then show "fd_lookup (fdt st2) (fd_out (programs st2 ! j)) \<noteq> None"
      unfolding t2 by (rule open2)
  qed
  from close_pipe_fds_all [OF pre]
  obtain st3 where r3: "close_pipe_fds n cur st2 = Return () st3"
    and f3: "programs st3 = programs st" "npipes st3 = npipes st" "stderr_log st3 = stderr_log st"
    and t3': "\<forall>fd. fd_lookup (fdt st3) fd =
              (if 0 \<le> fd \<and> (\<exists>j. cur \<le> j \<and> j < n \<and>
                     (fd = fd_in (programs st2 ! j) \<or> fd = fd_out (programs st2 ! j)))
               then None else fd_lookup (fdt st2) fd)"
    unfolding f2 by blast
  note t3 = t3' [rule_format, unfolded f2 t2]
  have "start_program e n cur st =
      seq (if 0 < cur then checked_dup2 a FD_STDIN st else Return () st) (\<lambda>_ st1.
      seq (if int cur \<noteq> int n - 1
           then checked_dup2 (fd_out (programs st1 ! cur)) FD_STDOUT st1 else Return () st1) (\<lambda>_ st2.
      seq (close_pipe_fds n cur st2) (\<lambda>_ st3.
      execvp_or_die e (programs st3 ! cur) st3)))"
    using fk by (simp add: start_program_def Let_def a_def)
  also have "\<dots> =
      seq (if Suc cur < n then checked_dup2 b FD_STDOUT st1 else Return () st1) (\<lambda>_ st2.
      seq (close_pipe_fds n cur st2) (\<lambda>_ st3.
      execvp_or_die e (programs st3 ! cur) st3))"
    by (simp only: r1 seq.simps f1 b_def neq)
  also have "\<dots> = seq (close_pipe_fds n cur st2) (\<lambda>_ st3.
      execvp_or_die e (programs st3 ! cur) st3)"
    by (simp only: r2 seq.simps)
  also have "\<dots> = execvp_or_die e (?ps ! cur) st3"
    by (simp only: r3 seq.simps f3)
  finally have run: "start_program e n cur st = execvp_or_die e (?ps ! cur) st3" .
  have neg: "\<And>fd. fd < 0 \<Longrightarrow> t2 fd = None"
    by (simp add: t2_def t1_def fd_lookup_neg)
  have tbl: "fd_lookup (fdt st3) = child_table n cur ?ps ?t0"
  proof
    fix fd
    have "fd_lookup (fdt st3) fd =
        (if fd \<in> set (stage_fds n cur ?ps) then None else t2 fd)"
      using neg [of fd] len by (auto simp add: t3 stage_fds_iff)
    then show "fd_lookup (fdt st3) fd = child_table n cur ?ps ?t0 fd"
      by (simp add: child_table_def Let_def t2_def t1_def a_def b_def)
  qed
  show ?thesis
  proof (intro exI conjI)
    show "start_program e n cur st = execvp_or_die e (?ps ! cur) st3"
      by (rule run)
    show "programs st3 = programs st" "npipes st3 = npipes st" "stderr_log st3 = stderr_log st"
      by (rule f3)+
    show "fd_lookup (fdt st3) = child_table n cur ?ps ?t0"
      by (rule tbl)
  qed
qed

text \<open>With the standard descriptors open at the start, no pipe end is 0 or 1.\<close>

lemma child_table_std:
  assumes w: "wired m0 k n cur (n - 1) st" and lt: "cur < n"
    and s0: "m0 0 \<noteq> None" and s1: "m0 1 \<noteq> None"
  shows "child_table n cur (programs st) (fd_lookup (fdt st)) =
           m0 (0 := (if 0 < cur then Some (PipeRead (k + cur - 1)) else m0 0),
               1 := (if Suc cur < n then Some (PipeWrite (k + cur)) else m0 1))"
proof
  fix fd
  let ?ps = "programs st"
  let ?t0 = "fd_lookup (fdt st)"
  from w have len: "n \<le> length ?ps"
    by (simp add: wired_def)
  have hin: "has_in cur (n - 1) cur = (0 < cur)" and hout: "has_out cur (n - 1) cur = (Suc cur < n)"
    using lt by (auto simp add: has_in_def has_out_def)
  have la: "?t0 (fd_in (?ps ! cur)) = (if 0 < cur then Some (PipeRead (k + cur - 1)) else None)"
    and lb: "?t0 (fd_out (?ps ! cur)) = (if Suc cur < n then Some (PipeWrite (k + cur)) else None)"
    using wired_fd_in(1) [OF w lt] wired_fd_out(1) [OF w lt] hin hout
    by simp_all
  from fd_of_stage_not_std [OF w lt s0] fd_of_stage_not_std [OF w lt s1]
  have ab: "fd_in (?ps ! cur) \<noteq> 0" "fd_out (?ps ! cur) \<noteq> 0"
    "fd_in (?ps ! cur) \<noteq> 1" "fd_out (?ps ! cur) \<noteq> 1"
    by simp_all
  define held where "held = (fd \<in> set (stage_fds n cur ?ps))"
  have held_iff: "held = (\<exists>j. cur \<le> j \<and> j < n \<and> (fd = fd_in (?ps ! j) \<or> fd = fd_out (?ps ! j)))"
    unfolding held_def using len by (rule stage_fds_iff)
  have held_free: "held \<Longrightarrow> m0 fd = None"
  proof -
    assume held
    then obtain j where j: "j < n" and "fd = fd_in (?ps ! j) \<or> fd = fd_out (?ps ! j)"
      unfolding held_iff by blast
    with wired_fd_in(2) [OF w j] wired_fd_out(2) [OF w j] show "m0 fd = None"
      by auto
  qed
  have not_held: "\<not> held \<Longrightarrow> ?t0 fd = m0 fd"
    unfolding held_iff by (rule wired_other_fd [OF w])
  have ct: "child_table n cur ?ps ?t0 fd =
      (if held then None
       else if fd = 1 \<and> Suc cur < n then Some (PipeWrite (k + cur))
       else if fd = 0 \<and> 0 < cur then Some (PipeRead (k + cur - 1))
       else ?t0 fd)"
    using ab la lb by (auto simp add: child_table_def Let_def held_def)
  show "child_table n cur ?ps ?t0 fd =
           (m0 (0 := (if 0 < cur then Some (PipeRead (k + cur - 1)) else m0 0),
               1 := (if Suc cur < n then Some (PipeWrite (k + cur)) else m0 1))) fd"
  proof (cases held)
    case True
    from held_free [OF True] s0 s1 have "fd \<noteq> 0" "fd \<noteq> 1" "m0 fd = None"
      by auto
    with True show ?thesis
      by (simp add: ct)
  next
    case False
    from not_held [OF False] False show ?thesis
      by (auto simp add: ct)
  qed
qed

subsection \<open>The loops of main\<close>

lemma wired_print_line: "wired m0 k n lo hi (print_line ev st) = wired m0 k n lo hi st"
  by (simp add: wired_def print_line_def)

lemma print_line_simps:
  "programs (print_line ev st) = programs st"
  "fdt (print_line ev st) = fdt st"
  "npipes (print_line ev st) = npipes st"
  "stderr_log (print_line ev st) = stderr_log st @ [ev]"
  by (simp_all add: print_line_def)

lemma seq_assoc: "seq (seq r f) g = seq r (\<lambda>v st. seq (f v st) g)"
  by (cases r) simp_all

lemma launch_first_ok:
  assumes "wired m0 k n 0 (n - 1) st" and "c \<le> n" and "\<forall>j<c. 0 < fork_ret e j"
  shows "\<exists>st'. launch_first e n c st = Return () st' \<and>
           wired m0 k n c (n - 1) st' \<and>
           map argv (programs st') = map argv (programs st) \<and>
           (\<forall>j<n. pid (programs st' ! j) = (if j < c then fork_ret e j else pid (programs st ! j))) \<and>
           (\<forall>j. c \<le> j \<and> j < n \<longrightarrow> programs st' ! j = programs st ! j) \<and>
           (\<forall>j<c. fd_lookup (fdt st') (fd_in (programs st ! j)) = None \<and>
                   fd_lookup (fdt st') (fd_out (programs st ! j)) = None) \<and>
           stderr_log st' =
             stderr_log st @ map (\<lambda>j. Starting j (argv0 (programs st ! j))) [0..<c]"
  using assms(2,3)
proof (induction c)
  case 0
  with assms(1) show ?case
    by simp
next
  case (Suc c)
  then have cn: "c < n" and "c \<le> n" and "\<forall>j<c. 0 < fork_ret e j" and fk: "0 < fork_ret e c"
    by simp_all
  with Suc.IH obtain s where r: "launch_first e n c st = Return () s"
    and w: "wired m0 k n c (n - 1) s"
    and av: "map argv (programs s) = map argv (programs st)"
    and pd: "\<forall>j<n. pid (programs s ! j) = (if j < c then fork_ret e j else pid (programs st ! j))"
    and same: "\<forall>j. c \<le> j \<and> j < n \<longrightarrow> programs s ! j = programs st ! j"
    and closed: "\<forall>j<c. fd_lookup (fdt s) (fd_in (programs st ! j)) = None \<and>
                   fd_lookup (fdt s) (fd_out (programs st ! j)) = None"
    and lg: "stderr_log s = stderr_log st @ map (\<lambda>j. Starting j (argv0 (programs st ! j))) [0..<c]"
    by blast
  let ?s1 = "print_line (Starting c (argv0 (programs s ! c))) s"
  from w have w1: "wired m0 k n c (n - 1) ?s1"
    by (simp add: wired_print_line)
  from w have len: "length (programs s) = n"
    by (simp add: wired_def)
  from same cn have sc: "programs s ! c = programs st ! c"
    by simp
  from start_program_parent [OF w1 cn fk]
  obtain s' where r': "start_program e n c ?s1 = Return () s'"
    and w': "wired m0 k n (Suc c) (n - 1) s'"
    and lg': "stderr_log s' = stderr_log ?s1"
    and av': "map argv (programs s') = map argv (programs ?s1)"
    and t': "fd_lookup (fdt s') =
             (fd_lookup (fdt ?s1))(fd_in (programs ?s1 ! c) := None, fd_out (programs ?s1 ! c) := None)"
    and ps': "programs s' = (programs ?s1)
             [c := (programs ?s1 ! c)\<lparr>pid := fork_ret e c, fd_in := -1, fd_out := -1\<rparr>]"
    by blast
  have run: "launch_first e n (Suc c) st = Return () s'"
    by (simp add: r r')
  have av2: "map argv (programs s') = map argv (programs st)"
    using av' av by (simp add: print_line_simps)
  have pd2: "\<forall>j<n. pid (programs s' ! j) = (if j < Suc c then fork_ret e j else pid (programs st ! j))"
    using pd len by (auto simp add: ps' print_line_simps nth_list_update less_Suc_eq)
  have same2: "\<forall>j. Suc c \<le> j \<and> j < n \<longrightarrow> programs s' ! j = programs st ! j"
    using same by (auto simp add: ps' print_line_simps)
  have closed2: "\<forall>j<Suc c. fd_lookup (fdt s') (fd_in (programs st ! j)) = None \<and>
                   fd_lookup (fdt s') (fd_out (programs st ! j)) = None"
    using closed by (auto simp add: t' print_line_simps sc less_Suc_eq)
  have lg2: "stderr_log s' =
      stderr_log st @ map (\<lambda>j. Starting j (argv0 (programs st ! j))) [0..<Suc c]"
    by (simp add: lg' lg print_line_simps sc)
  from run w' av2 pd2 same2 closed2 lg2 show ?case
    by blast
qed

lemma spawn_children_launch_first:
  "c \<le> n \<Longrightarrow>
   spawn_children e n 0 st = seq (launch_first e n c st) (\<lambda>_ st1. spawn_children e n c st1)"
proof (induction c)
  case 0
  show ?case by simp
next
  case (Suc c)
  then have cn: "c < n"
    by simp
  have "seq (launch_first e n (Suc c) st) (\<lambda>_ st1. spawn_children e n (Suc c) st1) =
        seq (launch_first e n c st) (\<lambda>_ st1.
          seq (start_program e n c (print_line (Starting c (argv0 (programs st1 ! c))) st1))
            (\<lambda>_ st2. spawn_children e n (Suc c) st2))"
    by (simp add: seq_assoc)
  also have "\<dots> = seq (launch_first e n c st) (\<lambda>_ st1. spawn_children e n c st1)"
    using cn by (subst (2) spawn_children.simps) simp
  also have "\<dots> = spawn_children e n 0 st"
    using Suc by simp
  finally show ?case by simp
qed

lemma spawn_children_done: "spawn_children e n n st = Return () st"
  by (subst spawn_children.simps) simp

lemma wait_children_ok:
  assumes "\<forall>j. i \<le> j \<and> j < n \<longrightarrow> wait_on_program e (programs st ! j) \<noteq> None"
  shows "wait_children e n i st =
     Return () (st\<lparr>stderr_log := stderr_log st @
        concat (map (\<lambda>j. [Waiting j (argv0 (programs st ! j)),
                          ExitedWith j (argv0 (programs st ! j))
                            (the (wait_on_program e (programs st ! j)))]) [i..<n])\<rparr>)"
  using assms
proof (induction "n - i" arbitrary: i st)
  case 0
  then have "\<not> i < n"
    by simp
  then show ?case
    by (subst wait_children.simps) simp
next
  case (Suc d)
  then have lt: "i < n"
    by simp
  with Suc.prems obtain status where ws: "wait_on_program e (programs st ! i) = Some status"
    by auto
  let ?s1 = "print_line (Waiting i (argv0 (programs st ! i))) st"
  let ?s2 = "print_line (ExitedWith i (argv0 (programs st ! i)) status) ?s1"
  have step: "wait_children e n i st = wait_children e n (Suc i) ?s2"
    using lt ws by (subst wait_children.simps) (simp add: Let_def print_line_simps)
  from Suc.hyps(2) have d: "d = n - Suc i"
    by simp
  from Suc.prems have pre: "\<forall>j. Suc i \<le> j \<and> j < n \<longrightarrow> wait_on_program e (programs ?s2 ! j) \<noteq> None"
    by (simp add: print_line_simps)
  have up: "[i..<n] = i # [Suc i..<n]"
    using lt by (simp add: upt_conv_Cons)
  show ?case
    unfolding step Suc.hyps(1) [OF d pre] up
    by (simp add: print_line_def ws)
qed

subsection \<open>Starting the stages\<close>

lemma prepare_pipes_ok:
  assumes "\<forall>p\<in>set (programs st). fd_in p = -1 \<and> fd_out p = -1"
    and "n = length (programs st)" and "0 < n" and "\<forall>i. pipe_ok e i"
  shows "\<exists>st1. prepare_pipes e n st = Return () st1 \<and>
           wired (fd_lookup (fdt st)) (npipes st) n 0 (n - 1) st1 \<and>
           map argv (programs st1) = map argv (programs st) \<and>
           map pid (programs st1) = map pid (programs st) \<and>
           stderr_log st1 = stderr_log st"
proof -
  from assms(1,2) have w0: "wired (fd_lookup (fdt st)) (npipes st) n 0 0 st"
    by (simp add: wired_initial)
  from assms(4) have ok: "\<forall>j. 0 \<le> j \<and> Suc j < n \<longrightarrow> pipe_ok e (npipes st + j)"
    by simp
  from prepare_pipes_loop_ok [OF w0 assms(3) ok] show ?thesis
    by (simp add: prepare_pipes_def)
qed

lemma wired_all_started:
  assumes "wired m0 k n n hi st"
  shows "fd_lookup (fdt st) = m0"
    and "\<forall>j<n. fd_in (programs st ! j) = -1 \<and> fd_out (programs st ! j) = -1"
proof -
  show "fd_lookup (fdt st) = m0"
  proof
    fix fd
    have "\<not> (\<exists>j. n \<le> j \<and> j < n \<and>
        (fd = fd_in (programs st ! j) \<or> fd = fd_out (programs st ! j)))"
      by simp
    with assms show "fd_lookup (fdt st) fd = m0 fd"
      by (rule wired_other_fd)
  qed
  show "\<forall>j<n. fd_in (programs st ! j) = -1 \<and> fd_out (programs st ! j) = -1"
    using assms by (simp add: wired_def has_in_def has_out_def)
qed

text \<open>
  C3: once the pipes are built (every pipe granted) and every \<open>fork\<close> succeeds, the parent
  comes back from \<open>start_program\<close> for stage \<open>cur\<close> with both descriptor fields of the
  stage set to \<open>-1\<close>, its process id recorded, and the descriptors these fields held
  closed; after the loop that starts all stages every field is \<open>-1\<close> and the descriptor
  table is the one the process had before it built the pipes: no pipe end is open.
\<close>

theorem parent_releases_pipe_ends:
  assumes "\<forall>p\<in>set (programs st). fd_in p = -1 \<and> fd_out p = -1"
    and "n = length (programs st)" and "cur < n"
    and "\<forall>i. pipe_ok e i" and "\<forall>j<n. 0 < fork_ret e j"
  shows "\<exists>st1 st2 st3.
           prepare_pipes e n st = Return () st1 \<and>
           launch_first e n (Suc cur) st1 = Return () st2 \<and>
           fd_in (programs st2 ! cur) = -1 \<and> fd_out (programs st2 ! cur) = -1 \<and>
           pid (programs st2 ! cur) = fork_ret e cur \<and>
           fd_lookup (fdt st2) (fd_in (programs st1 ! cur)) = None \<and>
           fd_lookup (fdt st2) (fd_out (programs st1 ! cur)) = None \<and>
           spawn_children e n 0 st1 = Return () st3 \<and>
           (\<forall>j<n. fd_in (programs st3 ! j) = -1 \<and> fd_out (programs st3 ! j) = -1) \<and>
           fd_lookup (fdt st3) = fd_lookup (fdt st)"
proof -
  let ?m0 = "fd_lookup (fdt st)" and ?k = "npipes st"
  from assms(3) have n0: "0 < n"
    by simp
  from prepare_pipes_ok [OF assms(1,2) n0 assms(4)]
  obtain st1 where r1: "prepare_pipes e n st = Return () st1"
    and w1: "wired ?m0 ?k n 0 (n - 1) st1"
    by blast
  from assms(3,5) have c: "Suc cur \<le> n" "\<forall>j<Suc cur. 0 < fork_ret e j"
    by simp_all
  from launch_first_ok [OF w1 c]
  obtain st2 where r2: "launch_first e n (Suc cur) st1 = Return () st2"
    and w2: "wired ?m0 ?k n (Suc cur) (n - 1) st2"
    and pd: "\<forall>j<n. pid (programs st2 ! j) =
               (if j < Suc cur then fork_ret e j else pid (programs st1 ! j))"
    and closed: "\<forall>j<Suc cur. fd_lookup (fdt st2) (fd_in (programs st1 ! j)) = None \<and>
                   fd_lookup (fdt st2) (fd_out (programs st1 ! j)) = None"
    by blast
  have "\<not> has_in (Suc cur) (n - 1) cur" "\<not> has_out (Suc cur) (n - 1) cur"
    by (simp_all add: has_in_def has_out_def)
  with wired_fd_in(3) [OF w2 assms(3)] wired_fd_out(3) [OF w2 assms(3)]
  have rel: "fd_in (programs st2 ! cur) = -1" "fd_out (programs st2 ! cur) = -1"
    by simp_all
  from pd assms(3) have pc: "pid (programs st2 ! cur) = fork_ret e cur"
    by simp
  from closed have cl: "fd_lookup (fdt st2) (fd_in (programs st1 ! cur)) = None"
    "fd_lookup (fdt st2) (fd_out (programs st1 ! cur)) = None"
    by simp_all
  have nn: "n \<le> n"
    by simp
  from launch_first_ok [OF w1 nn assms(5)]
  obtain st3 where r3: "launch_first e n n st1 = Return () st3"
    and w3: "wired ?m0 ?k n n (n - 1) st3"
    by blast
  have "spawn_children e n 0 st1 = seq (launch_first e n n st1) (\<lambda>_ s. spawn_children e n n s)"
    using nn by (rule spawn_children_launch_first)
  then have r3': "spawn_children e n 0 st1 = Return () st3"
    by (simp add: r3 spawn_children_done)
  from r1 r2 rel pc cl r3' wired_all_started [OF w3] show ?thesis
    by blast
qed

theorem parent_releases_pipe_ends_witness:
  "prepare_pipes
     \<lparr>malloc_ok = (\<lambda>k. True), pipe_ok = (\<lambda>k. True), fork_ret = (\<lambda>k. 100 + int k),
      exec_ok = (\<lambda>f. True), waitpid_ret = (\<lambda>p. Some (p, 0))\<rparr> 3
     \<lparr>programs =
        [\<lparr>argv = Some [''ls''], argc = 1, pid = -1, fd_in = -1, fd_out = -1\<rparr>,
         \<lparr>argv = Some [''sort''], argc = 1, pid = -1, fd_in = -1, fd_out = -1\<rparr>,
         \<lparr>argv = Some [''wc''], argc = 1, pid = -1, fd_in = -1, fd_out = -1\<rparr>],
      fdt = [Some (Inherited 0), Some (Inherited 1), Some (Inherited 2)],
      npipes = 0, stderr_log = []\<rparr> =
   Return ()
     \<lparr>programs =
        [\<lparr>argv = Some [''ls''], argc = 1, pid = -1, fd_in = -1, fd_out = 4\<rparr>,
         \<lparr>argv = Some [''sort''], argc = 1, pid = -1, fd_in = 3, fd_out = 6\<rparr>,
         \<lparr>argv = Some [''wc''], argc = 1, pid = -1, fd_in = 5, fd_out = -1\<rparr>],
      fdt = [Some (Inherited 0), Some (Inherited 1), Some (Inherited 2),
             Some (PipeRead 0), Some (PipeWrite 0), Some (PipeRead 1), Some (PipeWrite 1)],
      npipes = 2, stderr_log = []\<rparr>
   \<and> launch_first
     \<lparr>malloc_ok = (\<lambda>k. True), pipe_ok = (\<lambda>k. True), fork_ret = (\<lambda>k. 100 + int k),
      exec_ok = (\<lambda>f. True), waitpid_ret = (\<lambda>p. Some (p, 0))\<rparr> 3 2
     \<lparr>programs =
        [\<lparr>argv = Some [''ls''], argc = 1, pid = -1, fd_in = -1, fd_out = 4\<rparr>,
         \<lparr>argv = Some [''sort''], argc = 1, pid = -1, fd_in = 3, fd_out = 6\<rparr>,
         \<lparr>argv = Some [''wc''], argc = 1, pid = -1, fd_in = 5, fd_out = -1\<rparr>],
      fdt = [Some (Inherited 0), Some (Inherited 1), Some (Inherited 2),
             Some (PipeRead 0), Some (PipeWrite 0), Some (PipeRead 1), Some (PipeWrite 1)],
      npipes = 2, stderr_log = []\<rparr> =
   Return ()
     \<lparr>programs =
        [\<lparr>argv = Some [''ls''], argc = 1, pid = 100, fd_in = -1, fd_out = -1\<rparr>,
         \<lparr>argv = Some [''sort''], argc = 1, pid = 101, fd_in = -1, fd_out = -1\<rparr>,
         \<lparr>argv = Some [''wc''], argc = 1, pid = -1, fd_in = 5, fd_out = -1\<rparr>],
      fdt = [Some (Inherited 0), Some (Inherited 1), Some (Inherited 2),
             None, None, Some (PipeRead 1), None],
      npipes = 2, stderr_log = [Starting 0 ''ls'', Starting 1 ''sort'']\<rparr>
   \<and> spawn_children
     \<lparr>malloc_ok = (\<lambda>k. True), pipe_ok = (\<lambda>k. True), fork_ret = (\<lambda>k. 100 + int k),
      exec_ok = (\<lambda>f. True), waitpid_ret = (\<lambda>p. Some (p, 0))\<rparr> 3 0
     \<lparr>programs =
        [\<lparr>argv = Some [''ls''], argc = 1, pid = -1, fd_in = -1, fd_out = 4\<rparr>,
         \<lparr>argv = Some [''sort''], argc = 1, pid = -1, fd_in = 3, fd_out = 6\<rparr>,
         \<lparr>argv = Some [''wc''], argc = 1, pid = -1, fd_in = 5, fd_out = -1\<rparr>],
      fdt = [Some (Inherited 0), Some (Inherited 1), Some (Inherited 2),
             Some (PipeRead 0), Some (PipeWrite 0), Some (PipeRead 1), Some (PipeWrite 1)],
      npipes = 2, stderr_log = []\<rparr> =
   Return ()
     \<lparr>programs =
        [\<lparr>argv = Some [''ls''], argc = 1, pid = 100, fd_in = -1, fd_out = -1\<rparr>,
         \<lparr>argv = Some [''sort''], argc = 1, pid = 101, fd_in = -1, fd_out = -1\<rparr>,
         \<lparr>argv = Some [''wc''], argc = 1, pid = 102, fd_in = -1, fd_out = -1\<rparr>],
      fdt = [Some (Inherited 0), Some (Inherited 1), Some (Inherited 2),
             None, None, None, None],
      npipes = 2, stderr_log = [Starting 0 ''ls'', Starting 1 ''sort'', Starting 2 ''wc'']\<rparr>"
  using parent_releases_pipe_ends
    [of "\<lparr>programs =
        [\<lparr>argv = Some [''ls''], argc = 1, pid = -1, fd_in = -1, fd_out = -1\<rparr>,
         \<lparr>argv = Some [''sort''], argc = 1, pid = -1, fd_in = -1, fd_out = -1\<rparr>,
         \<lparr>argv = Some [''wc''], argc = 1, pid = -1, fd_in = -1, fd_out = -1\<rparr>],
      fdt = [Some (Inherited 0), Some (Inherited 1), Some (Inherited 2)],
      npipes = 0, stderr_log = []\<rparr>" 3 1
        "\<lparr>malloc_ok = (\<lambda>k. True), pipe_ok = (\<lambda>k. True), fork_ret = (\<lambda>k. 100 + int k),
      exec_ok = (\<lambda>f. True), waitpid_ret = (\<lambda>p. Some (p, 0))\<rparr>"]
  by (simp add: prepare_pipes_def prepare_pipes_loop.simps sys_pipe_def
       spawn_children.simps start_program_def checked_close_def sys_close_def
       check_return_value_def fd_lookup_def print_line_def argv0_def Let_def
       numeral_2_eq_2)

text \<open>
  C2: the pipes are built and the stages below \<open>cur\<close> started by the parent, which is
  then in state \<open>s\<close>; the process in which \<open>fork\<close> returns 0 for stage \<open>cur\<close> is the
  child, and starts from a copy of \<open>s\<close>. The child always reaches \<open>execvp\<close>, and its
  descriptors are then those of \<open>s\<close> after: descriptor 0 made a copy of the stage's
  \<open>fd_in\<close> when \<open>cur > 0\<close>, descriptor 1 a copy of the stage's \<open>fd_out\<close> when
  \<open>cur < n - 1\<close>, and every descriptor recorded in a stage from \<open>cur\<close> on closed, those
  it duplicated from included. When \<open>execvp\<close> fails the child ends with \<open>die\<close> in that
  state; the parent's run does not depend on it. With standard input and output open
  when the orchestrator started (no pipe end is then numbered 0 or 1), descriptor 0 is the
  read end of pipe \<open>cur - 1\<close>, descriptor 1 the write end of pipe \<open>cur\<close>, and the
  child holds no other pipe end: apart from 0 and 1 its table is the one the orchestrator
  had before it built the pipes.
\<close>

theorem child_redirects_and_closes:
  assumes "\<forall>p\<in>set (programs st). fd_in p = -1 \<and> fd_out p = -1"
    and "n = length (programs st)" and "cur < n"
    and "\<forall>i. pipe_ok e i" and "\<forall>j<cur. 0 < fork_ret e j" and "fork_ret e cur = 0"
    and "argv (programs st ! cur) = Some (f # as)"
  shows "\<exists>st1 s st'.
           prepare_pipes e n st = Return () st1 \<and>
           launch_first e n cur st1 = Return () s \<and>
           (\<forall>j. cur \<le> j \<and> j < n \<longrightarrow> programs s ! j = programs st1 ! j) \<and>
           spawn_children e n 0 st1 =
             (if exec_ok e f then Exec f (f # as) st' else Die ''execvp() failed.'' st') \<and>
           fd_lookup (fdt st') = child_table n cur (programs s) (fd_lookup (fdt s)) \<and>
           (fd_lookup (fdt st) 0 \<noteq> None \<and> fd_lookup (fdt st) 1 \<noteq> None \<longrightarrow>
              (0 < cur \<longrightarrow>
                 fd_lookup (fdt st') 0 = fd_lookup (fdt st1) (fd_in (programs st1 ! cur)) \<and>
                 fd_lookup (fdt st') 0 = Some (PipeRead (npipes st + cur - 1))) \<and>
              (cur = 0 \<longrightarrow> fd_lookup (fdt st') 0 = fd_lookup (fdt st) 0) \<and>
              (Suc cur < n \<longrightarrow>
                 fd_lookup (fdt st') 1 = fd_lookup (fdt st1) (fd_out (programs st1 ! cur)) \<and>
                 fd_lookup (fdt st') 1 = Some (PipeWrite (npipes st + cur))) \<and>
              (Suc cur = n \<longrightarrow> fd_lookup (fdt st') 1 = fd_lookup (fdt st) 1) \<and>
              (\<forall>j<n. fd_lookup (fdt st') (fd_in (programs st1 ! j)) = None \<and>
                      fd_lookup (fdt st') (fd_out (programs st1 ! j)) = None) \<and>
              (\<forall>fd. fd \<noteq> 0 \<and> fd \<noteq> 1 \<longrightarrow> fd_lookup (fdt st') fd = fd_lookup (fdt st) fd))"
proof -
  let ?m0 = "fd_lookup (fdt st)" and ?k = "npipes st"
  from assms(3) have n0: "0 < n"
    by simp
  from prepare_pipes_ok [OF assms(1,2) n0 assms(4)]
  obtain st1 where r1: "prepare_pipes e n st = Return () st1"
    and w1: "wired ?m0 ?k n 0 (n - 1) st1"
    and av1: "map argv (programs st1) = map argv (programs st)"
    by blast
  from assms(3) have c: "cur \<le> n"
    by simp
  from launch_first_ok [OF w1 c assms(5)]
  obtain s where r2: "launch_first e n cur st1 = Return () s"
    and w2: "wired ?m0 ?k n cur (n - 1) s"
    and same: "\<forall>j. cur \<le> j \<and> j < n \<longrightarrow> programs s ! j = programs st1 ! j"
    by blast
  let ?s1 = "print_line (Starting cur (argv0 (programs s ! cur))) s"
  from w2 have w3: "wired ?m0 ?k n cur (n - 1) ?s1"
    by (simp add: wired_print_line)
  from start_program_child_run [OF w3 assms(3,6)]
  obtain st' where r3: "start_program e n cur ?s1 = execvp_or_die e (programs ?s1 ! cur) st'"
    and tbl: "fd_lookup (fdt st') = child_table n cur (programs s) (fd_lookup (fdt s))"
    by (auto simp add: print_line_simps)
  from same assms(3) have "programs ?s1 ! cur = programs st1 ! cur"
    by (simp add: print_line_simps)
  moreover have "argv (programs st1 ! cur) = argv (programs st ! cur)"
  proof -
    from w1 have "length (programs st1) = n"
      by (simp add: wired_def)
    with assms(2,3) have "argv (programs st1 ! cur) = map argv (programs st1) ! cur"
      "argv (programs st ! cur) = map argv (programs st) ! cur"
      by simp_all
    with av1 show ?thesis
      by simp
  qed
  ultimately have ex: "execvp_or_die e (programs ?s1 ! cur) st' =
      (if exec_ok e f then Exec f (f # as) st' else Die ''execvp() failed.'' st')"
    using assms(7) by (simp add: execvp_or_die_def die_def)
  have "spawn_children e n 0 st1 = seq (launch_first e n cur st1) (\<lambda>_ s. spawn_children e n cur s)"
    using c by (rule spawn_children_launch_first)
  also have "\<dots> = spawn_children e n cur s"
    by (simp add: r2)
  also have "\<dots> = seq (start_program e n cur ?s1) (\<lambda>_ st1. spawn_children e n (Suc cur) st1)"
    using assms(3) by (subst spawn_children.simps) simp
  also have "\<dots> = (if exec_ok e f then Exec f (f # as) st' else Die ''execvp() failed.'' st')"
    by (simp add: r3 ex)
  finally have run: "spawn_children e n 0 st1 =
      (if exec_ok e f then Exec f (f # as) st' else Die ''execvp() failed.'' st')" .
  have std: "fd_lookup (fdt st) 0 \<noteq> None \<and> fd_lookup (fdt st) 1 \<noteq> None \<longrightarrow>
              (0 < cur \<longrightarrow>
                 fd_lookup (fdt st') 0 = fd_lookup (fdt st1) (fd_in (programs st1 ! cur)) \<and>
                 fd_lookup (fdt st') 0 = Some (PipeRead (?k + cur - 1))) \<and>
              (cur = 0 \<longrightarrow> fd_lookup (fdt st') 0 = ?m0 0) \<and>
              (Suc cur < n \<longrightarrow>
                 fd_lookup (fdt st') 1 = fd_lookup (fdt st1) (fd_out (programs st1 ! cur)) \<and>
                 fd_lookup (fdt st') 1 = Some (PipeWrite (?k + cur))) \<and>
              (Suc cur = n \<longrightarrow> fd_lookup (fdt st') 1 = ?m0 1) \<and>
              (\<forall>j<n. fd_lookup (fdt st') (fd_in (programs st1 ! j)) = None \<and>
                      fd_lookup (fdt st') (fd_out (programs st1 ! j)) = None) \<and>
              (\<forall>fd. fd \<noteq> 0 \<and> fd \<noteq> 1 \<longrightarrow> fd_lookup (fdt st') fd = ?m0 fd)"
  proof
    assume "fd_lookup (fdt st) 0 \<noteq> None \<and> fd_lookup (fdt st) 1 \<noteq> None"
    then have s0: "?m0 0 \<noteq> None" and s1: "?m0 1 \<noteq> None"
      by simp_all
    from child_table_std [OF w2 assms(3) s0 s1] tbl
    have tbl': "fd_lookup (fdt st') =
             ?m0 (0 := (if 0 < cur then Some (PipeRead (?k + cur - 1)) else ?m0 0),
                  1 := (if Suc cur < n then Some (PipeWrite (?k + cur)) else ?m0 1))"
      by simp
    have hin: "has_in 0 (n - 1) cur = (0 < cur)" and hout: "has_out 0 (n - 1) cur = (Suc cur < n)"
      using assms(3) by (auto simp add: has_in_def has_out_def)
    have c0: "0 < cur \<longrightarrow>
              fd_lookup (fdt st') 0 = fd_lookup (fdt st1) (fd_in (programs st1 ! cur)) \<and>
              fd_lookup (fdt st') 0 = Some (PipeRead (?k + cur - 1))"
      using wired_fd_in(1) [OF w1 assms(3)] hin by (simp add: tbl')
    have c1: "cur = 0 \<longrightarrow> fd_lookup (fdt st') 0 = ?m0 0"
      by (simp add: tbl')
    have c2: "Suc cur < n \<longrightarrow>
              fd_lookup (fdt st') 1 = fd_lookup (fdt st1) (fd_out (programs st1 ! cur)) \<and>
              fd_lookup (fdt st') 1 = Some (PipeWrite (?k + cur))"
      using wired_fd_out(1) [OF w1 assms(3)] hout by (simp add: tbl')
    have c3: "Suc cur = n \<longrightarrow> fd_lookup (fdt st') 1 = ?m0 1"
      by (auto simp add: tbl')
    have c4: "\<forall>j<n. fd_lookup (fdt st') (fd_in (programs st1 ! j)) = None \<and>
                   fd_lookup (fdt st') (fd_out (programs st1 ! j)) = None"
    proof (intro allI impI)
      fix j assume j: "j < n"
      from fd_of_stage_not_std [OF w1 j s0] fd_of_stage_not_std [OF w1 j s1]
        wired_fd_in(2) [OF w1 j] wired_fd_out(2) [OF w1 j]
      show "fd_lookup (fdt st') (fd_in (programs st1 ! j)) = None \<and>
                   fd_lookup (fdt st') (fd_out (programs st1 ! j)) = None"
        by (simp add: tbl')
    qed
    have c5: "\<forall>fd. fd \<noteq> 0 \<and> fd \<noteq> 1 \<longrightarrow> fd_lookup (fdt st') fd = ?m0 fd"
      by (simp add: tbl')
    from c0 c1 c2 c3 c4 c5
    show "(0 < cur \<longrightarrow>
                 fd_lookup (fdt st') 0 = fd_lookup (fdt st1) (fd_in (programs st1 ! cur)) \<and>
                 fd_lookup (fdt st') 0 = Some (PipeRead (?k + cur - 1))) \<and>
              (cur = 0 \<longrightarrow> fd_lookup (fdt st') 0 = ?m0 0) \<and>
              (Suc cur < n \<longrightarrow>
                 fd_lookup (fdt st') 1 = fd_lookup (fdt st1) (fd_out (programs st1 ! cur)) \<and>
                 fd_lookup (fdt st') 1 = Some (PipeWrite (?k + cur))) \<and>
              (Suc cur = n \<longrightarrow> fd_lookup (fdt st') 1 = ?m0 1) \<and>
              (\<forall>j<n. fd_lookup (fdt st') (fd_in (programs st1 ! j)) = None \<and>
                      fd_lookup (fdt st') (fd_out (programs st1 ! j)) = None) \<and>
              (\<forall>fd. fd \<noteq> 0 \<and> fd \<noteq> 1 \<longrightarrow> fd_lookup (fdt st') fd = ?m0 fd)"
      by (intro conjI)
  qed
  show ?thesis
  proof (intro exI conjI)
    show "prepare_pipes e n st = Return () st1"
      by (rule r1)
    show "launch_first e n cur st1 = Return () s"
      by (rule r2)
    show "\<forall>j. cur \<le> j \<and> j < n \<longrightarrow> programs s ! j = programs st1 ! j"
      by (rule same)
    show "spawn_children e n 0 st1 =
        (if exec_ok e f then Exec f (f # as) st' else Die ''execvp() failed.'' st')"
      by (rule run)
    show "fd_lookup (fdt st') = child_table n cur (programs s) (fd_lookup (fdt s))"
      by (rule tbl)
    show "fd_lookup (fdt st) 0 \<noteq> None \<and> fd_lookup (fdt st) 1 \<noteq> None \<longrightarrow>
              (0 < cur \<longrightarrow>
                 fd_lookup (fdt st') 0 = fd_lookup (fdt st1) (fd_in (programs st1 ! cur)) \<and>
                 fd_lookup (fdt st') 0 = Some (PipeRead (npipes st + cur - 1))) \<and>
              (cur = 0 \<longrightarrow> fd_lookup (fdt st') 0 = fd_lookup (fdt st) 0) \<and>
              (Suc cur < n \<longrightarrow>
                 fd_lookup (fdt st') 1 = fd_lookup (fdt st1) (fd_out (programs st1 ! cur)) \<and>
                 fd_lookup (fdt st') 1 = Some (PipeWrite (npipes st + cur))) \<and>
              (Suc cur = n \<longrightarrow> fd_lookup (fdt st') 1 = fd_lookup (fdt st) 1) \<and>
              (\<forall>j<n. fd_lookup (fdt st') (fd_in (programs st1 ! j)) = None \<and>
                      fd_lookup (fdt st') (fd_out (programs st1 ! j)) = None) \<and>
              (\<forall>fd. fd \<noteq> 0 \<and> fd \<noteq> 1 \<longrightarrow> fd_lookup (fdt st') fd = fd_lookup (fdt st) fd)"
      by (rule std)
  qed
qed

theorem child_redirects_and_closes_witness:
  "prepare_pipes
     \<lparr>malloc_ok = (\<lambda>k. True), pipe_ok = (\<lambda>k. True),
      fork_ret = (\<lambda>k. if k = 1 then 0 else 100 + int k),
      exec_ok = (\<lambda>f. f \<noteq> ''nosuchprogram''), waitpid_ret = (\<lambda>p. Some (p, 0))\<rparr> 3
     \<lparr>programs =
        [\<lparr>argv = Some [''ls''], argc = 1, pid = -1, fd_in = -1, fd_out = -1\<rparr>,
         \<lparr>argv = Some [''sort''], argc = 1, pid = -1, fd_in = -1, fd_out = -1\<rparr>,
         \<lparr>argv = Some [''wc''], argc = 1, pid = -1, fd_in = -1, fd_out = -1\<rparr>],
      fdt = [Some (Inherited 0), Some (Inherited 1), Some (Inherited 2)],
      npipes = 0, stderr_log = []\<rparr> =
   Return ()
     \<lparr>programs =
        [\<lparr>argv = Some [''ls''], argc = 1, pid = -1, fd_in = -1, fd_out = 4\<rparr>,
         \<lparr>argv = Some [''sort''], argc = 1, pid = -1, fd_in = 3, fd_out = 6\<rparr>,
         \<lparr>argv = Some [''wc''], argc = 1, pid = -1, fd_in = 5, fd_out = -1\<rparr>],
      fdt = [Some (Inherited 0), Some (Inherited 1), Some (Inherited 2),
             Some (PipeRead 0), Some (PipeWrite 0), Some (PipeRead 1), Some (PipeWrite 1)],
      npipes = 2, stderr_log = []\<rparr>
   \<and> spawn_children
     \<lparr>malloc_ok = (\<lambda>k. True), pipe_ok = (\<lambda>k. True),
      fork_ret = (\<lambda>k. if k = 1 then 0 else 100 + int k),
      exec_ok = (\<lambda>f. f \<noteq> ''nosuchprogram''), waitpid_ret = (\<lambda>p. Some (p, 0))\<rparr> 3 0
     \<lparr>programs =
        [\<lparr>argv = Some [''ls''], argc = 1, pid = -1, fd_in = -1, fd_out = 4\<rparr>,
         \<lparr>argv = Some [''sort''], argc = 1, pid = -1, fd_in = 3, fd_out = 6\<rparr>,
         \<lparr>argv = Some [''wc''], argc = 1, pid = -1, fd_in = 5, fd_out = -1\<rparr>],
      fdt = [Some (Inherited 0), Some (Inherited 1), Some (Inherited 2),
             Some (PipeRead 0), Some (PipeWrite 0), Some (PipeRead 1), Some (PipeWrite 1)],
      npipes = 2, stderr_log = []\<rparr> =
   Exec ''sort'' [''sort'']
     \<lparr>programs =
        [\<lparr>argv = Some [''ls''], argc = 1, pid = 100, fd_in = -1, fd_out = -1\<rparr>,
         \<lparr>argv = Some [''sort''], argc = 1, pid = -1, fd_in = 3, fd_out = 6\<rparr>,
         \<lparr>argv = Some [''wc''], argc = 1, pid = -1, fd_in = 5, fd_out = -1\<rparr>],
      fdt = [Some (PipeRead 0), Some (PipeWrite 1), Some (Inherited 2),
             None, None, None, None],
      npipes = 2, stderr_log = [Starting 0 ''ls'', Starting 1 ''sort'']\<rparr>
   \<and> spawn_children
     \<lparr>malloc_ok = (\<lambda>k. True), pipe_ok = (\<lambda>k. True),
      fork_ret = (\<lambda>k. if k = 1 then 0 else 100 + int k),
      exec_ok = (\<lambda>f. f \<noteq> ''sort''), waitpid_ret = (\<lambda>p. Some (p, 0))\<rparr> 3 0
     \<lparr>programs =
        [\<lparr>argv = Some [''ls''], argc = 1, pid = -1, fd_in = -1, fd_out = 4\<rparr>,
         \<lparr>argv = Some [''sort''], argc = 1, pid = -1, fd_in = 3, fd_out = 6\<rparr>,
         \<lparr>argv = Some [''wc''], argc = 1, pid = -1, fd_in = 5, fd_out = -1\<rparr>],
      fdt = [Some (Inherited 0), Some (Inherited 1), Some (Inherited 2),
             Some (PipeRead 0), Some (PipeWrite 0), Some (PipeRead 1), Some (PipeWrite 1)],
      npipes = 2, stderr_log = []\<rparr> =
   Die ''execvp() failed.''
     \<lparr>programs =
        [\<lparr>argv = Some [''ls''], argc = 1, pid = 100, fd_in = -1, fd_out = -1\<rparr>,
         \<lparr>argv = Some [''sort''], argc = 1, pid = -1, fd_in = 3, fd_out = 6\<rparr>,
         \<lparr>argv = Some [''wc''], argc = 1, pid = -1, fd_in = 5, fd_out = -1\<rparr>],
      fdt = [Some (PipeRead 0), Some (PipeWrite 1), Some (Inherited 2),
             None, None, None, None],
      npipes = 2, stderr_log = [Starting 0 ''ls'', Starting 1 ''sort'']\<rparr>
   \<and> prepare_pipes
     \<lparr>malloc_ok = (\<lambda>k. True), pipe_ok = (\<lambda>k. True),
      fork_ret = (\<lambda>k. if k = 1 then 0 else 100 + int k),
      exec_ok = (\<lambda>f. f \<noteq> ''nosuchprogram''), waitpid_ret = (\<lambda>p. Some (p, 0))\<rparr> 3
     \<lparr>programs =
        [\<lparr>argv = Some [''ls''], argc = 1, pid = -1, fd_in = -1, fd_out = -1\<rparr>,
         \<lparr>argv = Some [''sort''], argc = 1, pid = -1, fd_in = -1, fd_out = -1\<rparr>,
         \<lparr>argv = Some [''wc''], argc = 1, pid = -1, fd_in = -1, fd_out = -1\<rparr>],
      fdt = [None, Some (Inherited 1), Some (Inherited 2)],
      npipes = 0, stderr_log = []\<rparr> =
   Return ()
     \<lparr>programs =
        [\<lparr>argv = Some [''ls''], argc = 1, pid = -1, fd_in = -1, fd_out = 3\<rparr>,
         \<lparr>argv = Some [''sort''], argc = 1, pid = -1, fd_in = 0, fd_out = 5\<rparr>,
         \<lparr>argv = Some [''wc''], argc = 1, pid = -1, fd_in = 4, fd_out = -1\<rparr>],
      fdt = [Some (PipeRead 0), Some (Inherited 1), Some (Inherited 2),
             Some (PipeWrite 0), Some (PipeRead 1), Some (PipeWrite 1)],
      npipes = 2, stderr_log = []\<rparr>
   \<and> spawn_children
     \<lparr>malloc_ok = (\<lambda>k. True), pipe_ok = (\<lambda>k. True),
      fork_ret = (\<lambda>k. if k = 1 then 0 else 100 + int k),
      exec_ok = (\<lambda>f. f \<noteq> ''nosuchprogram''), waitpid_ret = (\<lambda>p. Some (p, 0))\<rparr> 3 0
     \<lparr>programs =
        [\<lparr>argv = Some [''ls''], argc = 1, pid = -1, fd_in = -1, fd_out = 3\<rparr>,
         \<lparr>argv = Some [''sort''], argc = 1, pid = -1, fd_in = 0, fd_out = 5\<rparr>,
         \<lparr>argv = Some [''wc''], argc = 1, pid = -1, fd_in = 4, fd_out = -1\<rparr>],
      fdt = [Some (PipeRead 0), Some (Inherited 1), Some (Inherited 2),
             Some (PipeWrite 0), Some (PipeRead 1), Some (PipeWrite 1)],
      npipes = 2, stderr_log = []\<rparr> =
   Exec ''sort'' [''sort'']
     \<lparr>programs =
        [\<lparr>argv = Some [''ls''], argc = 1, pid = 100, fd_in = -1, fd_out = -1\<rparr>,
         \<lparr>argv = Some [''sort''], argc = 1, pid = -1, fd_in = 0, fd_out = 5\<rparr>,
         \<lparr>argv = Some [''wc''], argc = 1, pid = -1, fd_in = 4, fd_out = -1\<rparr>],
      fdt = [None, Some (PipeWrite 1), Some (Inherited 2), None, None, None],
      npipes = 2, stderr_log = [Starting 0 ''ls'', Starting 1 ''sort'']\<rparr>"
  using child_redirects_and_closes
    [of "\<lparr>programs =
        [\<lparr>argv = Some [''ls''], argc = 1, pid = -1, fd_in = -1, fd_out = -1\<rparr>,
         \<lparr>argv = Some [''sort''], argc = 1, pid = -1, fd_in = -1, fd_out = -1\<rparr>,
         \<lparr>argv = Some [''wc''], argc = 1, pid = -1, fd_in = -1, fd_out = -1\<rparr>],
      fdt = [Some (Inherited 0), Some (Inherited 1), Some (Inherited 2)],
      npipes = 0, stderr_log = []\<rparr>" 3 1
        "\<lparr>malloc_ok = (\<lambda>k. True), pipe_ok = (\<lambda>k. True),
      fork_ret = (\<lambda>k. if k = 1 then 0 else 100 + int k),
      exec_ok = (\<lambda>f. f \<noteq> ''nosuchprogram''), waitpid_ret = (\<lambda>p. Some (p, 0))\<rparr>" "''sort''" "[]"]
    child_redirects_and_closes
    [of "\<lparr>programs =
        [\<lparr>argv = Some [''ls''], argc = 1, pid = -1, fd_in = -1, fd_out = -1\<rparr>,
         \<lparr>argv = Some [''sort''], argc = 1, pid = -1, fd_in = -1, fd_out = -1\<rparr>,
         \<lparr>argv = Some [''wc''], argc = 1, pid = -1, fd_in = -1, fd_out = -1\<rparr>],
      fdt = [Some (Inherited 0), Some (Inherited 1), Some (Inherited 2)],
      npipes = 0, stderr_log = []\<rparr>" 3 1
        "\<lparr>malloc_ok = (\<lambda>k. True), pipe_ok = (\<lambda>k. True),
      fork_ret = (\<lambda>k. if k = 1 then 0 else 100 + int k),
      exec_ok = (\<lambda>f. f \<noteq> ''sort''), waitpid_ret = (\<lambda>p. Some (p, 0))\<rparr>" "''sort''" "[]"]
    child_redirects_and_closes
    [of "\<lparr>programs =
        [\<lparr>argv = Some [''ls''], argc = 1, pid = -1, fd_in = -1, fd_out = -1\<rparr>,
         \<lparr>argv = Some [''sort''], argc = 1, pid = -1, fd_in = -1, fd_out = -1\<rparr>,
         \<lparr>argv = Some [''wc''], argc = 1, pid = -1, fd_in = -1, fd_out = -1\<rparr>],
      fdt = [None, Some (Inherited 1), Some (Inherited 2)],
      npipes = 0, stderr_log = []\<rparr>" 3 1
        "\<lparr>malloc_ok = (\<lambda>k. True), pipe_ok = (\<lambda>k. True),
      fork_ret = (\<lambda>k. if k = 1 then 0 else 100 + int k),
      exec_ok = (\<lambda>f. f \<noteq> ''nosuchprogram''), waitpid_ret = (\<lambda>p. Some (p, 0))\<rparr>" "''sort''" "[]"]
  by (simp add: prepare_pipes_def prepare_pipes_loop.simps sys_pipe_def
       spawn_children.simps start_program_def checked_close_def sys_close_def
       checked_dup2_def sys_dup2_def close_pipe_fds.simps execvp_or_die_def
       FD_STDIN_def FD_STDOUT_def
       check_return_value_def fd_lookup_def print_line_def argv0_def Let_def die_def)

subsection \<open>The whole run\<close>

lemma exit_reports_append: "exit_reports (xs @ ys) = exit_reports xs @ exit_reports ys"
  by (induction xs rule: exit_reports.induct) simp_all

lemma exit_reports_starting: "exit_reports (map (\<lambda>j. Starting j (f j)) js) = []"
  by (induction js) simp_all

lemma exit_reports_waits:
  "exit_reports (concat (map (\<lambda>j. [Waiting j (f j), ExitedWith j (g j) (s j)]) js)) =
   map (\<lambda>j. (j, s j)) js"
  by (induction js) simp_all

lemma wait_on_program_pid: "pid p = pid q \<Longrightarrow> wait_on_program e p = wait_on_program e q"
  by (auto simp add: wait_on_program_def split: option.splits)

lemma parse_command_line_well_formed:
  assumes "\<forall>g\<in>set gs. good_group g" and "length gs \<le> max_num_progs"
    and "\<forall>i. malloc_ok e i"
  shows "parse_command_line e max_num_progs (a0 # join_groups gs) (initial_proc t) =
         Return (length gs) ((initial_proc t)\<lparr>programs := map parsed_program gs\<rparr>)"
proof -
  have "parse_loop e max_num_progs (a0 # join_groups gs) 1 0 (initial_proc t) =
        Return (0 + length gs)
          ((initial_proc t)\<lparr>programs := programs (initial_proc t) @ map parsed_program gs\<rparr>)"
    using assms by (intro parse_loop_well_formed) (simp_all add: programs_initial_proc)
  then show ?thesis
    by (simp add: parse_command_line_def programs_initial_proc)
qed

lemma main_run:
  assumes good: "\<forall>g\<in>set gs. good_group g" and ne: "gs \<noteq> []"
    and le: "length gs \<le> MAX_NUM_PROGRAMS"
    and m: "\<forall>i. malloc_ok e i" and p: "\<forall>i. pipe_ok e i"
    and f: "\<forall>j<length gs. 0 < fork_ret e j"
    and wt: "\<forall>j<length gs. waitpid_ret e (fork_ret e j) \<noteq> None"
  shows "\<exists>st. main e (a0 # join_groups gs) t = Return 0 st \<and>
           stderr_log st =
             map (\<lambda>j. Starting j (hd (gs ! j))) [0..<length gs] @
             concat (map (\<lambda>j. [Waiting j (hd (gs ! j)),
                               ExitedWith j (hd (gs ! j))
                                 (the (wait_on_program e
                                    ((parsed_program (gs ! j))\<lparr>pid := fork_ret e j\<rparr>)))])
                       [0..<length gs]) @
             [EverythingGood] \<and>
           fd_lookup (fdt st) = fd_lookup t"
proof -
  let ?n = "length gs"
  let ?st1 = "(initial_proc t)\<lparr>programs := map parsed_program gs\<rparr>"
  from ne have n0: "0 < ?n"
    by simp
  from ne good have "join_groups gs \<noteq> []"
    by (rule join_groups_nonempty)
  then have len: "\<not> length (a0 # join_groups gs) \<le> 1"
    by (cases "join_groups gs") simp_all
  have r1: "parse_command_line e MAX_NUM_PROGRAMS (a0 # join_groups gs) (initial_proc t) =
      Return ?n ?st1"
    using good le m by (rule parse_command_line_well_formed)
  have pre: "\<forall>p\<in>set (programs ?st1). fd_in p = -1 \<and> fd_out p = -1"
    by (auto simp add: parsed_program_def)
  have n1: "?n = length (programs ?st1)"
    by simp
  from prepare_pipes_ok [OF pre n1 n0 p]
  obtain st2 where r2: "prepare_pipes e ?n ?st1 = Return () st2"
    and w2: "wired (fd_lookup t) 0 ?n 0 (?n - 1) st2"
    and av2: "map argv (programs st2) = map (\<lambda>g. Some g) gs"
    and lg2: "stderr_log st2 = []"
    by (auto simp add: initial_proc_def parsed_program_def comp_def)
  have nn: "?n \<le> ?n"
    by simp
  from launch_first_ok [OF w2 nn f]
  obtain st3 where r3: "launch_first e ?n ?n st2 = Return () st3"
    and w3: "wired (fd_lookup t) 0 ?n ?n (?n - 1) st3"
    and av3: "map argv (programs st3) = map (\<lambda>g. Some g) gs"
    and pd3: "\<forall>j<?n. pid (programs st3 ! j) = fork_ret e j"
    and lg3: "stderr_log st3 = map (\<lambda>j. Starting j (argv0 (programs st2 ! j))) [0..<?n]"
    by (auto simp add: av2 lg2)
  from w2 w3 have l2: "length (programs st2) = ?n" and l3: "length (programs st3) = ?n"
    by (simp_all add: wired_def)
  have name: "\<And>s j. map argv (programs s) = map (\<lambda>g. Some g) gs \<Longrightarrow> length (programs s) = ?n \<Longrightarrow>
      j < ?n \<Longrightarrow> argv0 (programs s ! j) = hd (gs ! j)"
  proof -
    fix s j assume a: "map argv (programs s) = map (\<lambda>g. Some g) gs"
      and l: "length (programs s) = ?n" and j: "j < ?n"
    from l j have "argv (programs s ! j) = map argv (programs s) ! j"
      by simp
    with a j have av: "argv (programs s ! j) = Some (gs ! j)"
      by simp
    from good j have "gs ! j \<noteq> []"
      by (auto simp add: good_group_def)
    with av show "argv0 (programs s ! j) = hd (gs ! j)"
      by (cases "gs ! j") (simp_all add: argv0_def)
  qed
  have "spawn_children e ?n 0 st2 = seq (launch_first e ?n ?n st2) (\<lambda>_ s. spawn_children e ?n ?n s)"
    using nn by (rule spawn_children_launch_first)
  then have r3': "spawn_children e ?n 0 st2 = Return () st3"
    by (simp add: r3 spawn_children_done)
  have wres: "\<And>j. j < ?n \<Longrightarrow> wait_on_program e (programs st3 ! j) =
      wait_on_program e ((parsed_program (gs ! j))\<lparr>pid := fork_ret e j\<rparr>)"
    using pd3 by (intro wait_on_program_pid) simp
  have wsome: "\<forall>j. 0 \<le> j \<and> j < ?n \<longrightarrow> wait_on_program e (programs st3 ! j) \<noteq> None"
  proof (intro allI impI)
    fix j assume "0 \<le> j \<and> j < ?n"
    then have j: "j < ?n"
      by simp
    with f wt pd3 show "wait_on_program e (programs st3 ! j) \<noteq> None"
      by (auto simp add: wait_on_program_def split: option.splits prod.splits)
  qed
  let ?st4 = "st3\<lparr>stderr_log := stderr_log st3 @
        concat (map (\<lambda>j. [Waiting j (argv0 (programs st3 ! j)),
                          ExitedWith j (argv0 (programs st3 ! j))
                            (the (wait_on_program e (programs st3 ! j)))]) [0..<?n])\<rparr>"
  have r4: "wait_children e ?n 0 st3 = Return () ?st4"
    using wsome by (rule wait_children_ok)
  let ?st5 = "print_line EverythingGood (free_programs ?n ?st4)"
  have run: "main e (a0 # join_groups gs) t = Return 0 ?st5"
    using len by (simp add: main_def r1 r2 r3' r4)
  have starts: "map (\<lambda>j. Starting j (argv0 (programs st2 ! j))) [0..<?n] =
      map (\<lambda>j. Starting j (hd (gs ! j))) [0..<?n]"
    using name [OF av2 l2] by simp
  have waits: "map (\<lambda>j. [Waiting j (argv0 (programs st3 ! j)),
                          ExitedWith j (argv0 (programs st3 ! j))
                            (the (wait_on_program e (programs st3 ! j)))]) [0..<?n] =
      map (\<lambda>j. [Waiting j (hd (gs ! j)),
                               ExitedWith j (hd (gs ! j))
                                 (the (wait_on_program e
                                    ((parsed_program (gs ! j))\<lparr>pid := fork_ret e j\<rparr>)))])
                       [0..<?n]"
    using name [OF av3 l3] wres by simp
  have lg5: "stderr_log ?st5 =
             map (\<lambda>j. Starting j (hd (gs ! j))) [0..<?n] @
             concat (map (\<lambda>j. [Waiting j (hd (gs ! j)),
                               ExitedWith j (hd (gs ! j))
                                 (the (wait_on_program e
                                    ((parsed_program (gs ! j))\<lparr>pid := fork_ret e j\<rparr>)))])
                       [0..<?n]) @
             [EverythingGood]"
    by (simp only: print_line_simps free_programs_def proc.simps lg3 starts waits) simp
  have "fd_lookup (fdt ?st5) = fd_lookup (fdt st3)"
    by (simp add: print_line_simps free_programs_def)
  with wired_all_started(1) [OF w3] have t5: "fd_lookup (fdt ?st5) = fd_lookup t"
    by simp
  from run lg5 t5 show ?thesis
    by blast
qed

text \<open>
  C7: for a well-formed command line of \<open>n\<close> groups, \<open>1 \<le> n \<le> 10\<close> (the stage
  specifications the parser accepts), when every pipe is granted, every \<open>fork\<close> succeeds
  and every \<open>waitpid\<close> returns, \<open>main\<close> returns after printing: a line for the start of
  each stage, in the order \<open>0 .. n - 1\<close>; then, for each stage in the same order, the line
  that it waits for the stage and the line of the stage's exit code; then the closing
  line. There are exactly \<open>n\<close> exit-code reports, for the stages \<open>0 .. n - 1\<close> in order.
\<close>

theorem main_launches_then_waits:
  assumes "\<forall>g\<in>set gs. good_group g" and "gs \<noteq> []"
    and "length gs \<le> MAX_NUM_PROGRAMS"
    and "\<forall>i. malloc_ok e i" and "\<forall>i. pipe_ok e i"
    and "\<forall>j<length gs. 0 < fork_ret e j"
    and "\<forall>j<length gs. waitpid_ret e (fork_ret e j) \<noteq> None"
  shows "\<exists>st. main e (a0 # join_groups gs) t = Return 0 st \<and>
           stderr_log st =
             map (\<lambda>j. Starting j (hd (gs ! j))) [0..<length gs] @
             concat (map (\<lambda>j. [Waiting j (hd (gs ! j)),
                               ExitedWith j (hd (gs ! j))
                                 (the (wait_on_program e
                                    ((parsed_program (gs ! j))\<lparr>pid := fork_ret e j\<rparr>)))])
                       [0..<length gs]) @
             [EverythingGood] \<and>
           map fst (exit_reports (stderr_log st)) = [0..<length gs]"
proof -
  from main_run [OF assms, of a0 t]
  obtain st where r: "main e (a0 # join_groups gs) t = Return 0 st"
    and lg: "stderr_log st =
             map (\<lambda>j. Starting j (hd (gs ! j))) [0..<length gs] @
             concat (map (\<lambda>j. [Waiting j (hd (gs ! j)),
                               ExitedWith j (hd (gs ! j))
                                 (the (wait_on_program e
                                    ((parsed_program (gs ! j))\<lparr>pid := fork_ret e j\<rparr>)))])
                       [0..<length gs]) @
             [EverythingGood]"
    by blast
  have "map fst (exit_reports (stderr_log st)) = [0..<length gs]"
    unfolding lg exit_reports_append exit_reports_starting exit_reports_waits
    by (simp add: comp_def)
  with r lg show ?thesis
    by blast
qed

theorem main_launches_then_waits_witness:
  "main
     \<lparr>malloc_ok = (\<lambda>k. True), pipe_ok = (\<lambda>k. True), fork_ret = (\<lambda>k. 100 + int k),
      exec_ok = (\<lambda>f. True),
      waitpid_ret = (\<lambda>p. Some (p, if p = 100 then 0 else 256))\<rparr>
     [''runpipeline'', ''ls'', ''--'', ''sort'', ''--'', ''wc'']
     [Some (Inherited 0), Some (Inherited 1), Some (Inherited 2)] =
   Return 0
     \<lparr>programs =
        [\<lparr>argv = None, argc = 1, pid = 100, fd_in = -1, fd_out = -1\<rparr>,
         \<lparr>argv = None, argc = 1, pid = 101, fd_in = -1, fd_out = -1\<rparr>,
         \<lparr>argv = None, argc = 1, pid = 102, fd_in = -1, fd_out = -1\<rparr>],
      fdt = [Some (Inherited 0), Some (Inherited 1), Some (Inherited 2), None, None, None, None],
      npipes = 2,
      stderr_log = [Starting 0 ''ls'', Starting 1 ''sort'', Starting 2 ''wc'',
         Waiting 0 ''ls'', ExitedWith 0 ''ls'' 0, Waiting 1 ''sort'', ExitedWith 1 ''sort'' 1,
         Waiting 2 ''wc'', ExitedWith 2 ''wc'' 1, EverythingGood]\<rparr>"
  using main_launches_then_waits
    [of "[[''ls''], [''sort''], [''wc'']]"
        "\<lparr>malloc_ok = (\<lambda>k. True), pipe_ok = (\<lambda>k. True), fork_ret = (\<lambda>k. 100 + int k),
      exec_ok = (\<lambda>f. True),
      waitpid_ret = (\<lambda>p. Some (p, if p = 100 then 0 else 256))\<rparr>"
        "''runpipeline''" "[Some (Inherited 0), Some (Inherited 1), Some (Inherited 2)]"]
  by (simp add: good_group_def MAX_NUM_PROGRAMS_def main_def parse_command_line_def
       parse_loop.simps collect_args.simps
       init_program_def store_program_def die_def initial_proc_def
       prepare_pipes_def prepare_pipes_loop.simps sys_pipe_def
       spawn_children.simps start_program_def checked_close_def sys_close_def
       check_return_value_def fd_lookup_def print_line_def argv0_def
       wait_children.simps wait_on_program_def WEXITSTATUS_def free_programs_def Let_def)

text \<open>
  C8: under the same conditions the exit status of the orchestrator is 0 whatever the
  stages report; the report of a stage is its exit code when \<open>waitpid\<close> returns the
  process id of the stage and \<open>-1\<close> when \<open>waitpid\<close> fails, and in both cases the
  reports of all the stages are there, in order: a failed wait does not end the loop.
\<close>

theorem main_exit_status_zero:
  assumes "\<forall>g\<in>set gs. good_group g" and "gs \<noteq> []"
    and "length gs \<le> MAX_NUM_PROGRAMS"
    and "\<forall>i. malloc_ok e i" and "\<forall>i. pipe_ok e i"
    and "\<forall>j<length gs. 0 < fork_ret e j"
    and "\<forall>j<length gs. waitpid_ret e (fork_ret e j) \<noteq> None"
  shows "\<exists>st. main e (a0 # join_groups gs) t = Return 0 st \<and>
           exit_status (main e (a0 # join_groups gs) t) = Some 0 \<and>
           exit_reports (stderr_log st) =
             map (\<lambda>j. (j, case the (waitpid_ret e (fork_ret e j)) of
                               (rv, s) \<Rightarrow> if rv = fork_ret e j then WEXITSTATUS s else -1))
               [0..<length gs]"
proof -
  from main_run [OF assms, of a0 t]
  obtain st where r: "main e (a0 # join_groups gs) t = Return 0 st"
    and lg: "stderr_log st =
             map (\<lambda>j. Starting j (hd (gs ! j))) [0..<length gs] @
             concat (map (\<lambda>j. [Waiting j (hd (gs ! j)),
                               ExitedWith j (hd (gs ! j))
                                 (the (wait_on_program e
                                    ((parsed_program (gs ! j))\<lparr>pid := fork_ret e j\<rparr>)))])
                       [0..<length gs]) @
             [EverythingGood]"
    by blast
  have rep: "exit_reports (stderr_log st) =
      map (\<lambda>j. (j, the (wait_on_program e ((parsed_program (gs ! j))\<lparr>pid := fork_ret e j\<rparr>))))
        [0..<length gs]"
    unfolding lg exit_reports_append exit_reports_starting exit_reports_waits
    by simp
  have "\<And>j. j < length gs \<Longrightarrow>
      the (wait_on_program e ((parsed_program (gs ! j))\<lparr>pid := fork_ret e j\<rparr>)) =
      (case the (waitpid_ret e (fork_ret e j)) of
         (rv, s) \<Rightarrow> if rv = fork_ret e j then WEXITSTATUS s else -1)"
    using assms(6,7) by (auto simp add: wait_on_program_def split: option.splits prod.splits)
  then have "map (\<lambda>j. (j, the (wait_on_program e
                 ((parsed_program (gs ! j))\<lparr>pid := fork_ret e j\<rparr>)))) [0..<length gs] =
      map (\<lambda>j. (j, case the (waitpid_ret e (fork_ret e j)) of
                               (rv, s) \<Rightarrow> if rv = fork_ret e j then WEXITSTATUS s else -1))
               [0..<length gs]"
    by simp
  with rep r show ?thesis
    by simp
qed

theorem main_exit_status_zero_witness:
  "main
     \<lparr>malloc_ok = (\<lambda>k. True), pipe_ok = (\<lambda>k. True), fork_ret = (\<lambda>k. 100 + int k),
      exec_ok = (\<lambda>f. True),
      waitpid_ret = (\<lambda>p. if p = 101 then Some (-1, 0) else Some (p, 768))\<rparr>
     [''runpipeline'', ''ls'', ''--'', ''sort'', ''--'', ''wc'']
     [Some (Inherited 0), Some (Inherited 1), Some (Inherited 2)] =
   Return 0
     \<lparr>programs =
        [\<lparr>argv = None, argc = 1, pid = 100, fd_in = -1, fd_out = -1\<rparr>,
         \<lparr>argv = None, argc = 1, pid = 101, fd_in = -1, fd_out = -1\<rparr>,
         \<lparr>argv = None, argc = 1, pid = 102, fd_in = -1, fd_out = -1\<rparr>],
      fdt = [Some (Inherited 0), Some (Inherited 1), Some (Inherited 2), None, None, None, None],
      npipes = 2,
      stderr_log = [Starting 0 ''ls'', Starting 1 ''sort'', Starting 2 ''wc'',
         Waiting 0 ''ls'', ExitedWith 0 ''ls'' 3, Waiting 1 ''sort'', ExitedWith 1 ''sort'' (-1),
         Waiting 2 ''wc'', ExitedWith 2 ''wc'' 3, EverythingGood]\<rparr>
   \<and> exit_status (main
     \<lparr>malloc_ok = (\<lambda>k. True), pipe_ok = (\<lambda>k. True), fork_ret = (\<lambda>k. 100 + int k),
      exec_ok = (\<lambda>f. True),
      waitpid_ret = (\<lambda>p. if p = 101 then Some (-1, 0) else Some (p, 768))\<rparr>
     [''runpipeline'', ''ls'', ''--'', ''sort'', ''--'', ''wc'']
     [Some (Inherited 0), Some (Inherited 1), Some (Inherited 2)]) = Some 0"
  using main_exit_status_zero
    [of "[[''ls''], [''sort''], [''wc'']]"
        "\<lparr>malloc_ok = (\<lambda>k. True), pipe_ok = (\<lambda>k. True), fork_ret = (\<lambda>k. 100 + int k),
      exec_ok = (\<lambda>f. True),
      waitpid_ret = (\<lambda>p. if p = 101 then Some (-1, 0) else Some (p, 768))\<rparr>"
        "''runpipeline''" "[Some (Inherited 0), Some (Inherited 1), Some (Inherited 2)]"]
  by (simp add: good_group_def MAX_NUM_PROGRAMS_def main_def parse_command_line_def
       parse_loop.simps collect_args.simps
       init_program_def store_program_def die_def initial_proc_def
       prepare_pipes_def prepare_pipes_loop.simps sys_pipe_def
       spawn_children.simps start_program_def checked_close_def sys_close_def
       check_return_value_def fd_lookup_def print_line_def argv0_def
       wait_children.simps wait_on_program_def WEXITSTATUS_def free_programs_def Let_def)

end
